(* ===== verification/Cedana_Prelude.thy ===== *)
theory Cedana_Prelude
  imports Main "HOL-Library.Word" "HOL-Library.AList"
begin

text \<open>
  What the component theories share: Go's machine integers, the Go \<open>error\<close>
  value (with \<open>errors.Join\<close>), the first-error loop that the daemon uses over
  lists of callbacks, and the interface of \<open>sync.Map\<close> together with its
  implementation by association lists.
\<close>

named_theorems cedana_simps \<open>unfolding rules of the component operations\<close>
named_theorems sync_map_simps \<open>laws of the concurrent map\<close>

type_synonym u32 = "32 word"
type_synonym u64 = "64 word"
type_synonym i64 = "64 word"

text \<open>Conversion to \<open>int32\<close>, with wrap-around.\<close>

definition i32 :: "int \<Rightarrow> int" where
  "i32 x = (x + 2 ^ 31) mod 2 ^ 32 - 2 ^ 31"

section \<open>Go errors\<close>

text \<open>
  A Go \<open>error\<close> is \<open>None\<close> for \<open>nil\<close> and \<open>Some e\<close> otherwise. \<open>Errorf\<close> is
  \<open>fmt.Errorf\<close> or \<open>errors.New\<close> with no wrapped error, \<open>Wrapf\<close> the same with
  one wrapped (\<open>%w\<close>) or printed (\<open>%v\<close>) error, \<open>Status\<close> and \<open>Statusf\<close> the gRPC
  status errors, \<open>Joined\<close> the result of \<open>errors.Join\<close>. A run-time panic of the Go code
  is not an error return; where a branch of the source panics the model returns
  \<open>Panic\<close>, so that the branch is visible.
\<close>

datatype code = InvalidArgument | NotFound | FailedPrecondition | Internal
  | Unavailable | Unimplemented | DeadlineExceeded

datatype goerr = Errorf string | Wrapf string goerr | Status code string
  | Statusf code string goerr | Joined "goerr list" | Panic string

type_synonym error = "goerr option"

text \<open>\<open>errors.Join\<close>: nil entries are dropped, and joining only nils gives nil.\<close>

definition errors_Join :: "error list \<Rightarrow> error" where
  "errors_Join es = (let xs = map the (filter (\<lambda>e. e \<noteq> None) es)
     in if xs = [] then None else Some (Joined xs))"

lemma errors_Join_None [simp]: "errors_Join es = None \<longleftrightarrow> (\<forall>e\<in>set es. e = None)"
  by (auto simp: errors_Join_def Let_def filter_empty_conv)

lemma errors_Join_Nil [simp]: "errors_Join [] = None"
  by (simp add: errors_Join_def)

lemma errors_Join_all_None [simp]: "errors_Join [None, None] = None"
  by simp

section \<open>Loops that stop at the first error\<close>

text \<open>
  \<open>for _, x := range xs { if err := f(x); err != nil { return err } }; return nil\<close>
  over a state that every call may change.
\<close>

fun first_error :: "('a \<Rightarrow> 's \<Rightarrow> error \<times> 's) \<Rightarrow> 'a list \<Rightarrow> 's \<Rightarrow> error \<times> 's" where
  "first_error f [] s = (None, s)"
| "first_error f (x # xs) s =
     (case f x s of (Some e, s') \<Rightarrow> (Some e, s') | (None, s') \<Rightarrow> first_error f xs s')"

lemma first_error_append:
  "first_error f (xs @ ys) s =
     (case first_error f xs s of (Some e, s') \<Rightarrow> (Some e, s') | (None, s') \<Rightarrow> first_error f ys s')"
  by (induction xs arbitrary: s) (auto split: prod.splits option.splits)

lemma first_error_invariant:
  assumes "\<And>x s e s'. x \<in> set xs \<Longrightarrow> P s \<Longrightarrow> f x s = (e, s') \<Longrightarrow> P s'"
    and "P s" and "first_error f xs s = (e, s')"
  shows "P s'"
  using assms
proof (induction xs arbitrary: s)
  case Nil
  then show ?case by simp
next
  case (Cons x xs)
  show ?case
  proof (cases "f x s")
    case (Pair r t)
    have Pt: "P t" using Cons.prems(1)[of x s r t] Cons.prems(2) Pair by simp
    show ?thesis
    proof (cases r)
      case None
      with Pair Cons.prems(3) have "first_error f xs t = (e, s')" by simp
      with Pt show ?thesis using Cons.IH[of t] Cons.prems(1) by (meson list.set_intros(2))
    next
      case (Some a)
      with Pair Pt Cons.prems(3) show ?thesis by simp
    qed
  qed
qed

lemma first_error_frame:
  assumes "\<And>x s. x \<in> set xs \<Longrightarrow> g (snd (f x s)) = g s"
  shows "g (snd (first_error f xs s)) = g s"
  using assms
proof (induction xs arbitrary: s)
  case Nil
  then show ?case by simp
next
  case (Cons x xs)
  have IH: "g (snd (first_error f xs t)) = g t" for t
    using Cons.IH Cons.prems by simp
  have x: "g (snd (f x s)) = g s" using Cons.prems by simp
  show ?case
    using x IH by (auto split: prod.splits option.splits)
qed

section \<open>The interface of sync.Map\<close>

text \<open>
  \<open>sync.Map\<close> is used by the job manager and by the GPU controller pool through
  \<open>Load\<close>, \<open>Store\<close>, \<open>Delete\<close> and \<open>Range\<close>. \<open>Range\<close> visits every entry once, in no
  documented order: \<open>entries\<close> is that order for one state, and the laws say
  nothing about it beyond which entries it holds.
\<close>

locale sync_map =
  fixes empty :: "'m"
    and load :: "'m \<Rightarrow> 'k \<Rightarrow> 'v option"
    and store :: "'k \<Rightarrow> 'v \<Rightarrow> 'm \<Rightarrow> 'm"
    and delete :: "'k \<Rightarrow> 'm \<Rightarrow> 'm"
    and entries :: "'m \<Rightarrow> ('k \<times> 'v) list"
    and invar :: "'m \<Rightarrow> bool"
  assumes load_empty: "load empty k = None"
    and load_store: "invar m \<Longrightarrow> load (store k v m) k' = (if k' = k then Some v else load m k')"
    and load_delete: "invar m \<Longrightarrow> load (delete k m) k' = (if k' = k then None else load m k')"
    and entries_load: "invar m \<Longrightarrow> (k, v) \<in> set (entries m) \<longleftrightarrow> load m k = Some v"
    and distinct_entries: "invar m \<Longrightarrow> distinct (map fst (entries m))"
    and invar_empty: "invar empty"
    and invar_store: "invar m \<Longrightarrow> invar (store k v m)"
    and invar_delete: "invar m \<Longrightarrow> invar (delete k m)"
begin

lemma find_range_Some:
  assumes "invar m" and "find (\<lambda>e. P (snd e)) (entries m) = Some (k, v)"
  shows "load m k = Some v \<and> P v"
proof -
  from assms(2) have "(k, v) \<in> set (entries m)" and "P v"
    by (auto simp: find_Some_iff in_set_conv_nth) (metis snd_conv)
  with assms(1) show ?thesis by (simp add: entries_load)
qed

lemma find_range_None:
  assumes "invar m"
  shows "find (\<lambda>e. P (snd e)) (entries m) = None \<longleftrightarrow> (\<forall>k v. load m k = Some v \<longrightarrow> \<not> P v)"
  using entries_load[OF assms] by (force simp: find_None_iff)

lemma store_delete_other:
  "invar m \<Longrightarrow> k \<noteq> k' \<Longrightarrow> load (store k v (delete k' m)) k = Some v"
  by (simp add: load_store invar_delete)

end

section \<open>sync.Map as an association list\<close>

type_synonym ('k, 'v) smap = "('k \<times> 'v) list"

abbreviation sm_ok :: "('k, 'v) smap \<Rightarrow> bool" where
  "sm_ok m \<equiv> distinct (map fst m)"

interpretation sm: sync_map "[] :: ('k, 'v) smap" map_of AList.update AList.delete "\<lambda>m. m" sm_ok
  by unfold_locales
    (auto simp: update_conv' delete_conv' distinct_update distinct_delete)

lemmas [sync_map_simps] = sm.load_store sm.load_delete sm.invar_store sm.invar_delete

end
