(* ===== verification/Go_Strings.thy ===== *)
theory Go_Strings
  imports Cedana_Prelude
begin

text \<open>
  The functions of Go's \<open>strings\<close>, \<open>strconv\<close> and \<open>fmt\<close> packages that the daemon
  uses, on byte strings, and the round trips between printing and reading numbers
  and between joining and splitting lists. They model the language's library, so
  they carry no source map; the component theories use them.
\<close>

section \<open>Numbers\<close>

definition digit_char :: "nat \<Rightarrow> char" where
  "digit_char d = (if d < 10 then char_of (48 + d) else char_of (87 + d))"

definition is_digit :: "char \<Rightarrow> bool" where
  "is_digit c \<longleftrightarrow> 48 \<le> (of_char c :: nat) \<and> (of_char c :: nat) \<le> 57"

definition digit_val :: "char \<Rightarrow> nat" where
  "digit_val c = of_char c - 48"

fun show_base :: "nat \<Rightarrow> nat \<Rightarrow> string" where
  "show_base b n = (if n < b \<or> b < 2 then [digit_char n] else show_base b (n div b) @ [digit_char (n mod b)])"

declare show_base.simps [simp del]

text \<open>\<open>fmt.Sprintf("%d", n)\<close> and \<open>fmt.Sprintf("%x", n)\<close> on unsigned values.\<close>

definition itoa :: "nat \<Rightarrow> string" where
  "itoa n = show_base 10 n"

definition xtoa :: "nat \<Rightarrow> string" where
  "xtoa n = show_base 16 n"

fun read_digits :: "nat \<Rightarrow> string \<Rightarrow> nat" where
  "read_digits acc [] = acc"
| "read_digits acc (c # cs) = read_digits (10 * acc + digit_val c) cs"

definition is_space :: "char \<Rightarrow> bool" where
  "is_space c \<longleftrightarrow> c = CHR '' '' \<or> (9 \<le> (of_char c :: nat) \<and> (of_char c :: nat) \<le> 13)"

text \<open>
  \<open>var i uint32; fmt.Sscanf(v, "%d", &i)\<close> with its error ignored: leading spaces are
  skipped, the longest run of decimal digits is the token, and \<open>i\<close> keeps its zero
  value when the token is empty or exceeds 32 bits.
\<close>

definition sscanf_u32 :: "string \<Rightarrow> u32" where
  "sscanf_u32 v = (let tok = takeWhile is_digit (dropWhile is_space v); n = read_digits 0 tok
     in if tok = [] \<or> 2 ^ 32 \<le> n then 0 else of_nat n)"

text \<open>\<open>strconv.ParseUint(s, 10, 32)\<close>: every byte a digit, at least one, and in range.\<close>

definition parse_uint32 :: "string \<Rightarrow> u32 option" where
  "parse_uint32 s = (if s = [] \<or> \<not> list_all is_digit s \<or> 2 ^ 32 \<le> read_digits 0 s
     then None else Some (of_nat (read_digits 0 s)))"

section \<open>Searching, splitting and joining\<close>

definition has_prefix :: "string \<Rightarrow> string \<Rightarrow> bool" where
  "has_prefix s p \<longleftrightarrow> take (length p) s = p"

definition has_suffix :: "string \<Rightarrow> string \<Rightarrow> bool" where
  "has_suffix s p \<longleftrightarrow> has_prefix (rev s) (rev p)"

fun contains :: "string \<Rightarrow> string \<Rightarrow> bool" where
  "contains s sub = (has_prefix s sub \<or> (case s of [] \<Rightarrow> False | _ # r \<Rightarrow> contains r sub))"

declare contains.simps [simp del]

fun split_on :: "char \<Rightarrow> string \<Rightarrow> string list" where
  "split_on c [] = [[]]"
| "split_on c (x # xs) =
     (if x = c then [] # split_on c xs
      else (case split_on c xs of [] \<Rightarrow> [[x]] | y # ys \<Rightarrow> (x # y) # ys))"

text \<open>\<open>strings.Split\<close> with a separator of more than one byte; the fuel is the length of the text.\<close>

fun split_str_acc :: "nat \<Rightarrow> string \<Rightarrow> string \<Rightarrow> string \<Rightarrow> string list" where
  "split_str_acc 0 sep w s = [rev w @ s]"
| "split_str_acc (Suc k) sep w [] = [rev w]"
| "split_str_acc (Suc k) sep w (c # cs) =
     (if sep \<noteq> [] \<and> has_prefix (c # cs) sep then rev w # split_str_acc k sep [] (drop (length sep) (c # cs))
      else split_str_acc k sep (c # w) cs)"

definition split_str :: "string \<Rightarrow> string \<Rightarrow> string list" where
  "split_str sep s = split_str_acc (Suc (length s)) sep [] s"

fun join :: "string \<Rightarrow> string list \<Rightarrow> string" where
  "join sep [] = []"
| "join sep [x] = x"
| "join sep (x # y # ys) = x @ sep @ join sep (y # ys)"

definition trim_left :: "string \<Rightarrow> string" where
  "trim_left s = dropWhile is_space s"

definition trim_space :: "string \<Rightarrow> string" where
  "trim_space s = rev (trim_left (rev (trim_left s)))"

text \<open>\<open>strings.Fields\<close>: the maximal runs of non-space bytes.\<close>

fun str_fields_acc :: "string \<Rightarrow> string \<Rightarrow> string list" where
  "str_fields_acc w [] = (if w = [] then [] else [rev w])"
| "str_fields_acc w (c # cs) =
     (if is_space c then (if w = [] then str_fields_acc [] cs else rev w # str_fields_acc [] cs)
      else str_fields_acc (c # w) cs)"

definition str_fields :: "string \<Rightarrow> string list" where
  "str_fields s = str_fields_acc [] s"

text \<open>\<open>strings.IndexByte\<close> and \<open>strings.LastIndexByte\<close>, \<open>None\<close> for the result -1.\<close>

fun index_byte :: "string \<Rightarrow> char \<Rightarrow> nat option" where
  "index_byte [] c = None"
| "index_byte (x # xs) c = (if x = c then Some 0 else map_option Suc (index_byte xs c))"

fun last_index_byte :: "string \<Rightarrow> char \<Rightarrow> nat option" where
  "last_index_byte [] c = None"
| "last_index_byte (x # xs) c =
     (case last_index_byte xs c of Some i \<Rightarrow> Some (Suc i) | None \<Rightarrow> if x = c then Some 0 else None)"

section \<open>Round trips\<close>

lemma digit_char_digit [simp]: "d < 10 \<Longrightarrow> is_digit (digit_char d)"
  by (simp add: is_digit_def digit_char_def)

lemma digit_val_char [simp]: "d < 10 \<Longrightarrow> digit_val (digit_char d) = d"
  by (simp add: digit_val_def digit_char_def)

lemma is_digit_not_space: "is_digit c \<Longrightarrow> \<not> is_space c"
  by (auto simp: is_digit_def is_space_def)

lemma read_digits_append: "read_digits acc (xs @ ys) = read_digits (read_digits acc xs) ys"
  by (induction xs arbitrary: acc) auto

lemma show_base_nonempty [simp]: "show_base b n \<noteq> []"
  by (subst show_base.simps) simp

lemma itoa_nonempty [simp]: "itoa n \<noteq> []"
  by (simp add: itoa_def)

lemma itoa_digits: "\<forall>c\<in>set (itoa n). is_digit c"
proof (induction n rule: less_induct)
  case (less n)
  show ?case
  proof (cases "n < 10")
    case True
    then show ?thesis by (simp add: itoa_def show_base.simps[of 10 n])
  next
    case False
    then have "\<forall>c\<in>set (itoa (n div 10)). is_digit c" using less[of "n div 10"] by simp
    with False show ?thesis by (auto simp: itoa_def show_base.simps[of 10 n])
  qed
qed

lemma read_itoa [simp]: "read_digits 0 (itoa n) = n"
proof (induction n rule: less_induct)
  case (less n)
  show ?case
  proof (cases "n < 10")
    case True
    then show ?thesis by (simp add: itoa_def show_base.simps[of 10 n])
  next
    case False
    then have "read_digits 0 (itoa (n div 10)) = n div 10" using less[of "n div 10"] by simp
    with False show ?thesis by (simp add: itoa_def show_base.simps[of 10 n] read_digits_append)
  qed
qed

lemma takeWhile_itoa [simp]: "takeWhile is_digit (itoa n) = itoa n"
  using itoa_digits[of n] by (simp add: takeWhile_eq_all_conv)

lemma dropWhile_itoa [simp]: "dropWhile is_space (itoa n) = itoa n"
proof -
  obtain c cs where "itoa n = c # cs" by (meson itoa_nonempty neq_Nil_conv)
  moreover have "\<not> is_space c" using itoa_digits[of n] \<open>itoa n = c # cs\<close> is_digit_not_space by simp
  ultimately show ?thesis by simp
qed

lemma sscanf_itoa_u32 [simp]: "sscanf_u32 (itoa (unat w)) = w"
  using unsigned_less [of w, where ?'a = nat] by (simp add: sscanf_u32_def Let_def)

lemma sscanf_Nil [simp]: "sscanf_u32 [] = 0"
  by (simp add: sscanf_u32_def)

lemma parse_uint32_itoa [simp]: "parse_uint32 (itoa (unat w)) = Some w"
  using itoa_digits[of "unat w"] unsigned_less [of w, where ?'a = nat]
  by (simp add: parse_uint32_def list_all_iff)

lemma split_on_nonempty [simp]: "split_on c s \<noteq> []"
  by (induction s) (auto split: list.splits)

lemma split_on_no_sep: "c \<notin> set s \<Longrightarrow> split_on c s = [s]"
  by (induction s) auto

lemma split_on_append: "c \<notin> set s \<Longrightarrow> split_on c (s @ c # t) = s # split_on c t"
  by (induction s) auto

lemma split_on_join:
  assumes "xs \<noteq> []" and "\<forall>x\<in>set xs. c \<notin> set x"
  shows "split_on c (join [c] xs) = xs"
  using assms by (induction "[c]" xs rule: join.induct) (auto simp: split_on_no_sep split_on_append)

lemma comma_not_digit: "CHR '','' \<notin> set (itoa n)"
  using itoa_digits[of n] by (auto simp: is_digit_def)

end
