(* ===== verification/Process_Utils.thy ===== *)
theory Process_Utils
  imports Go_Strings
begin

text \<open>
  \<^bold>\<open>pkg/utils/process.go, host.go, slice.go\<close> and \<open>WalkTree\<close> of \<^bold>\<open>reflect.go\<close>: reading the state
  of a process tree. What the operating system and the gopsutil library answer is the record
  \<open>proc_env\<close>; the functions of this package are definitions over it. A
  \<open>daemon.ProcessState\<close> is a record of its own fields and the list of its children; the
  breadth-first walk, which appends to the children of nodes it holds pointers to, works on a store
  of nodes indexed by numbers.
\<close>

section \<open>Data\<close>

record open_file =
  fFd :: u64
  fPath :: string
  fMode :: string
  fMountID :: u64
  fInode :: u64
  fIsTTY :: bool
  fDev :: u64
  fRdev :: u64

record mount =
  mID :: u64
  mParent :: "32 word"
  mMajor :: "32 word"
  mMinor :: "32 word"
  mRoot :: string
  mMountPoint :: string
  mOptions :: string
  mFSType :: string
  mSource :: string

record addr =
  IP :: string
  Port :: u32

record connection =
  cFd :: u32
  cFamily :: u32
  cType :: u32
  cLaddr :: addr
  cRaddr :: addr
  cStatus :: string
  cPID :: u32
  cUIDs :: "u32 list"

record cpu_info =
  Count :: int
  CPU :: int
  VendorID :: string
  Family :: string
  PhysicalID :: string

record memory =
  Total :: u64
  Available :: u64
  Used :: u64

record host_rec =
  hID :: string
  hMAC :: string
  hHostname :: string
  hOS :: string
  hPlatform :: string
  hKernelVersion :: string
  hKernelArch :: string
  hVirtualizationSystem :: string
  hVirtualizationRole :: string
  hCPU :: "cpu_info option"
  hMemory :: "memory option"

record proc_info =
  PID :: u32
  Cmdline :: string
  StartTime :: u64
  SID :: u32
  UIDs :: "u32 list"
  GIDs :: "u32 list"
  Groups :: "u32 list"
  OpenFiles :: "open_file list"
  Mounts :: "mount list"
  OpenConnections :: "connection list"
  PStatus :: string
  WorkingDir :: string
  IsRunning :: bool
  GPUEnabled :: bool
  GPUID :: string
  PHost :: "host_rec option"

datatype process_state = ProcessState (info: proc_info) (Children: "process_state list")

definition empty_info :: proc_info where
  "empty_info = \<lparr>PID = 0, Cmdline = [], StartTime = 0, SID = 0, UIDs = [], GIDs = [], Groups = [],
     OpenFiles = [], Mounts = [], OpenConnections = [], PStatus = [], WorkingDir = [], IsRunning = False,
     GPUEnabled = False, GPUID = [], PHost = None\<rparr>"

definition empty_host :: host_rec where
  "empty_host = \<lparr>hID = [], hMAC = [], hHostname = [], hOS = [], hPlatform = [], hKernelVersion = [],
     hKernelArch = [], hVirtualizationSystem = [], hVirtualizationRole = [], hCPU = None, hMemory = None\<rparr>"

section \<open>What the system answers\<close>

record file_stat =
  stMode :: string
  stDev :: u64
  stRdev :: u64

record mount_info =
  miID :: int
  miParent :: int
  miMajor :: int
  miMinor :: int
  miRoot :: string
  miMountpoint :: string
  miOptions :: string
  miFSType :: string
  miSource :: string

record conn_stat =
  gFd :: u32
  gFamily :: u32
  gType :: u32
  gLaddr :: addr
  gRaddr :: addr
  gStatus :: string
  gPid :: int
  gUids :: "int list"

text \<open>An interface: whether it is the loopback, and its hardware address if it has one.\<close>

record proc_env =
  cpuInfo :: "goerr + cpu_info list"
  cpuCounts :: "goerr + int"
  virtualMemory :: "goerr + memory"
  hostInfo :: "goerr + host_rec"
  interfaces :: "goerr + (bool \<times> string option) list"
  newProcess :: "u32 \<Rightarrow> error"
  cmdlineOf :: "u32 \<Rightarrow> goerr + string"
  createTime :: "u32 \<Rightarrow> goerr + int"
  getsid :: "u32 \<Rightarrow> goerr + u32"
  uidsOf :: "u32 \<Rightarrow> goerr + u32 list"
  gidsOf :: "u32 \<Rightarrow> goerr + u32 list"
  groupsOf :: "u32 \<Rightarrow> goerr + u32 list"
  openFilesOf :: "u32 \<Rightarrow> goerr + (u64 \<times> string) list"
  osStat :: "string \<Rightarrow> goerr + file_stat"
  fdinfoFile :: "u32 \<Rightarrow> u64 \<Rightarrow> goerr + string"
  ttyOf :: "string \<Rightarrow> goerr + bool"
  openMountinfo :: "u32 \<Rightarrow> error"
  mountsOf :: "u32 \<Rightarrow> goerr + mount_info list"
  connectionsOf :: "u32 \<Rightarrow> goerr + conn_stat list"
  statusOf :: "u32 \<Rightarrow> goerr + string list"
  cwdOf :: "u32 \<Rightarrow> goerr + string"
  statFiles :: "goerr + (goerr + string) list"
  scanCtxErr :: "nat \<Rightarrow> error"
  walkCtxErr :: "nat \<Rightarrow> error"

text \<open>\<open>x, err := ...; errs = append(errs, err); if err == nil { state.F = x }\<close>.\<close>

definition err_of :: "goerr + 'a \<Rightarrow> error" where
  "err_of r = (case r of Inl e \<Rightarrow> Some e | Inr _ \<Rightarrow> None)"

definition on_ok :: "goerr + 'a \<Rightarrow> ('a \<Rightarrow> 's \<Rightarrow> 's) \<Rightarrow> 's \<Rightarrow> 's" where
  "on_ok r f s = (case r of Inl _ \<Rightarrow> s | Inr v \<Rightarrow> f v s)"

section \<open>The host\<close>

fun mac_loop :: "(bool \<times> string option) list \<Rightarrow> string" where
  "mac_loop [] = []"
| "mac_loop ((loopback, hw) # is) = (case hw of Some a \<Rightarrow> if \<not> loopback then a else mac_loop is | None \<Rightarrow> mac_loop is)"

definition GetMACAddress :: "proc_env \<Rightarrow> goerr + string" where
  "GetMACAddress env = (case interfaces env of Inl e \<Rightarrow> Inl e | Inr is \<Rightarrow> Inr (mac_loop is))"

text \<open>\<open>cpuinfo[0]\<close> is read when the count of CPUs succeeded, whether or not \<open>cpu.Info\<close> did.\<close>

definition FillHost :: "proc_env \<Rightarrow> host_rec \<Rightarrow> error \<times> host_rec" where
  "FillHost env st =
     (let cpus = (case cpuInfo env of Inr cs \<Rightarrow> cs | Inl _ \<Rightarrow> []) in
      if err_of (cpuCounts env) = None \<and> cpus = [] then (Some (Panic ''index out of range''), st)
      else
        (let st1 = on_ok (cpuCounts env) (\<lambda>n s. s\<lparr>hCPU := Some ((hd cpus)\<lparr>Count := n\<rparr>)\<rparr>) st;
             st2 = on_ok (virtualMemory env) (\<lambda>m s. s\<lparr>hMemory := Some m\<rparr>) st1;
             st3 = on_ok (hostInfo env) (\<lambda>h s. s\<lparr>hID := hID h, hHostname := hHostname h, hOS := hOS h,
                     hPlatform := hPlatform h, hKernelVersion := hKernelVersion h, hKernelArch := hKernelArch h,
                     hVirtualizationSystem := hVirtualizationSystem h, hVirtualizationRole := hVirtualizationRole h\<rparr>) st2;
             st4 = on_ok (GetMACAddress env) (\<lambda>m s. s\<lparr>hMAC := m\<rparr>) st3
         in (errors_Join [err_of (cpuInfo env), err_of (cpuCounts env), err_of (virtualMemory env),
               err_of (hostInfo env), err_of (GetMACAddress env)], st4)))"

definition GetHost :: "proc_env \<Rightarrow> error \<times> host_rec" where
  "GetHost env = FillHost env empty_host"

section \<open>Slices\<close>

definition Uint32ToStringSlice :: "u32 list \<Rightarrow> string list" where
  "Uint32ToStringSlice xs = map (\<lambda>v. itoa (unat v)) xs"

definition StringToUint32Slice :: "string list \<Rightarrow> u32 list" where
  "StringToUint32Slice xs = map sscanf_u32 xs"

definition Int32ToUint32Slice :: "int list \<Rightarrow> u32 list" where
  "Int32ToUint32Slice xs = map word_of_int xs"

section \<open>One process\<close>

definition sscanf_u64 :: "string \<Rightarrow> u64 \<Rightarrow> u64" where
  "sscanf_u64 v old = (let tok = takeWhile is_digit (dropWhile is_space v); n = read_digits 0 tok
     in if tok = [] \<or> 2 ^ 64 \<le> n then old else of_nat n)"

fun fdinfo_lines :: "string list \<Rightarrow> u64 \<times> u64 \<Rightarrow> u64 \<times> u64" where
  "fdinfo_lines [] i = i"
| "fdinfo_lines (l # ls) (mnt, ino) =
     (case split_on (CHR '':'') l of
        [k, v] \<Rightarrow>
          (if trim_space k = ''mnt_id'' then fdinfo_lines ls (sscanf_u64 (trim_space v) mnt, ino)
           else if trim_space k = ''ino'' then fdinfo_lines ls (mnt, sscanf_u64 (trim_space v) ino)
           else fdinfo_lines ls (mnt, ino))
      | _ \<Rightarrow> fdinfo_lines ls (mnt, ino))"

definition GetFdInfo :: "proc_env \<Rightarrow> u32 \<Rightarrow> u64 \<Rightarrow> goerr + u64 \<times> u64" where
  "GetFdInfo env pid fd =
     (case fdinfoFile env pid fd of
        Inl e \<Rightarrow> Inl (Wrapf ''Could not read fdinfo file'' e)
      | Inr contents \<Rightarrow> Inr (fdinfo_lines (split_on (CHR 0x0A) contents) (0, 0)))"

text \<open>
  The loop over the open files. \<open>stat.Sys()\<close> is called when the terminal check succeeded; after a
  failed \<open>os.Stat\<close> that is a call on a nil interface.
\<close>

fun fill_files :: "proc_env \<Rightarrow> u32 \<Rightarrow> (u64 \<times> string) list \<Rightarrow> open_file list \<Rightarrow> goerr + open_file list" where
  "fill_files env pid [] acc = Inr acc"
| "fill_files env pid ((fd, path) # fs) acc =
     (let f0 = \<lparr>fFd = fd, fPath = path, fMode = [], fMountID = 0, fInode = 0, fIsTTY = False, fDev = 0, fRdev = 0\<rparr>;
          f1 = on_ok (osStat env path) (\<lambda>st f. f\<lparr>fMode := stMode st\<rparr>) f0;
          f2 = on_ok (GetFdInfo env pid fd) (\<lambda>(m, i) f. f\<lparr>fMountID := m, fInode := i\<rparr>) f1
      in case ttyOf env path of
           Inl _ \<Rightarrow> fill_files env pid fs (acc @ [f2])
         | Inr tty \<Rightarrow>
           (case osStat env path of
              Inl _ \<Rightarrow> Inl (Panic ''nil pointer dereference'')
            | Inr st \<Rightarrow> fill_files env pid fs (acc @ [f2\<lparr>fIsTTY := tty, fDev := stDev st, fRdev := stRdev st\<rparr>])))"

definition mount_of :: "mount_info \<Rightarrow> mount" where
  "mount_of m = \<lparr>mID = word_of_int (miID m), mParent = word_of_int (miParent m), mMajor = word_of_int (miMajor m),
     mMinor = word_of_int (miMinor m), mRoot = miRoot m, mMountPoint = miMountpoint m, mOptions = miOptions m,
     mFSType = miFSType m, mSource = miSource m\<rparr>"

definition connection_of :: "conn_stat \<Rightarrow> connection" where
  "connection_of c = \<lparr>cFd = gFd c, cFamily = gFamily c, cType = gType c, cLaddr = gLaddr c, cRaddr = gRaddr c,
     cStatus = gStatus c, cPID = word_of_int (gPid c), cUIDs = Int32ToUint32Slice (gUids c)\<rparr>"

text \<open>Opening \<open>mountinfo\<close> and parsing it append one error each, the second only when the first is nil.\<close>

definition mounts_result :: "proc_env \<Rightarrow> u32 \<Rightarrow> goerr + mount_info list" where
  "mounts_result env pid = (case openMountinfo env pid of Some e \<Rightarrow> Inl e | None \<Rightarrow> mountsOf env pid)"

definition fillProcessNode :: "proc_env \<Rightarrow> u32 \<Rightarrow> proc_info \<Rightarrow> error \<times> proc_info" where
  "fillProcessNode env pid st =
     (let s0 = st\<lparr>PID := pid\<rparr> in
      case newProcess env pid of
        Some e \<Rightarrow> (Some (Wrapf (''could not get process: (pid) '' @ itoa (unat pid) @ '' with error'') e), s0)
      | None \<Rightarrow>
        (let s1 = s0\<lparr>IsRunning := True\<rparr>;
             s2 = on_ok (cmdlineOf env pid) (\<lambda>v s. s\<lparr>Cmdline := v\<rparr>) s1;
             s3 = on_ok (createTime env pid) (\<lambda>v s. s\<lparr>StartTime := word_of_int v\<rparr>) s2;
             s4 = on_ok (getsid env pid) (\<lambda>v s. s\<lparr>SID := v\<rparr>) s3;
             s5 = on_ok (uidsOf env pid) (\<lambda>v s. s\<lparr>UIDs := v\<rparr>) s4;
             s6 = on_ok (gidsOf env pid) (\<lambda>v s. s\<lparr>GIDs := v\<rparr>) s5;
             s7 = on_ok (groupsOf env pid) (\<lambda>v s. s\<lparr>Groups := v\<rparr>) s6
         in case (case openFilesOf env pid of Inl _ \<Rightarrow> Inr (OpenFiles s7) | Inr fs \<Rightarrow> fill_files env pid fs []) of
              Inl panic \<Rightarrow> (Some panic, s7)
            | Inr files \<Rightarrow>
              (let s8 = s7\<lparr>OpenFiles := files\<rparr>;
                   s9 = on_ok (mounts_result env pid) (\<lambda>ms s. s\<lparr>Mounts := map mount_of ms\<rparr>) s8;
                   s10 = on_ok (connectionsOf env pid) (\<lambda>cs s. s\<lparr>OpenConnections := map connection_of cs\<rparr>) s9
               in if statusOf env pid = Inr [] then (Some (Panic ''index out of range''), s10)
                  else
                    (let s11 = on_ok (statusOf env pid) (\<lambda>v s. s\<lparr>PStatus := hd v\<rparr>) s10;
                         s12 = on_ok (cwdOf env pid) (\<lambda>v s. s\<lparr>WorkingDir := v\<rparr>) s11
                     in (errors_Join [err_of (cmdlineOf env pid), err_of (createTime env pid), err_of (uidsOf env pid),
                           err_of (gidsOf env pid), err_of (groupsOf env pid), err_of (openFilesOf env pid),
                           err_of (mounts_result env pid), err_of (connectionsOf env pid),
                           err_of (statusOf env pid), err_of (cwdOf env pid)], s12)))))"

definition PidExists :: "proc_env \<Rightarrow> u32 \<Rightarrow> bool" where
  "PidExists env pid \<longleftrightarrow> newProcess env pid = None \<and> err_of (statusOf env pid) = None"

definition PidRunning :: "proc_env \<Rightarrow> u32 \<Rightarrow> bool" where
  "PidRunning env pid \<longleftrightarrow> newProcess env pid = None \<and>
     (case statusOf env pid of Inl _ \<Rightarrow> False | Inr s \<Rightarrow> ''zombie'' \<notin> set s)"

end
