(* ===== verification/Db_Sqlite.thy ===== *)
theory Db_Sqlite
  imports Process_Utils
begin

text \<open>
  \<^bold>\<open>internal/db/db.go, db_sqlite.go\<close> and the queries and tables of \<^bold>\<open>internal/db/sql\<close>: the store behind the
  job manager. A table is the list of its rows in insertion order, with the constraints of
  \<open>schema.sql\<close>; foreign keys are not enforced, which is SQLite's default and is not changed by
  \<open>NewSqliteDB\<close>. The JSON codec of the details and the failures of the SQL driver are the record
  \<open>sql_env\<close>. The theory ends with the contract the job manager relies on, a locale that is
  interpreted here.
\<close>

section \<open>Jobs and checkpoints\<close>

record details =
  dJID :: "string option"
  dProcessPID :: u32
  dRest :: string

record job_proto =
  jJID :: string
  jType :: string
  jLog :: string
  jDetails :: "details option"
  jState :: "process_state option"

record checkpoint =
  cpID :: string
  cpJID :: string
  cpPath :: string
  cpTime :: i64
  cpSize :: int

text \<open>The getters of the generated code read through nil pointers: a missing state has empty fields.\<close>

definition state_of :: "job_proto \<Rightarrow> proc_info" where
  "state_of j = (case jState j of Some s \<Rightarrow> info s | None \<Rightarrow> empty_info)"

definition host_id :: "proc_info \<Rightarrow> string" where
  "host_id s = (case PHost s of Some h \<Rightarrow> hID h | None \<Rightarrow> [])"

section \<open>Tables\<close>

record db_job =
  Jid :: string
  Type :: string
  Gpuenabled :: int
  Log :: string
  Details :: string
  Pid64 :: int
  CmdlineText :: string
  Starttime :: int
  Workingdir :: string
  StatusText :: string
  Isrunning :: int
  Hostid :: string
  Uids :: string
  Gids :: string
  GroupsText :: string

record db_host =
  ID :: string
  Mac :: string
  Hostname :: string
  Os :: string
  Platform :: string
  Kernelversion :: string
  Kernelarch :: string
  Cpuphysicalid :: string
  Cpuvendorid :: string
  Cpufamily :: string
  Cpucount :: int
  Memtotal :: int

record db_checkpoint =
  ckID :: string
  ckJid :: string
  ckPath :: string
  ckTime :: int
  ckSize :: int

record sqlite =
  hosts :: "db_host list"
  jobs_table :: "db_job list"
  checkpoints_table :: "db_checkpoint list"

record sql_env =
  ioErr :: "string \<Rightarrow> error"
  marshalDetails :: "details option \<Rightarrow> goerr + string"
  unmarshalDetails :: "string \<Rightarrow> goerr + details"

section \<open>Queries\<close>

definition job_checks :: "db_job \<Rightarrow> bool" where
  "job_checks r \<longleftrightarrow> Type r \<noteq> [] \<and> Pid64 r > 0 \<and> Hostid r \<noteq> []"

definition CreateJob :: "sql_env \<Rightarrow> db_job \<Rightarrow> sqlite \<Rightarrow> error \<times> sqlite" where
  "CreateJob env r d =
     (case ioErr env ''CreateJob'' of Some e \<Rightarrow> (Some e, d) | None \<Rightarrow>
      if Jid r \<in> set (map Jid (jobs_table d)) then (Some (Errorf ''UNIQUE constraint failed: jobs.JID''), d)
      else if \<not> job_checks r then (Some (Errorf ''CHECK constraint failed''), d)
      else (None, d\<lparr>jobs_table := jobs_table d @ [r]\<rparr>))"

definition UpdateJob :: "sql_env \<Rightarrow> db_job \<Rightarrow> sqlite \<Rightarrow> error \<times> sqlite" where
  "UpdateJob env r d =
     (case ioErr env ''UpdateJob'' of Some e \<Rightarrow> (Some e, d) | None \<Rightarrow>
      if Jid r \<in> set (map Jid (jobs_table d)) \<and> \<not> job_checks r then (Some (Errorf ''CHECK constraint failed''), d)
      else (None, d\<lparr>jobs_table := map (\<lambda>x. if Jid x = Jid r then r else x) (jobs_table d)\<rparr>))"

definition join_hosts :: "sqlite \<Rightarrow> db_job list \<Rightarrow> (db_job \<times> db_host) list" where
  "join_hosts d js = concat (map (\<lambda>j. map (\<lambda>h. (j, h)) (filter (\<lambda>h. ID h = Hostid j) (hosts d))) js)"

text \<open>The three listing queries return rows of three generated types.\<close>

datatype job_row = ListJobsRow db_job db_host | ListJobsByIDsRow db_job db_host | ListJobsByHostIDsRow db_job db_host

definition q_ListJobs :: "sql_env \<Rightarrow> sqlite \<Rightarrow> goerr + job_row list" where
  "q_ListJobs env d =
     (case ioErr env ''ListJobs'' of Some e \<Rightarrow> Inl e
      | None \<Rightarrow> Inr (map (\<lambda>(j, h). ListJobsRow j h) (join_hosts d (jobs_table d))))"

definition q_ListJobsByIDs :: "sql_env \<Rightarrow> string list \<Rightarrow> sqlite \<Rightarrow> goerr + job_row list" where
  "q_ListJobsByIDs env ids d =
     (case ioErr env ''ListJobsByIDs'' of Some e \<Rightarrow> Inl e
      | None \<Rightarrow> Inr (map (\<lambda>(j, h). ListJobsByIDsRow j h)
          (join_hosts d (filter (\<lambda>j. Jid j \<in> set ids) (jobs_table d)))))"

definition q_ListJobsByHostIDs :: "sql_env \<Rightarrow> string list \<Rightarrow> sqlite \<Rightarrow> goerr + job_row list" where
  "q_ListJobsByHostIDs env ids d =
     (case ioErr env ''ListJobsByHostIDs'' of Some e \<Rightarrow> Inl e
      | None \<Rightarrow> Inr (map (\<lambda>(j, h). ListJobsByHostIDsRow j h)
          (join_hosts d (filter (\<lambda>j. Hostid j \<in> set ids) (jobs_table d)))))"

definition q_DeleteJob :: "sql_env \<Rightarrow> string \<Rightarrow> sqlite \<Rightarrow> error \<times> sqlite" where
  "q_DeleteJob env jid d =
     (case ioErr env ''DeleteJob'' of Some e \<Rightarrow> (Some e, d)
      | None \<Rightarrow> (None, d\<lparr>jobs_table := filter (\<lambda>j. Jid j \<noteq> jid) (jobs_table d)\<rparr>))"

definition host_checks :: "db_host \<Rightarrow> bool" where
  "host_checks h \<longleftrightarrow> Mac h \<noteq> [] \<and> Hostname h \<noteq> [] \<and> Os h \<noteq> [] \<and> Platform h \<noteq> [] \<and> Kernelversion h \<noteq> [] \<and> Kernelarch h \<noteq> []"

definition CreateHost :: "sql_env \<Rightarrow> db_host \<Rightarrow> sqlite \<Rightarrow> error \<times> sqlite" where
  "CreateHost env h d =
     (case ioErr env ''CreateHost'' of Some e \<Rightarrow> (Some e, d) | None \<Rightarrow>
      if ID h \<in> set (map ID (hosts d)) then (Some (Errorf ''UNIQUE constraint failed: hosts.ID''), d)
      else if \<not> host_checks h then (Some (Errorf ''CHECK constraint failed''), d)
      else (None, d\<lparr>hosts := hosts d @ [h]\<rparr>))"

definition UpdateHost :: "sql_env \<Rightarrow> db_host \<Rightarrow> sqlite \<Rightarrow> error \<times> sqlite" where
  "UpdateHost env h d =
     (case ioErr env ''UpdateHost'' of Some e \<Rightarrow> (Some e, d) | None \<Rightarrow>
      if ID h \<in> set (map ID (hosts d)) \<and> \<not> host_checks h then (Some (Errorf ''CHECK constraint failed''), d)
      else (None, d\<lparr>hosts := map (\<lambda>x. if ID x = ID h then h else x) (hosts d)\<rparr>))"

definition q_ListHosts :: "sql_env \<Rightarrow> string list \<Rightarrow> sqlite \<Rightarrow> goerr + db_host list" where
  "q_ListHosts env ids d =
     (case ioErr env (if ids = [] then ''ListHosts'' else ''ListHostsByIDs'') of Some e \<Rightarrow> Inl e
      | None \<Rightarrow> Inr (if ids = [] then hosts d else filter (\<lambda>h. ID h \<in> set ids) (hosts d)))"

definition q_DeleteHost :: "sql_env \<Rightarrow> string \<Rightarrow> sqlite \<Rightarrow> error \<times> sqlite" where
  "q_DeleteHost env i d =
     (case ioErr env ''DeleteHost'' of Some e \<Rightarrow> (Some e, d)
      | None \<Rightarrow> (None, d\<lparr>hosts := filter (\<lambda>h. ID h \<noteq> i) (hosts d)\<rparr>))"

definition CreateCheckpoint :: "sql_env \<Rightarrow> db_checkpoint \<Rightarrow> sqlite \<Rightarrow> error \<times> sqlite" where
  "CreateCheckpoint env c d =
     (case ioErr env ''CreateCheckpoint'' of Some e \<Rightarrow> (Some e, d) | None \<Rightarrow>
      if ckID c \<in> set (map ckID (checkpoints_table d)) then (Some (Errorf ''UNIQUE constraint failed: checkpoints.ID''), d)
      else if ckJid c = [] then (Some (Errorf ''CHECK constraint failed''), d)
      else (None, d\<lparr>checkpoints_table := checkpoints_table d @ [c]\<rparr>))"

definition UpdateCheckpoint :: "sql_env \<Rightarrow> db_checkpoint \<Rightarrow> sqlite \<Rightarrow> error \<times> sqlite" where
  "UpdateCheckpoint env c d =
     (case ioErr env ''UpdateCheckpoint'' of Some e \<Rightarrow> (Some e, d) | None \<Rightarrow>
      if ckID c \<in> set (map ckID (checkpoints_table d)) \<and> ckJid c = [] then (Some (Errorf ''CHECK constraint failed''), d)
      else (None, d\<lparr>checkpoints_table := map (\<lambda>x. if ckID x = ckID c then c else x) (checkpoints_table d)\<rparr>))"

text \<open>\<open>ORDER BY Time DESC\<close>; \<open>by\<close> selects the rows.\<close>

definition newest_first :: "db_checkpoint list \<Rightarrow> db_checkpoint list" where
  "newest_first cs = sort_key (\<lambda>c. - ckTime c) cs"

definition q_ListCheckpoints :: "sql_env \<Rightarrow> string \<Rightarrow> (db_checkpoint \<Rightarrow> bool) \<Rightarrow> sqlite \<Rightarrow> goerr + db_checkpoint list" where
  "q_ListCheckpoints env q sel d =
     (case ioErr env q of Some e \<Rightarrow> Inl e | None \<Rightarrow> Inr (newest_first (filter sel (checkpoints_table d))))"

definition q_DeleteCheckpoint :: "sql_env \<Rightarrow> string \<Rightarrow> sqlite \<Rightarrow> error \<times> sqlite" where
  "q_DeleteCheckpoint env i d =
     (case ioErr env ''DeleteCheckpoint'' of Some e \<Rightarrow> (Some e, d)
      | None \<Rightarrow> (None, d\<lparr>checkpoints_table := filter (\<lambda>c. ckID c \<noteq> i) (checkpoints_table d)\<rparr>))"

section \<open>Conversions\<close>

text \<open>
  \<open>time.Unix(0, ms * int64(time.Millisecond))\<close>: the product wraps at 64 bits; a time is its
  signed number of nanoseconds. \<open>UnixMilli\<close> rounds down.
\<close>

definition time_of_millis :: "i64 \<Rightarrow> int" where
  "time_of_millis ms = sint (ms * 1000000)"

definition UnixMilli :: "int \<Rightarrow> i64" where
  "UnixMilli ns = word_of_int (ns div 1000000)"

definition ids_text :: "u32 list \<Rightarrow> string" where
  "ids_text xs = join '','' (Uint32ToStringSlice xs)"

definition ids_of_text :: "string \<Rightarrow> u32 list" where
  "ids_of_text s = StringToUint32Slice (split_on (CHR '','') s)"

definition job_params :: "string \<Rightarrow> job_proto \<Rightarrow> db_job" where
  "job_params detailBytes job =
     (let s = state_of job in
      \<lparr>Jid = jJID job, Type = jType job, Gpuenabled = (if GPUEnabled s then 1 else 0), Log = jLog job,
       Details = detailBytes, Pid64 = uint (PID s), CmdlineText = Cmdline s, Starttime = time_of_millis (StartTime s),
       Workingdir = WorkingDir s, StatusText = PStatus s, Isrunning = (if IsRunning s then 1 else 0), Hostid = host_id s,
       Uids = ids_text (UIDs s), Gids = ids_text (GIDs s), GroupsText = ids_text (Groups s)\<rparr>)"

definition fromDBHost :: "db_host \<Rightarrow> host_rec" where
  "fromDBHost h = empty_host\<lparr>hID := ID h, hMAC := Mac h, hHostname := Hostname h, hOS := Os h, hPlatform := Platform h,
     hKernelVersion := Kernelversion h, hKernelArch := Kernelarch h,
     hCPU := Some \<lparr>Count = sint (word_of_int (Cpucount h) :: 32 word), CPU = 0, VendorID = Cpuvendorid h, Family = Cpufamily h,
       PhysicalID = Cpuphysicalid h\<rparr>,
     hMemory := Some \<lparr>Total = word_of_int (Memtotal h), Available = 0, Used = 0\<rparr>\<rparr>"

definition job_of_rows :: "sql_env \<Rightarrow> db_job \<Rightarrow> db_host \<Rightarrow> goerr + job_proto" where
  "job_of_rows env j h =
     (case unmarshalDetails env (Details j) of Inl e \<Rightarrow> Inl e | Inr ds \<Rightarrow>
      Inr \<lparr>jJID = Jid j, jType = Type j, jLog = Log j, jDetails = Some ds,
        jState = Some (ProcessState (empty_info\<lparr>PID := word_of_int (Pid64 j), Cmdline := CmdlineText j,
          StartTime := UnixMilli (Starttime j), WorkingDir := Workingdir j, PStatus := StatusText j,
          IsRunning := Isrunning j > 0, GPUEnabled := Gpuenabled j > 0, PHost := Some (fromDBHost h),
          UIDs := ids_of_text (Uids j), GIDs := ids_of_text (Gids j), Groups := ids_of_text (GroupsText j)\<rparr>) [])\<rparr>)"

definition fromDBJobRow :: "sql_env \<Rightarrow> job_row \<Rightarrow> goerr + job_proto" where
  "fromDBJobRow env row =
     (case row of
        ListJobsRow j h \<Rightarrow> job_of_rows env j h
      | ListJobsByIDsRow j h \<Rightarrow> job_of_rows env j h
      | _ \<Rightarrow> Inl (Errorf ''unknown row type''))"

definition fromDBCheckpoint :: "db_checkpoint \<Rightarrow> checkpoint" where
  "fromDBCheckpoint c = \<lparr>cpID = ckID c, cpJID = ckJid c, cpPath = ckPath c, cpTime = UnixMilli (ckTime c), cpSize = ckSize c\<rparr>"

section \<open>The interface db.DB\<close>

fun collect :: "('a \<Rightarrow> goerr + 'b) \<Rightarrow> 'a list \<Rightarrow> goerr + 'b list" where
  "collect f [] = Inr []"
| "collect f (x # xs) =
     (case f x of Inl e \<Rightarrow> Inl e | Inr y \<Rightarrow> (case collect f xs of Inl e \<Rightarrow> Inl e | Inr ys \<Rightarrow> Inr (y # ys)))"

text \<open>The error of the lookup in the \<open>Put\<close> operations is ignored: a failed lookup counts as not found.\<close>

definition found :: "goerr + 'a list \<Rightarrow> bool" where
  "found r \<longleftrightarrow> (case r of Inl _ \<Rightarrow> False | Inr xs \<Rightarrow> xs \<noteq> [])"

definition PutJob :: "sql_env \<Rightarrow> job_proto \<Rightarrow> sqlite \<Rightarrow> error \<times> sqlite" where
  "PutJob env job d =
     (case marshalDetails env (jDetails job) of Inl e \<Rightarrow> (Some e, d) | Inr bytes \<Rightarrow>
      if found (q_ListJobsByIDs env [jJID job] d) then UpdateJob env (job_params bytes job) d
      else CreateJob env (job_params bytes job) d)"

definition ListJobs :: "sql_env \<Rightarrow> string list \<Rightarrow> sqlite \<Rightarrow> goerr + job_proto list" where
  "ListJobs env jids d =
     (case (if jids \<noteq> [] then q_ListJobsByIDs env jids d else q_ListJobs env d) of
        Inl e \<Rightarrow> Inl e | Inr rows \<Rightarrow> collect (fromDBJobRow env) rows)"

definition ListJobsByHostIDs :: "sql_env \<Rightarrow> string list \<Rightarrow> sqlite \<Rightarrow> goerr + job_proto list" where
  "ListJobsByHostIDs env hostIDs d =
     (case q_ListJobsByHostIDs env hostIDs d of Inl e \<Rightarrow> Inl e | Inr rows \<Rightarrow> collect (fromDBJobRow env) rows)"

definition DeleteJob :: "sql_env \<Rightarrow> string \<Rightarrow> sqlite \<Rightarrow> error \<times> sqlite" where
  "DeleteJob env jid d = q_DeleteJob env jid d"

definition host_params :: "host_rec \<Rightarrow> cpu_info \<Rightarrow> memory \<Rightarrow> db_host" where
  "host_params h c m = \<lparr>ID = hID h, Mac = hMAC h, Hostname = hHostname h, Os = hOS h, Platform = hPlatform h,
     Kernelversion = hKernelVersion h, Kernelarch = hKernelArch h, Cpuphysicalid = PhysicalID c, Cpuvendorid = VendorID c,
     Cpufamily = Family c, Cpucount = Count c, Memtotal = sint (Total m)\<rparr>"

definition PutHost :: "sql_env \<Rightarrow> host_rec \<Rightarrow> sqlite \<Rightarrow> error \<times> sqlite" where
  "PutHost env h d =
     (case (hCPU h, hMemory h) of
        (Some c, Some m) \<Rightarrow>
          if found (q_ListHosts env [hID h] d) then UpdateHost env (host_params h c m) d
          else CreateHost env (host_params h c m) d
      | _ \<Rightarrow> (Some (Errorf ''CPU or Memory info missing''), d))"

definition ListHosts :: "sql_env \<Rightarrow> string list \<Rightarrow> sqlite \<Rightarrow> goerr + host_rec list" where
  "ListHosts env ids d = (case q_ListHosts env ids d of Inl e \<Rightarrow> Inl e | Inr hs \<Rightarrow> Inr (map fromDBHost hs))"

definition DeleteHost :: "sql_env \<Rightarrow> string \<Rightarrow> sqlite \<Rightarrow> error \<times> sqlite" where
  "DeleteHost env i d = q_DeleteHost env i d"

definition checkpoint_params :: "checkpoint \<Rightarrow> db_checkpoint" where
  "checkpoint_params c = \<lparr>ckID = cpID c, ckJid = cpJID c, ckPath = cpPath c, ckTime = time_of_millis (cpTime c), ckSize = cpSize c\<rparr>"

definition PutCheckpoint :: "sql_env \<Rightarrow> checkpoint \<Rightarrow> sqlite \<Rightarrow> error \<times> sqlite" where
  "PutCheckpoint env c d =
     (if found (q_ListCheckpoints env ''ListCheckpointsByIDs'' (\<lambda>x. ckID x \<in> set [cpID c]) d)
      then UpdateCheckpoint env (checkpoint_params c) d
      else CreateCheckpoint env (checkpoint_params c) d)"

definition ListCheckpoints :: "sql_env \<Rightarrow> string list \<Rightarrow> sqlite \<Rightarrow> goerr + checkpoint list" where
  "ListCheckpoints env ids d =
     (case (if ids = [] then q_ListCheckpoints env ''ListCheckpoints'' (\<lambda>_. True) d
            else q_ListCheckpoints env ''ListCheckpointsByIDs'' (\<lambda>x. ckID x \<in> set ids) d) of
        Inl e \<Rightarrow> Inl e | Inr cs \<Rightarrow> Inr (map fromDBCheckpoint cs))"

definition ListCheckpointsByJIDs :: "sql_env \<Rightarrow> string list \<Rightarrow> sqlite \<Rightarrow> goerr + checkpoint list" where
  "ListCheckpointsByJIDs env jids d =
     (case (if jids = [] then q_ListCheckpoints env ''ListCheckpoints'' (\<lambda>_. True) d
            else q_ListCheckpoints env ''ListCheckpointsByJIDs'' (\<lambda>x. ckJid x \<in> set jids) d) of
        Inl e \<Rightarrow> Inl e | Inr cs \<Rightarrow> Inr (map fromDBCheckpoint cs))"

definition DeleteCheckpoint :: "sql_env \<Rightarrow> string \<Rightarrow> sqlite \<Rightarrow> error \<times> sqlite" where
  "DeleteCheckpoint env i d = q_DeleteCheckpoint env i d"

section \<open>Keys\<close>

text \<open>The primary keys are unique, and every operation keeps them so.\<close>

definition db_ok :: "sqlite \<Rightarrow> bool" where
  "db_ok d \<longleftrightarrow> distinct (map Jid (jobs_table d)) \<and> distinct (map ID (hosts d)) \<and> distinct (map ckID (checkpoints_table d))"

definition stored_jids :: "sqlite \<Rightarrow> string set" where
  "stored_jids d = set (map Jid (jobs_table d))"

definition stored_checkpoints :: "sqlite \<Rightarrow> string set" where
  "stored_checkpoints d = set (map ckID (checkpoints_table d))"

lemma UpdateJob_frame:
  assumes "UpdateJob env r d = (e, d')"
  shows "map Jid (jobs_table d') = map Jid (jobs_table d) \<and> hosts d' = hosts d \<and> checkpoints_table d' = checkpoints_table d"
  using assms by (auto simp: UpdateJob_def split: option.splits if_splits)

lemma UpdateCheckpoint_frame:
  assumes "UpdateCheckpoint env c d = (e, d')"
  shows "map ckID (checkpoints_table d') = map ckID (checkpoints_table d) \<and> hosts d' = hosts d \<and> jobs_table d' = jobs_table d"
  using assms by (auto simp: UpdateCheckpoint_def split: option.splits if_splits)

lemma newest_first_Nil [simp]: "newest_first cs = [] \<longleftrightarrow> cs = []"
  by (metis length_0_conv length_sort newest_first_def)

lemma found_job: "found (q_ListJobsByIDs env [jid] d) \<Longrightarrow> jid \<in> stored_jids d"
  by (auto simp: found_def q_ListJobsByIDs_def join_hosts_def stored_jids_def split: option.splits)

lemma PutJob_keys:
  assumes "PutJob env job d = (e, d')" and "db_ok d"
  shows "db_ok d' \<and> stored_jids d' = (if e = None then insert (jJID job) (stored_jids d) else stored_jids d)
    \<and> stored_checkpoints d' = stored_checkpoints d"
proof (cases "marshalDetails env (jDetails job)")
  case (Inl x)
  then show ?thesis using assms by (auto simp: PutJob_def)
next
  case (Inr bytes)
  let ?r = "job_params bytes job"
  have jid: "Jid ?r = jJID job" by (simp add: job_params_def Let_def)
  show ?thesis
  proof (cases "found (q_ListJobsByIDs env [jJID job] d)")
    case True
    then have "UpdateJob env ?r d = (e, d')" using assms(1) Inr by (simp add: PutJob_def)
    from UpdateJob_frame [OF this] show ?thesis
      using assms(2) found_job [OF True] unfolding db_ok_def stored_jids_def stored_checkpoints_def by (simp add: insert_absorb)
  next
    case False
    then have "CreateJob env ?r d = (e, d')" using assms(1) Inr by (simp add: PutJob_def)
    then show ?thesis
      using assms(2) jid
      by (auto simp: CreateJob_def db_ok_def stored_jids_def stored_checkpoints_def split: option.splits if_splits)
  qed
qed

lemma DeleteJob_keys:
  assumes "DeleteJob env jid d = (e, d')" and "db_ok d"
  shows "db_ok d' \<and> stored_jids d' = (if e = None then stored_jids d - {jid} else stored_jids d)
    \<and> stored_checkpoints d' = stored_checkpoints d"
  using assms by (auto simp: DeleteJob_def q_DeleteJob_def db_ok_def stored_jids_def stored_checkpoints_def
      distinct_map_filter split: option.splits)

lemma PutCheckpoint_keys:
  assumes "PutCheckpoint env c d = (e, d')" and "db_ok d"
  shows "db_ok d' \<and> stored_checkpoints d' = (if e = None then insert (cpID c) (stored_checkpoints d) else stored_checkpoints d)
    \<and> stored_jids d' = stored_jids d"
proof -
  let ?r = "checkpoint_params c"
  have i: "ckID ?r = cpID c" by (simp add: checkpoint_params_def)
  let ?found = "found (q_ListCheckpoints env ''ListCheckpointsByIDs'' (\<lambda>x. ckID x \<in> set [cpID c]) d)"
  show ?thesis
  proof (cases ?found)
    case True
    then have f: "cpID c \<in> stored_checkpoints d"
      by (auto simp: found_def q_ListCheckpoints_def stored_checkpoints_def filter_empty_conv
          split: option.splits intro: rev_image_eqI)
    have "UpdateCheckpoint env ?r d = (e, d')" using assms(1) True by (simp add: PutCheckpoint_def)
    from UpdateCheckpoint_frame [OF this] show ?thesis
      using assms(2) f unfolding db_ok_def stored_jids_def stored_checkpoints_def by (simp add: insert_absorb)
  next
    case False
    then have "CreateCheckpoint env ?r d = (e, d')" using assms(1) by (simp add: PutCheckpoint_def)
    then show ?thesis
      using assms(2) i
      by (auto simp: CreateCheckpoint_def db_ok_def stored_jids_def stored_checkpoints_def split: option.splits if_splits)
  qed
qed

lemma DeleteCheckpoint_keys:
  assumes "DeleteCheckpoint env i d = (e, d')" and "db_ok d"
  shows "db_ok d' \<and> stored_checkpoints d' = (if e = None then stored_checkpoints d - {i} else stored_checkpoints d)
    \<and> stored_jids d' = stored_jids d"
  using assms by (auto simp: DeleteCheckpoint_def q_DeleteCheckpoint_def db_ok_def stored_jids_def stored_checkpoints_def
      distinct_map_filter split: option.splits)

section \<open>What the job manager relies on\<close>

text \<open>
  The contract of a store of jobs and checkpoints: a successful put adds the key, a successful delete
  removes it, a failing operation changes no key, and a listing holds stored jobs only.
\<close>

locale job_store =
  fixes put :: "job_proto \<Rightarrow> 'd \<Rightarrow> error \<times> 'd"
    and del :: "string \<Rightarrow> 'd \<Rightarrow> error \<times> 'd"
    and putc :: "checkpoint \<Rightarrow> 'd \<Rightarrow> error \<times> 'd"
    and delc :: "string \<Rightarrow> 'd \<Rightarrow> error \<times> 'd"
    and list :: "'d \<Rightarrow> goerr + job_proto list"
    and jids :: "'d \<Rightarrow> string set"
    and cids :: "'d \<Rightarrow> string set"
    and ok :: "'d \<Rightarrow> bool"
  assumes put_keys: "put j d = (e, d') \<Longrightarrow> ok d \<Longrightarrow>
      ok d' \<and> jids d' = (if e = None then insert (jJID j) (jids d) else jids d) \<and> cids d' = cids d"
    and del_keys: "del k d = (e, d') \<Longrightarrow> ok d \<Longrightarrow>
      ok d' \<and> jids d' = (if e = None then jids d - {k} else jids d) \<and> cids d' = cids d"
    and putc_keys: "putc c d = (e, d') \<Longrightarrow> ok d \<Longrightarrow>
      ok d' \<and> cids d' = (if e = None then insert (cpID c) (cids d) else cids d) \<and> jids d' = jids d"
    and delc_keys: "delc k d = (e, d') \<Longrightarrow> ok d \<Longrightarrow>
      ok d' \<and> cids d' = (if e = None then cids d - {k} else cids d) \<and> jids d' = jids d"
    and list_keys: "list d = Inr js \<Longrightarrow> j \<in> set js \<Longrightarrow> jJID j \<in> jids d"

lemma collect_member:
  "collect f xs = Inr ys \<Longrightarrow> y \<in> set ys \<Longrightarrow> \<exists>x\<in>set xs. f x = Inr y"
  by (induction xs arbitrary: ys) (auto split: sum.splits)

lemma ListJobs_keys:
  assumes "ListJobs env [] d = Inr js" and "j \<in> set js"
  shows "jJID j \<in> stored_jids d"
proof -
  obtain rows where rows: "q_ListJobs env d = Inr rows" "collect (fromDBJobRow env) rows = Inr js"
    using assms(1) by (auto simp: ListJobs_def split: sum.splits)
  then obtain row where row: "row \<in> set rows" "fromDBJobRow env row = Inr j"
    using collect_member [OF rows(2) assms(2)] by blast
  then obtain r h where "row = ListJobsRow r h" "r \<in> set (jobs_table d)"
    using rows(1) by (auto simp: q_ListJobs_def join_hosts_def split: option.splits)
  then show ?thesis
    using row(2) by (auto simp: fromDBJobRow_def job_of_rows_def stored_jids_def split: sum.splits)
qed

interpretation sq: job_store "PutJob env" "DeleteJob env" "PutCheckpoint env" "DeleteCheckpoint env" "ListJobs env []"
  stored_jids stored_checkpoints db_ok for env
  by unfold_locales (rule PutJob_keys DeleteJob_keys PutCheckpoint_keys DeleteCheckpoint_keys ListJobs_keys; assumption)+

section \<open>Round trips\<close>

lemma ids_roundtrip: "xs \<noteq> [] \<Longrightarrow> ids_of_text (ids_text xs) = xs"
proof -
  assume "xs \<noteq> []"
  then have "split_on (CHR '','') (join '','' (map (\<lambda>v. itoa (unat v)) xs)) = map (\<lambda>v. itoa (unat v)) xs"
    by (intro split_on_join) (auto simp: comma_not_digit)
  then show ?thesis
    by (simp add: ids_of_text_def ids_text_def Uint32ToStringSlice_def StringToUint32Slice_def comp_def)
qed

lemma time_roundtrip:
  assumes "uint t * 1000000 < 2 ^ 63"
  shows "UnixMilli (time_of_millis t) = t"
proof -
  have "uint (t * 1000000) = uint t * 1000000"
    using assms by (simp add: uint_word_ariths)
  moreover have "- (2 ^ 63) \<le> uint t * 1000000" by (rule order_trans [of _ 0]) simp_all
  ultimately have "sint (t * 1000000) = uint t * 1000000"
    using signed_take_bit_int_eq_self [of 63 "uint t * 1000000"] assms by (simp add: sint_uint)
  then show ?thesis by (simp add: UnixMilli_def time_of_millis_def)
qed

lemma filter_key_singleton:
  "distinct (map k xs) \<Longrightarrow> x \<in> set xs \<Longrightarrow> filter (\<lambda>y. k y = k x) xs = [x]"
proof (induction xs)
  case (Cons a xs)
  show ?case
  proof (cases "x = a")
    case True
    then have "filter (\<lambda>y. k y = k x) xs = []" using Cons.prems(1) by (auto simp: filter_empty_conv) (metis image_eqI)
    then show ?thesis using True by simp
  next
    case False
    then have "k a \<noteq> k x" using Cons.prems by auto
    then show ?thesis using False Cons by simp
  qed
qed simp

lemma PutJob_row:
  assumes "db_ok d" and "PutJob env job d = (None, d')" and "marshalDetails env (jDetails job) = Inr bytes"
  shows "filter (\<lambda>j. Jid j = jJID job) (jobs_table d') = [job_params bytes job] \<and> hosts d' = hosts d"
proof -
  let ?r = "job_params bytes job"
  let ?f = "\<lambda>x. if Jid x = Jid ?r then ?r else x"
  have jid: "Jid ?r = jJID job" by (simp add: job_params_def Let_def)
  show ?thesis
  proof (cases "found (q_ListJobsByIDs env [jJID job] d)")
    case True
    obtain x where x: "x \<in> set (jobs_table d)" "Jid x = jJID job"
      using found_job [OF True] by (auto simp: stored_jids_def)
    have "jobs_table d' = map ?f (jobs_table d)" "hosts d' = hosts d"
      using assms True by (auto simp: PutJob_def UpdateJob_def split: option.splits if_splits)
    moreover have "(\<lambda>j. Jid j = jJID job) \<circ> ?f = (\<lambda>j. Jid j = jJID job)" using jid by (auto simp: fun_eq_iff)
    moreover have "filter (\<lambda>j. Jid j = jJID job) (jobs_table d) = [x]"
      using filter_key_singleton [of Jid "jobs_table d" x] x assms(1) by (simp add: db_ok_def)
    ultimately show ?thesis using x jid by (simp add: filter_map)
  next
    case False
    then have "jJID job \<notin> set (map Jid (jobs_table d)) \<and> jobs_table d' = jobs_table d @ [?r] \<and> hosts d' = hosts d"
      using assms jid by (auto simp: PutJob_def CreateJob_def split: option.splits if_splits)
    then show ?thesis using jid by (auto simp: filter_empty_conv) (metis image_eqI)
  qed
qed

text \<open>
  The part of a process state that the table keeps, with the host as the table has it. An identifier list comes back as it was
  unless it is empty: the empty text splits into one empty piece, which reads as zero.
\<close>

definition ids_back :: "u32 list \<Rightarrow> u32 list" where
  "ids_back xs = (if xs = [] then [0] else xs)"

definition persisted :: "proc_info \<Rightarrow> db_host \<Rightarrow> proc_info" where
  "persisted s h = empty_info\<lparr>PID := PID s, Cmdline := Cmdline s, StartTime := StartTime s, WorkingDir := WorkingDir s,
     PStatus := PStatus s, IsRunning := IsRunning s, GPUEnabled := GPUEnabled s, PHost := Some (fromDBHost h),
     UIDs := ids_back (UIDs s), GIDs := ids_back (GIDs s), Groups := ids_back (Groups s)\<rparr>"

definition details_of :: "job_proto \<Rightarrow> details" where
  "details_of job = (case jDetails job of Some ds \<Rightarrow> ds | None \<Rightarrow> \<lparr>dJID = None, dProcessPID = 0, dRest = []\<rparr>)"

lemma ids_back: "ids_of_text (ids_text xs) = ids_back xs"
  by (cases "xs = []") (simp_all add: ids_back_def ids_roundtrip,
    simp add: ids_of_text_def ids_text_def Uint32ToStringSlice_def StringToUint32Slice_def)

text \<open>
  C17: a stored job comes back. Let the host of the job be stored, its start time fit the nanosecond clock, and its details survive their
  encoding. After a successful \<open>PutJob\<close>, listing the JID returns exactly this job: the same type, log and details (empty ones if
  it had none), and the persisted part of its state, in which an empty identifier list has become the list of the identifier 0.
\<close>

theorem PutJob_ListJobs:
  assumes "db_ok d" and "PutJob env job d = (None, d')"
    and "marshalDetails env (jDetails job) = Inr bytes" and "unmarshalDetails env bytes = Inr (details_of job)"
    and "ioErr env ''ListJobsByIDs'' = None"
    and "h \<in> set (hosts d)" and "ID h = host_id (state_of job)"
    and "uint (StartTime (state_of job)) * 1000000 < 2 ^ 63"
  shows "ListJobs env [jJID job] d' = Inr [\<lparr>jJID = jJID job, jType = jType job, jLog = jLog job, jDetails = Some (details_of job),
      jState = Some (ProcessState (persisted (state_of job) h) [])\<rparr>]"
proof -
  let ?r = "job_params bytes job"
  have row: "filter (\<lambda>j. Jid j = jJID job) (jobs_table d') = [?r]" and hosts: "hosts d' = hosts d"
    using PutJob_row [OF assms(1-3)] by simp_all
  have "filter (\<lambda>x. ID x = Hostid ?r) (hosts d') = [h]"
    using filter_key_singleton [of ID "hosts d" h] assms(1,6,7) hosts by (simp add: db_ok_def job_params_def Let_def)
  then have "join_hosts d' [?r] = [(?r, h)]" by (simp add: join_hosts_def)
  then have "ListJobs env [jJID job] d' = collect (fromDBJobRow env) [ListJobsByIDsRow ?r h]"
    using assms(5) row by (simp add: ListJobs_def q_ListJobsByIDs_def)
  then show ?thesis
    using assms(4,8)
    by (simp add: fromDBJobRow_def job_of_rows_def job_params_def Let_def persisted_def ids_back time_roundtrip)
qed

text \<open>
  an empty identifier list does not come back. A job without supplementary groups is read back with
  the group 0, for the empty text splits into one empty piece, which reads as zero.
\<close>

theorem empty_ids_become_root:
  "ids_of_text (ids_text []) = [0] \<and> (xs \<noteq> [] \<longrightarrow> ids_of_text (ids_text xs) = xs)"
  by (simp add: ids_roundtrip)
    (simp add: ids_of_text_def ids_text_def Uint32ToStringSlice_def StringToUint32Slice_def)

text \<open>
  C18: listing by host always fails when it finds a job. The conversion of rows does not know the row type of that
  query, so \<open>ListJobsByHostIDs\<close> returns an error for every host that has a stored job.
\<close>

theorem ListJobsByHostIDs_fails:
  assumes "j \<in> set (jobs_table d)" and "h \<in> set (hosts d)" and "ID h = Hostid j" and "Hostid j \<in> set ids"
    and "ioErr env ''ListJobsByHostIDs'' = None"
  shows "ListJobsByHostIDs env ids d = Inl (Errorf ''unknown row type'')"
proof -
  let ?rows = "map (\<lambda>(j, h). ListJobsByHostIDsRow j h) (join_hosts d (filter (\<lambda>j. Hostid j \<in> set ids) (jobs_table d)))"
  have "(j, h) \<in> set (join_hosts d (filter (\<lambda>j. Hostid j \<in> set ids) (jobs_table d)))"
    using assms by (auto simp: join_hosts_def)
  then obtain r rs where rs: "?rows = r # rs" and "r \<in> set ?rows"
    by (cases ?rows) auto
  then have "fromDBJobRow env r = Inl (Errorf ''unknown row type'')" by (auto simp: fromDBJobRow_def)
  then show ?thesis using assms(5) rs by (simp add: ListJobsByHostIDs_def q_ListJobsByHostIDs_def)
qed

text \<open>
  a job of an unknown host can be stored once. The lookup before the insert joins with the hosts table, so
  the second \<open>PutJob\<close> does not find the row it would have to update and fails on the primary key.
\<close>

theorem PutJob_unknown_host:
  assumes "db_ok d" and "host_id (state_of job) \<notin> set (map ID (hosts d))" and "PutJob env job d = (None, d')"
    and "ioErr env ''CreateJob'' = None"
  shows "PutJob env job d' = (Some (Errorf ''UNIQUE constraint failed: jobs.JID''), d')"
proof -
  obtain bytes where m: "marshalDetails env (jDetails job) = Inr bytes"
    using assms(3) by (auto simp: PutJob_def split: sum.splits)
  let ?r = "job_params bytes job"
  have row: "filter (\<lambda>j. Jid j = jJID job) (jobs_table d') = [?r]" and hosts: "hosts d' = hosts d"
    using PutJob_row [OF assms(1,3) m] by simp_all
  have "filter (\<lambda>h. ID h = Hostid ?r) (hosts d) = []"
    using assms(2) by (auto simp: filter_empty_conv job_params_def Let_def) (metis image_eqI)
  then have nf: "\<not> found (q_ListJobsByIDs env [jJID job] d')"
    using row hosts by (simp add: found_def q_ListJobsByIDs_def join_hosts_def split: option.split)
  have "?r \<in> set (filter (\<lambda>j. Jid j = jJID job) (jobs_table d'))" using row by simp
  then have "jJID job \<in> set (map Jid (jobs_table d'))" by (auto intro: rev_image_eqI)
  then show ?thesis using m nf assms(4) by (simp add: PutJob_def CreateJob_def job_params_def Let_def)
qed

section \<open>Witnesses\<close>

definition ok_sql :: sql_env where
  "ok_sql = \<lparr>ioErr = (\<lambda>_. None), marshalDetails = (\<lambda>_. Inr ''{}''),
     unmarshalDetails = (\<lambda>_. Inr \<lparr>dJID = None, dProcessPID = 0, dRest = []\<rparr>)\<rparr>"

definition a_host :: db_host where
  "a_host = \<lparr>ID = ''h'', Mac = ''m'', Hostname = ''n'', Os = ''linux'', Platform = ''p'', Kernelversion = ''6'',
     Kernelarch = ''x86'', Cpuphysicalid = [], Cpuvendorid = [], Cpufamily = [], Cpucount = 4, Memtotal = 1\<rparr>"

definition a_job :: "string \<Rightarrow> job_proto" where
  "a_job host = \<lparr>jJID = ''j'', jType = ''process'', jLog = [], jDetails = None,
     jState = Some (ProcessState (empty_info\<lparr>PID := 7, StartTime := 5, UIDs := [0], GIDs := [1000], Groups := [27, 1000],
       PHost := Some (empty_host\<lparr>hID := host\<rparr>)\<rparr>) [])\<rparr>"

definition one_host :: sqlite where
  "one_host = \<lparr>hosts = [a_host], jobs_table = [], checkpoints_table = []\<rparr>"

lemma one_host_ok: "db_ok one_host"
  by (simp add: db_ok_def one_host_def)

lemma a_job_put:
  "host \<noteq> [] \<Longrightarrow> PutJob ok_sql (a_job host) one_host =
     (None, one_host\<lparr>jobs_table := [job_params ''{}'' (a_job host)]\<rparr>)"
  by (simp add: PutJob_def found_def q_ListJobsByIDs_def join_hosts_def CreateJob_def job_checks_def job_params_def Let_def
      state_of_def host_id_def ok_sql_def a_job_def one_host_def)

theorem PutJob_ListJobs_witness:
  "ListJobs ok_sql [''j''] (one_host\<lparr>jobs_table := [job_params ''{}'' (a_job ''h'')]\<rparr>) =
     Inr [\<lparr>jJID = ''j'', jType = ''process'', jLog = [], jDetails = Some \<lparr>dJID = None, dProcessPID = 0, dRest = []\<rparr>,
       jState = Some (ProcessState (persisted (state_of (a_job ''h'')) a_host) [])\<rparr>]"
  using PutJob_ListJobs [OF one_host_ok a_job_put [of "''h''"], of "''{}''" a_host]
  by (simp add: ok_sql_def one_host_def a_job_def a_host_def state_of_def host_id_def details_of_def)

theorem empty_ids_become_root_witness:
  "ids_of_text (ids_text []) = [0] \<and> ids_of_text (ids_text [27, 1000]) = [27, 1000]"
  using empty_ids_become_root [of "[27, 1000]"] by simp

theorem ListJobsByHostIDs_fails_witness:
  "ListJobsByHostIDs ok_sql [''h''] (one_host\<lparr>jobs_table := [job_params ''{}'' (a_job ''h'')]\<rparr>) = Inl (Errorf ''unknown row type'')"
  by (rule ListJobsByHostIDs_fails [of "job_params ''{}'' (a_job ''h'')" _ a_host])
    (simp_all add: ok_sql_def one_host_def a_job_def a_host_def job_params_def Let_def state_of_def host_id_def)

theorem PutJob_unknown_host_witness:
  "fst (PutJob ok_sql (a_job ''other'') (one_host\<lparr>jobs_table := [job_params ''{}'' (a_job ''other'')]\<rparr>)) =
     Some (Errorf ''UNIQUE constraint failed: jobs.JID'')"
proof -
  have h: "host_id (state_of (a_job ''other'')) \<notin> set (map ID (hosts one_host))"
    by (simp add: a_job_def state_of_def host_id_def one_host_def a_host_def)
  show ?thesis
    using PutJob_unknown_host [OF one_host_ok h a_job_put] by (simp add: ok_sql_def)
qed

end
