(* ===== verification/Process_Tree.thy ===== *)
theory Process_Tree
  imports Process_Utils "HOL-Library.Multiset"
begin

text \<open>
  The tree part of \<^bold>\<open>pkg/utils/process.go\<close>: the scan of \<open>/proc\<close> that gives every process
  its children, the breadth-first walk of \<open>FillProcessState\<close>, and \<open>WalkTree\<close> of
  \<^bold>\<open>reflect.go\<close>, the depth-first visit of a finished tree.
\<close>

section \<open>Reading /proc/<pid>/stat\<close>

text \<open>
  \<open>Inl\<close> is the slice \<open>s[:-1]\<close> that panics when the contents hold no space, \<open>Inr None\<close> the
  result \<open>ok = false\<close>.
\<close>

definition parseStatPIDPPID :: "string \<Rightarrow> goerr + (u32 \<times> u32) option" where
  "parseStatPIDPPID s =
     (case last_index_byte s (CHR '')'') of
        None \<Rightarrow> Inr None
      | Some rparen \<Rightarrow>
        if length s \<le> rparen + 2 then Inr None
        else (case index_byte s (CHR '' '') of
            None \<Rightarrow> Inl (Panic ''slice bounds out of range'')
          | Some sp \<Rightarrow>
            (case parse_uint32 (take sp s) of
               None \<Rightarrow> Inr None
             | Some pid \<Rightarrow>
               (case str_fields (drop (rparen + 2) s) of
                  _ # f4 # _ \<Rightarrow> (case parse_uint32 f4 of None \<Rightarrow> Inr None | Some ppid \<Rightarrow> Inr (Some (pid, ppid)))
                | _ \<Rightarrow> Inr None))))"

type_synonym ppid_map = "u32 \<Rightarrow> u32 list"

fun ppid_loop :: "proc_env \<Rightarrow> nat \<Rightarrow> (goerr + string) list \<Rightarrow> ppid_map \<Rightarrow> goerr + ppid_map" where
  "ppid_loop env i [] m = Inr m"
| "ppid_loop env i (f # fs) m =
     (case scanCtxErr env i of Some e \<Rightarrow> Inl e | None \<Rightarrow>
      (case f of Inl _ \<Rightarrow> ppid_loop env (Suc i) fs m | Inr contents \<Rightarrow>
       (if contents = [] then ppid_loop env (Suc i) fs m
        else (case parseStatPIDPPID contents of
            Inl panic \<Rightarrow> Inl panic
          | Inr None \<Rightarrow> ppid_loop env (Suc i) fs m
          | Inr (Some (pid, ppid)) \<Rightarrow> ppid_loop env (Suc i) fs (m(ppid := m ppid @ [pid]))))))"

definition buildPPIDMap :: "proc_env \<Rightarrow> goerr + ppid_map" where
  "buildPPIDMap env = (case statFiles env of Inl e \<Rightarrow> Inl e | Inr fs \<Rightarrow> ppid_loop env 0 fs (\<lambda>_. []))"

section \<open>The breadth-first walk\<close>

text \<open>
  The nodes allocated so far, each with its fields and the addresses of its children; address
  0 is the root. \<open>cur.parent.Children = append(...)\<close> is \<open>add_child\<close>.
\<close>

type_synonym nodes = "(proc_info \<times> nat list) list"

definition add_child :: "nat \<Rightarrow> proc_info \<Rightarrow> nodes \<Rightarrow> nodes" where
  "add_child parent st ns =
     ns[parent := (fst (ns ! parent), snd (ns ! parent) @ [length ns])] @ [(st, [])]"

text \<open>
  The loop ends only when the queue does, so it is a partial function. A child that cannot be read is skipped; a
  panic while one is read ends the whole call.
\<close>

partial_function (option) bfs_loop ::
  "proc_env \<Rightarrow> host_rec option \<Rightarrow> ppid_map \<Rightarrow> nat \<Rightarrow> (u32 \<times> nat) list \<Rightarrow> nodes \<Rightarrow> (error \<times> nodes) option" where
  "bfs_loop env h m i queue ns =
     (case queue of
        [] \<Rightarrow> Some (None, ns)
      | (pid, parent) # rest \<Rightarrow>
        if walkCtxErr env i \<noteq> None then Some (None, ns)
        else (case fillProcessNode env pid (empty_info\<lparr>PHost := h\<rparr>) of
            (Some (Panic p), _) \<Rightarrow> Some (Some (Panic p), ns)
          | (Some _, _) \<Rightarrow> bfs_loop env h m (Suc i) rest ns
          | (None, st) \<Rightarrow>
              bfs_loop env h m (Suc i) (rest @ map (\<lambda>c. (c, length ns)) (m pid)) (add_child parent st ns)))"

declare bfs_loop.simps [code]

text \<open>Reading the tree at an address; children have larger addresses than their parent.\<close>

fun tree_at :: "nat \<Rightarrow> nodes \<Rightarrow> nat \<Rightarrow> process_state" where
  "tree_at 0 ns a = ProcessState (fst (ns ! a)) []"
| "tree_at (Suc k) ns a = ProcessState (fst (ns ! a)) (map (tree_at k ns) (snd (ns ! a)))"

text \<open>
  \<open>FillProcessState\<close> on a state that is not nil: \<open>None\<close> when the walk does not end, otherwise the error
  and the updated state. A panic is the error \<open>Panic\<close>.
\<close>

definition with_host :: "proc_env \<Rightarrow> proc_info \<Rightarrow> proc_info" where
  "with_host env st = (case GetHost env of (None, h) \<Rightarrow> st\<lparr>PHost := Some h\<rparr> | (Some _, _) \<Rightarrow> st)"

definition FillProcessState :: "proc_env \<Rightarrow> u32 \<Rightarrow> process_state \<Rightarrow> bool \<Rightarrow> (error \<times> process_state) option" where
  "FillProcessState env pid state deep =
     (case fst (GetHost env) of Some (Panic p) \<Rightarrow> Some (Some (Panic p), state) | herr \<Rightarrow>
      (case fillProcessNode env pid (with_host env (info state)) of
           (Some e, st1) \<Rightarrow> Some (Some e, ProcessState (st1\<lparr>PID := pid\<rparr>) (Children state))
         | (None, st1) \<Rightarrow>
           if \<not> deep then Some (errors_Join [herr], ProcessState st1 (Children state))
           else (case buildPPIDMap env of
               Inl (Panic p) \<Rightarrow> Some (Some (Panic p), ProcessState st1 [])
             | Inl e \<Rightarrow> Some (errors_Join [herr, Some (Wrapf ''build ppid map'' e)], ProcessState st1 [])
             | Inr m \<Rightarrow>
               map_option (\<lambda>(panic, ns). (if panic = None then errors_Join [herr] else panic, tree_at (length ns) ns 0))
                 (bfs_loop env (PHost st1) m 0 (map (\<lambda>c. (c, 0)) (m pid)) [(st1, [])]))))"

definition GetProcessState :: "proc_env \<Rightarrow> u32 \<Rightarrow> bool \<Rightarrow> (error \<times> process_state) option" where
  "GetProcessState env pid deep = FillProcessState env pid (ProcessState empty_info []) deep"

section \<open>Visiting a tree\<close>

text \<open>
  \<open>WalkTree\<close> with the slice it visits given by a getter, \<open>None\<close> when the field is not a slice. The
  state \<open>'s\<close> is what the callback closes over.
\<close>

fun walk_values :: "('a \<Rightarrow> 's \<Rightarrow> bool \<times> 's) \<Rightarrow> 'a list \<Rightarrow> 's \<Rightarrow> bool \<times> 's" where
  "walk_values fn [] s = (True, s)"
| "walk_values fn (v # vs) s = (case fn v s of (False, s') \<Rightarrow> (False, s') | (True, s') \<Rightarrow> walk_values fn vs s')"

fun WalkTree :: "(proc_info \<Rightarrow> 'a list option) \<Rightarrow> ('a \<Rightarrow> 's \<Rightarrow> bool \<times> 's) \<Rightarrow> process_state \<Rightarrow> 's \<Rightarrow> bool \<times> 's"
  and WalkChildren :: "(proc_info \<Rightarrow> 'a list option) \<Rightarrow> ('a \<Rightarrow> 's \<Rightarrow> bool \<times> 's) \<Rightarrow> process_state list \<Rightarrow> 's \<Rightarrow> bool \<times> 's" where
  "WalkTree field fn (ProcessState i cs) s =
     (case walk_values fn (case field i of Some vs \<Rightarrow> vs | None \<Rightarrow> []) s of
        (False, s') \<Rightarrow> (False, s')
      | (True, s') \<Rightarrow> WalkChildren field fn cs s')"
| "WalkChildren field fn [] s = (True, s)"
| "WalkChildren field fn (c # cs) s =
     (case WalkTree field fn c s of (False, s') \<Rightarrow> (False, s') | (True, s') \<Rightarrow> WalkChildren field fn cs s')"

section \<open>Environment variables\<close>

fun getenv_loop :: "string \<Rightarrow> string list \<Rightarrow> string option" where
  "getenv_loop prefix [] = None"
| "getenv_loop prefix (e # es) =
     (if has_prefix e prefix then Some (drop (length prefix) e) else getenv_loop prefix es)"

text \<open>The loop runs from the last entry to the first.\<close>

definition Getenv :: "string list \<Rightarrow> string \<Rightarrow> string list \<Rightarrow> string" where
  "Getenv env key defaultValue =
     (case getenv_loop (key @ ''='') (rev env) of
        Some v \<Rightarrow> v
      | None \<Rightarrow> (case defaultValue of d # _ \<Rightarrow> d | [] \<Rightarrow> []))"

section \<open>Facts about visits\<close>

text \<open>The values in the order of the visit: a node's own, then those of its children.\<close>

fun preorder :: "(proc_info \<Rightarrow> 'a list option) \<Rightarrow> process_state \<Rightarrow> 'a list" where
  "preorder field (ProcessState i cs) =
     (case field i of Some vs \<Rightarrow> vs | None \<Rightarrow> []) @ concat (map (preorder field) cs)"

lemma walk_values_append:
  "walk_values fn (xs @ ys) s =
     (case walk_values fn xs s of (False, s') \<Rightarrow> (False, s') | (True, s') \<Rightarrow> walk_values fn ys s')"
  by (induction xs arbitrary: s) (auto split: prod.split bool.split)

lemma WalkTree_preorder_both:
  "WalkTree field fn t s = walk_values fn (preorder field t) s"
  "WalkChildren field fn ts s = walk_values fn (concat (map (preorder field) ts)) s"
  by (induction field fn t s and field fn ts s rule: WalkTree_WalkChildren.induct)
    (auto simp: walk_values_append split: prod.split bool.split)

section \<open>The walk visits every descendant once\<close>

definition unique_parents :: "ppid_map \<Rightarrow> bool" where
  "unique_parents m \<longleftrightarrow> (\<forall>a. distinct (m a)) \<and> (\<forall>a b x. x \<in> set (m a) \<longrightarrow> x \<in> set (m b) \<longrightarrow> a = b)"

definition child_rel :: "ppid_map \<Rightarrow> (u32 \<times> u32) set" where
  "child_rel m = {(a, b). b \<in> set (m a)}"

definition descendants :: "ppid_map \<Rightarrow> u32 \<Rightarrow> u32 set" where
  "descendants m r = {x. (r, x) \<in> (child_rel m)\<^sup>+}"

abbreviation node_pids :: "nodes \<Rightarrow> u32 list" where
  "node_pids ns \<equiv> map (\<lambda>n. PID (fst n)) ns"

text \<open>
  What holds of the visited processes \<open>D\<close>, the waiting ones \<open>Q\<close> and the processes \<open>P\<close> that
  have a node.
\<close>

definition walk_inv :: "ppid_map \<Rightarrow> u32 \<Rightarrow> u32 list \<Rightarrow> u32 list \<Rightarrow> u32 list \<Rightarrow> bool" where
  "walk_inv m r D Q P \<longleftrightarrow> distinct (D @ Q) \<and> set (D @ Q) \<subseteq> descendants m r \<and> distinct P
     \<and> r \<in> set P \<and> set P \<subseteq> insert r (set D)
     \<and> (\<forall>x\<in>set (D @ Q). \<exists>p\<in>set P. x \<in> set (m p))
     \<and> (\<forall>p\<in>set P. set (m p) \<subseteq> set (D @ Q))"

lemma walk_inv_start:
  assumes "unique_parents m"
  shows "walk_inv m r [] (m r) [r]"
  using assms by (auto simp: walk_inv_def unique_parents_def descendants_def child_rel_def)

lemma walk_inv_skip:
  "walk_inv m r D (pid # Q) P \<Longrightarrow> walk_inv m r (D @ [pid]) Q P"
  by (auto simp: walk_inv_def)

lemma walk_inv_visit:
  assumes inv: "walk_inv m r D (pid # Q) P" and u: "unique_parents m" and r: "r \<notin> descendants m r"
  shows "walk_inv m r (D @ [pid]) (Q @ m pid) (P @ [pid])"
proof -
  have pid: "pid \<in> descendants m r" "pid \<notin> set D" and "pid \<noteq> r"
    using inv r by (auto simp: walk_inv_def)
  then have notP: "pid \<notin> set P" using inv by (auto simp: walk_inv_def)
  have new: "x \<notin> set (D @ pid # Q)" if "x \<in> set (m pid)" for x
  proof
    assume "x \<in> set (D @ pid # Q)"
    then obtain p where "p \<in> set P" "x \<in> set (m p)" using inv unfolding walk_inv_def by blast
    then show False using that u notP unfolding unique_parents_def by blast
  qed
  have desc: "set (m pid) \<subseteq> descendants m r"
    using pid(1) by (auto simp: descendants_def child_rel_def intro: trancl_into_trancl)
  have dm: "distinct (m pid)" using u by (simp add: unique_parents_def)
  have old: "distinct (D @ pid # Q)" "set (D @ pid # Q) \<subseteq> descendants m r" "distinct P" "r \<in> set P"
      "set P \<subseteq> insert r (set D)" and par: "\<forall>x\<in>set (D @ pid # Q). \<exists>p\<in>set P. x \<in> set (m p)"
      and ch: "\<forall>p\<in>set P. set (m p) \<subseteq> set (D @ pid # Q)"
    using inv by (simp_all add: walk_inv_def)
  have "distinct ((D @ [pid]) @ Q @ m pid)" using old(1) dm new by auto
  moreover have "\<forall>x\<in>set ((D @ [pid]) @ Q @ m pid). \<exists>p\<in>set (P @ [pid]). x \<in> set (m p)" using par by auto
  moreover have "\<forall>p\<in>set (P @ [pid]). set (m p) \<subseteq> set ((D @ [pid]) @ Q @ m pid)" using ch by auto
  ultimately show ?thesis using old notP desc unfolding walk_inv_def by auto
qed

text \<open>When the queue is empty and no process was skipped, all descendants have a node.\<close>

lemma walk_inv_final:
  assumes "walk_inv m r D [] P" and "set D \<subseteq> set P"
  shows "distinct P \<and> set P = insert r (descendants m r)"
proof -
  have closed: "set (m p) \<subseteq> set D" if "p \<in> insert r (set D)" for p
    using that assms unfolding walk_inv_def by auto
  have "x \<in> set D" if "(r, x) \<in> (child_rel m)\<^sup>+" for x
    using that by (induction rule: trancl_induct) (use closed in \<open>auto simp: child_rel_def\<close>)
  then have "descendants m r \<subseteq> set D" by (auto simp: descendants_def)
  then show ?thesis using assms unfolding walk_inv_def by auto
qed

lemma on_ok_PID: "(\<And>v s. PID (f v s) = PID s) \<Longrightarrow> PID (on_ok r f s) = PID s"
  by (simp add: on_ok_def split: sum.split)

lemma fillProcessNode_PID: "PID (snd (fillProcessNode env pid st)) = pid"
  unfolding fillProcessNode_def Let_def
  by (simp add: on_ok_PID split: option.split sum.split)

text \<open>
  The shape of the store: every address but the root's is the child of exactly one smaller
  address, and a node's children are children of its process.
\<close>

definition nodes_ok :: "ppid_map \<Rightarrow> nodes \<Rightarrow> bool" where
  "nodes_ok m ns \<longleftrightarrow> ns \<noteq> []
     \<and> (\<forall>a<length ns. \<forall>c\<in>set (snd (ns ! a)). a < c \<and> c < length ns \<and> PID (fst (ns ! c)) \<in> set (m (PID (fst (ns ! a)))))
     \<and> mset (concat (map snd ns)) = mset [1..<length ns]"

lemma nodes_okI:
  assumes "ns \<noteq> []" and "mset (concat (map snd ns)) = mset [1..<length ns]"
    and "\<And>a c. a < length ns \<Longrightarrow> c \<in> set (snd (ns ! a)) \<Longrightarrow>
      a < c \<and> c < length ns \<and> PID (fst (ns ! c)) \<in> set (m (PID (fst (ns ! a))))"
  shows "nodes_ok m ns"
  unfolding nodes_ok_def using assms by (intro conjI allI impI ballI) (assumption | blast)+

lemma nodes_okD:
  assumes "nodes_ok m ns" and "a < length ns" and "c \<in> set (snd (ns ! a))"
  shows "a < c" and "c < length ns" and "PID (fst (ns ! c)) \<in> set (m (PID (fst (ns ! a))))"
  using assms(1) unfolding nodes_ok_def using assms(2,3) by blast+

lemma nodes_ok_concat: "nodes_ok m ns \<Longrightarrow> mset (concat (map snd ns)) = mset [1..<length ns]"
  unfolding nodes_ok_def by (elim conjE)

lemma nodes_ok_pos: "nodes_ok m ns \<Longrightarrow> 0 < length ns"
  unfolding nodes_ok_def by (elim conjE) simp

definition queue_ok :: "ppid_map \<Rightarrow> nodes \<Rightarrow> (u32 \<times> nat) list \<Rightarrow> bool" where
  "queue_ok m ns q \<longleftrightarrow> (\<forall>(c, k)\<in>set q. k < length ns \<and> c \<in> set (m (PID (fst (ns ! k)))))"

lemma add_child_simps:
  assumes "parent < length ns"
  shows "length (add_child parent st ns) = Suc (length ns)"
    and "a < length ns \<Longrightarrow> fst (add_child parent st ns ! a) = fst (ns ! a)"
    and "a < length ns \<Longrightarrow> snd (add_child parent st ns ! a) = snd (ns ! a) @ (if a = parent then [length ns] else [])"
    and "add_child parent st ns ! length ns = (st, [])"
    and "node_pids (add_child parent st ns) = node_pids ns @ [PID st]"
proof -
  have "(node_pids ns)[parent := PID (fst (ns ! parent))] = node_pids ns"
    using assms by (metis (mono_tags, lifting) list_update_id nth_map)
  then show "node_pids (add_child parent st ns) = node_pids ns @ [PID st]"
    by (simp add: add_child_def map_update)
qed (use assms in \<open>auto simp: add_child_def nth_append nth_list_update\<close>)

lemma mset_concat_add_child:
  assumes "parent < length ns"
  shows "mset (concat (map snd (add_child parent st ns))) = add_mset (length ns) (mset (concat (map snd ns)))"
proof -
  have "concat (map snd (add_child parent st ns)) = concat ((map snd ns)[parent := snd (ns ! parent) @ [length ns]])"
    by (simp add: add_child_def map_update)
  also have "\<dots> = concat (take parent (map snd ns)) @ (snd (ns ! parent) @ [length ns]) @ concat (drop (Suc parent) (map snd ns))"
    using assms by (simp add: upd_conv_take_nth_drop)
  finally have a: "concat (map snd (add_child parent st ns)) = \<dots>" .
  have b: "concat (map snd ns) = concat (take parent (map snd ns)) @ snd (ns ! parent) @ concat (drop (Suc parent) (map snd ns))"
    using assms by (metis concat.simps(2) concat_append id_take_nth_drop length_map nth_map)
  show ?thesis unfolding a by (subst b) simp
qed

lemma nodes_ok_add_child:
  assumes ok: "nodes_ok m ns" and p: "parent < length ns" and c: "PID st \<in> set (m (PID (fst (ns ! parent))))"
  shows "nodes_ok m (add_child parent st ns)"
proof -
  let ?ns = "add_child parent st ns"
  note simps = add_child_simps [OF p, where st = st]
  have edge: "a < c \<and> c < length ?ns \<and> PID (fst (?ns ! c)) \<in> set (m (PID (fst (?ns ! a))))"
    if "a < length ?ns" and member: "c \<in> set (snd (?ns ! a))" for a c
  proof (cases "a = length ns")
    case True
    then show ?thesis using member by (simp add: simps(4))
  next
    case False
    then have a: "a < length ns" using that(1) by (simp add: simps(1))
    show ?thesis
    proof (cases "c \<in> set (snd (ns ! a))")
      case True
      then have "a < c \<and> c < length ns \<and> PID (fst (ns ! c)) \<in> set (m (PID (fst (ns ! a))))"
        using nodes_okD [OF ok a] by blast
      then show ?thesis using simps(1) simps(2) [OF a] simps(2) [of c] by simp
    next
      case False
      then have "a = parent" "c = length ns"
        using member by (simp_all add: simps(3) [OF a] split: if_splits)
      then show ?thesis using \<open>PID st \<in> _\<close> simps(1,4) simps(2) [OF p] p by simp
    qed
  qed
  have "ns \<noteq> []" "mset (concat (map snd ns)) = mset [1..<length ns]" using ok by (simp_all add: nodes_ok_def)
  then have "mset (concat (map snd ?ns)) = mset [1..<length ?ns]"
    using mset_concat_add_child [OF p, where st = st] simps(1) by (cases ns) simp_all
  moreover have "?ns \<noteq> []" using simps(1) by (metis Zero_not_Suc list.size(3))
  ultimately show ?thesis using edge by (intro nodes_okI)
qed

lemma bfs_loop_walk:
  assumes "unique_parents m" and "r \<notin> descendants m r"
    and "walk_inv m r D (map fst q) (node_pids ns)" and "nodes_ok m ns" and "queue_ok m ns q"
    and "node_pids ns ! 0 = r"
  shows "\<exists>pan ns'. bfs_loop env h m i q ns = Some (pan, ns') \<and> nodes_ok m ns' \<and> distinct (node_pids ns')
    \<and> set (node_pids ns') \<subseteq> insert r (descendants m r)
    \<and> fst (ns' ! 0) = fst (ns ! 0)
    \<and> ((\<forall>i. walkCtxErr env i = None) \<and> set D \<subseteq> set (node_pids ns)
         \<and> (\<forall>p\<in>descendants m r. fst (fillProcessNode env p (empty_info\<lparr>PHost := h\<rparr>)) = None)
        \<longrightarrow> pan = None \<and> set (node_pids ns') = insert r (descendants m r))"
  using assms(3-6)
proof (induction "CARD(u32) - length D" arbitrary: D q ns i rule: less_induct)
  case less
  then show ?case
  proof (cases q)
    case Nil
    have "set (node_pids ns) \<subseteq> insert r (descendants m r)" "distinct (node_pids ns)"
      using less.prems(1) by (auto simp: walk_inv_def)
    then show ?thesis
      using Nil less.prems walk_inv_final [of m r D "node_pids ns"] by (subst bfs_loop.simps) auto
  next
    case (Cons e rest)
    obtain pid parent where e: "e = (pid, parent)" by (cases e)
    have inv: "walk_inv m r D (pid # map fst rest) (node_pids ns)" using less.prems(1) Cons e by simp
    have sub: "set (node_pids ns) \<subseteq> insert r (descendants m r)" "distinct (node_pids ns)" "pid \<in> descendants m r"
      using inv by (auto simp: walk_inv_def)
    have "length (D @ [pid]) \<le> CARD(u32)"
    proof -
      have "distinct (D @ [pid])" using inv by (auto simp: walk_inv_def)
      then have "length (D @ [pid]) = card (set (D @ [pid]))" by (metis distinct_card)
      also have "\<dots> \<le> CARD(u32)" by (rule card_mono) auto
      finally show ?thesis .
    qed
    then have smaller: "CARD(u32) - length (D @ [pid]) < CARD(u32) - length D" by simp
    have par: "parent < length ns" "pid \<in> set (m (PID (fst (ns ! parent))))"
      using less.prems(3) Cons e by (auto simp: queue_ok_def)
    have qrest: "queue_ok m ns rest" using less.prems(3) Cons by (auto simp: queue_ok_def)
    obtain err st where f: "fillProcessNode env pid (empty_info\<lparr>PHost := h\<rparr>) = (err, st)" by (metis surj_pair)
    have st: "PID st = pid" using fillProcessNode_PID [of env pid "empty_info\<lparr>PHost := h\<rparr>"] f by simp
    show ?thesis
    proof (cases "walkCtxErr env i")
      case (Some x)
      then show ?thesis
        using Cons e less.prems sub by (subst bfs_loop.simps) auto
    next
      case noctx: None
      show ?thesis
      proof (cases err)
        case (Some x)
        have bad: "fst (fillProcessNode env pid (empty_info\<lparr>PHost := h\<rparr>)) \<noteq> None" using f Some by simp
        have no: "\<not> (\<forall>p\<in>descendants m r. fst (fillProcessNode env p (empty_info\<lparr>PHost := h\<rparr>)) = None)"
          by (rule notI, drule bspec [OF _ sub(3)], rule notE [OF bad])
        have "bfs_loop env h m i q ns = (case x of Panic p \<Rightarrow> Some (Some (Panic p), ns) | _ \<Rightarrow> bfs_loop env h m (Suc i) rest ns)"
          using Cons e noctx f Some by (subst bfs_loop.simps) simp
        then consider p where "bfs_loop env h m i q ns = Some (Some (Panic p), ns)"
          | "bfs_loop env h m i q ns = bfs_loop env h m (Suc i) rest ns"
          by (cases x) simp_all
        then show ?thesis
        proof cases
          case 1
          then show ?thesis using less.prems(2) sub no by auto
        next
          case 2
          obtain pan ns' where "bfs_loop env h m (Suc i) rest ns = Some (pan, ns')" "nodes_ok m ns'" "distinct (node_pids ns')"
              "set (node_pids ns') \<subseteq> insert r (descendants m r)" "fst (ns' ! 0) = fst (ns ! 0)"
            using less.hyps [OF smaller walk_inv_skip [OF inv] less.prems(2) qrest less.prems(4), of "Suc i"] by auto
          then show ?thesis
            unfolding 2 by (intro exI [of _ pan] exI [of _ ns'] conjI impI) (assumption | elim conjE, erule notE [OF no])+
        qed
      next
        case None
        let ?ns = "add_child parent st ns" and ?q = "rest @ map (\<lambda>c. (c, length ns)) (m pid)"
        note simps = add_child_simps [OF par(1), where st = st]
        have step: "bfs_loop env h m i q ns = bfs_loop env h m (Suc i) ?q ?ns"
          using Cons e noctx f None by (subst bfs_loop.simps) simp
        have inv': "walk_inv m r (D @ [pid]) (map fst ?q) (node_pids ?ns)"
          using walk_inv_visit [OF inv assms(1,2)] by (simp add: simps(5) st comp_def)
        have ok': "nodes_ok m ?ns" using nodes_ok_add_child [OF less.prems(2) par(1)] par(2) st by simp
        have q': "queue_ok m ?ns ?q"
          unfolding queue_ok_def
        proof (clarify)
          fix c k assume "(c, k) \<in> set ?q"
          then consider "(c, k) \<in> set rest" | "c \<in> set (m pid)" "k = length ns" by auto
          then show "k < length ?ns \<and> c \<in> set (m (PID (fst (?ns ! k))))"
          proof cases
            case 1
            then have "k < length ns" "c \<in> set (m (PID (fst (ns ! k))))" using qrest by (auto simp: queue_ok_def)
            then show ?thesis using simps(1,2) by simp
          qed (use st simps(1,4) in simp)
        qed
        have "0 < length ns" using par(1) by linarith
        then have r0: "node_pids ?ns ! 0 = r" and f0: "fst (?ns ! 0) = fst (ns ! 0)"
          using less.prems(4) simps(2) [of 0] by (simp_all add: simps(5) nth_append)
        obtain pan ns' where "bfs_loop env h m (Suc i) ?q ?ns = Some (pan, ns')" "nodes_ok m ns'" "distinct (node_pids ns')"
            "set (node_pids ns') \<subseteq> insert r (descendants m r)" "fst (ns' ! 0) = fst (?ns ! 0)"
            and all: "(\<forall>i. walkCtxErr env i = None) \<and> set (D @ [pid]) \<subseteq> set (node_pids ?ns)
              \<and> (\<forall>p\<in>descendants m r. fst (fillProcessNode env p (empty_info\<lparr>PHost := h\<rparr>)) = None)
              \<longrightarrow> pan = None \<and> set (node_pids ns') = insert r (descendants m r)"
          using less.hyps [OF smaller inv' ok' q' r0, of "Suc i"] by blast
        moreover have "set (D @ [pid]) \<subseteq> set (node_pids ?ns)" if "set D \<subseteq> set (node_pids ns)"
          using that unfolding simps(5) st by auto
        ultimately show ?thesis
          unfolding step using f0 by (intro exI [of _ pan] exI [of _ ns'] conjI impI) auto
      qed
    qed
  qed
qed

section \<open>Reading the tree off the store\<close>

fun tree_addrs :: "nat \<Rightarrow> nodes \<Rightarrow> nat \<Rightarrow> nat multiset" where
  "tree_addrs 0 ns a = {#a#}"
| "tree_addrs (Suc k) ns a = add_mset a (\<Sum>c\<leftarrow>snd (ns ! a). tree_addrs k ns c)"

definition tree_pids :: "process_state \<Rightarrow> u32 list" where
  "tree_pids t = preorder (\<lambda>i. Some [PID i]) t"

lemma count_sum_list: "count (\<Sum>c\<leftarrow>cs. F c) x = (\<Sum>c\<leftarrow>cs. count (F c) x)"
  by (induction cs) auto

lemma in_sum_list: "x \<in># (\<Sum>c\<leftarrow>cs. F c) \<longleftrightarrow> (\<exists>c\<in>set cs. x \<in># F c)"
  by (induction cs) auto

lemma sum_list_if_eq:
  fixes g :: "'a \<Rightarrow> nat"
  shows "(\<Sum>c\<leftarrow>cs. (if c = x then 1 else 0) + g c) = count (mset cs) x + (\<Sum>c\<leftarrow>cs. g c)"
  by (induction cs) auto

lemma image_mset_sum_list: "image_mset f (\<Sum>c\<leftarrow>cs. F c) = (\<Sum>c\<leftarrow>cs. image_mset f (F c))"
  by (induction cs) auto

lemma tree_pids_addrs:
  "mset (tree_pids (tree_at k ns a)) = image_mset (\<lambda>b. PID (fst (ns ! b))) (tree_addrs k ns a)"
  by (induction k arbitrary: a)
    (simp_all add: tree_pids_def image_mset_sum_list mset_concat comp_def)

lemma sum_one:
  fixes f :: "nat \<Rightarrow> nat"
  assumes "(\<Sum>i<n. f i) = 1" and "p < n" and "0 < f p" and "a < n"
  shows "f a = (if a = p then 1 else 0)"
proof -
  have "(\<Sum>i<n. f i) = f p + (\<Sum>i\<in>{..<n} - {p}. f i)" using assms(2) by (simp add: sum.remove)
  then have "f p = 1" and "(\<Sum>i\<in>{..<n} - {p}. f i) = 0" using assms(1,3) by linarith+
  then show ?thesis using assms(4) by auto
qed

lemma child_count:
  assumes ok: "nodes_ok m ns" and p: "p < length ns" "x \<in> set (snd (ns ! p))" and a: "a < length ns"
  shows "count (mset (snd (ns ! a))) x = (if a = p then 1 else 0)"
proof -
  have x: "0 < x" "x < length ns" using nodes_okD [OF ok p] by simp_all
  have "(\<Sum>i<length ns. count (mset (snd (ns ! i))) x) = count (mset (concat (map snd ns))) x"
    by (simp add: mset_concat sum_list_sum_nth atLeast0LessThan count_sum)
  also have "\<dots> = 1" using x unfolding nodes_ok_concat [OF ok] by (simp add: distinct_count_atmost_1 [THEN iffD1])
  finally show ?thesis using sum_one [OF _ p(1) _ a] p(2) by simp
qed

lemma tree_addrs_ge:
  assumes ok: "nodes_ok m ns"
  shows "a < length ns \<Longrightarrow> x \<in># tree_addrs k ns a \<Longrightarrow> a \<le> x \<and> x < length ns"
proof (induction k arbitrary: a)
  case (Suc k)
  consider "x = a" | c where "c \<in> set (snd (ns ! a))" "x \<in># tree_addrs k ns c"
    using Suc.prems(2) by (auto simp: in_sum_list)
  then show ?case
  proof cases
    case 2
    then show ?thesis using Suc.IH [of c] nodes_okD [OF ok Suc.prems(1) 2(1)] by simp
  qed (use Suc.prems(1) in simp)
qed simp

lemma tree_addrs_count:
  assumes ok: "nodes_ok m ns" and p: "p < length ns" "x \<in> set (snd (ns ! p))"
  shows "a < length ns \<Longrightarrow> length ns - a \<le> k \<Longrightarrow>
    count (tree_addrs k ns a) x = (if a = x then 1 else 0) + count (tree_addrs k ns a) p"
proof (induction k arbitrary: a)
  case (Suc k)
  have "count (tree_addrs k ns c) x = (if c = x then 1 else 0) + count (tree_addrs k ns c) p"
    if "c \<in> set (snd (ns ! a))" for c
    using Suc.IH [of c] nodes_okD [OF ok Suc.prems(1) that] Suc.prems by simp
  then have "(\<Sum>c\<leftarrow>snd (ns ! a). count (tree_addrs k ns c) x) =
      (\<Sum>c\<leftarrow>snd (ns ! a). (if c = x then 1 else 0) + count (tree_addrs k ns c) p)"
    by (intro arg_cong [where f = sum_list] map_cong) simp_all
  also have "\<dots> = count (mset (snd (ns ! a))) x + (\<Sum>c\<leftarrow>snd (ns ! a). count (tree_addrs k ns c) p)"
    by (rule sum_list_if_eq)
  finally have "count (tree_addrs (Suc k) ns a) x =
      (if a = x then 1 else 0) + ((if a = p then 1 else 0) + (\<Sum>c\<leftarrow>snd (ns ! a). count (tree_addrs k ns c) p))"
    using child_count [OF ok p Suc.prems(1)] nodes_okD(1) [OF ok p] by (auto simp: count_sum_list)
  then show ?case by (simp add: count_sum_list)
qed simp

lemma tree_addrs_root:
  assumes ok: "nodes_ok m ns" and "length ns \<le> k"
  shows "tree_addrs k ns 0 = mset [0..<length ns]"
proof -
  note pos = nodes_ok_pos [OF ok]
  have one: "x < length ns \<Longrightarrow> count (tree_addrs k ns 0) x = 1" for x
  proof (induction x rule: less_induct)
    case (less x)
    show ?case
    proof (cases "x = 0")
      case True
      obtain k' where k: "k = Suc k'" using assms(2) pos by (cases k) auto
      have "count (tree_addrs k' ns c) 0 = 0" if "c \<in> set (snd (ns ! 0))" for c
        using tree_addrs_ge [OF ok, of c 0 k'] nodes_okD [OF ok pos that] by (metis count_inI leD)
      then show ?thesis using True k by (simp add: count_sum_list)
    next
      case False
      then have "x \<in># mset (concat (map snd ns))" using less.prems unfolding nodes_ok_concat [OF ok] by simp
      then obtain p where p: "p < length ns" "x \<in> set (snd (ns ! p))" by (auto simp: in_set_conv_nth [of _ ns])
      then show ?thesis
        using tree_addrs_count [OF ok p pos, of k] assms(2) False less.IH [of p] nodes_okD(1) [OF ok p] by simp
    qed
  qed
  have "count (tree_addrs k ns 0) x = count (mset [0..<length ns]) x" for x
  proof (cases "x < length ns")
    case False
    then have "x \<notin># tree_addrs k ns 0" using tree_addrs_ge [OF ok pos, of x k] by auto
    then show ?thesis using False by (simp add: not_in_iff)
  qed (simp add: one)
  then show ?thesis by (rule multiset_eqI)
qed

lemma tree_pids_nodes:
  assumes "nodes_ok m ns"
  shows "mset (tree_pids (tree_at (length ns) ns 0)) = mset (node_pids ns)"
proof -
  have "image_mset (\<lambda>b. PID (fst (ns ! b))) (mset [0..<length ns]) = mset (map (\<lambda>b. PID (fst (ns ! b))) [0..<length ns])"
    by simp
  also have "map (\<lambda>b. PID (fst (ns ! b))) [0..<length ns] = node_pids ns"
    by (rule nth_equalityI) simp_all
  finally show ?thesis using tree_pids_addrs [of "length ns" ns 0] tree_addrs_root [OF assms order.refl] by simp
qed

fun edges_ok :: "ppid_map \<Rightarrow> process_state \<Rightarrow> bool" where
  "edges_ok m (ProcessState i cs) \<longleftrightarrow> list_all (\<lambda>c. PID (info c) \<in> set (m (PID i)) \<and> edges_ok m c) cs"

lemma info_tree_at [simp]: "info (tree_at k ns a) = fst (ns ! a)"
  by (cases k) simp_all

lemma edges_ok_tree_at:
  assumes "nodes_ok m ns"
  shows "a < length ns \<Longrightarrow> edges_ok m (tree_at k ns a)"
  by (induction k arbitrary: a) (auto simp: list_all_iff dest: nodes_okD [OF assms])

section \<open>The scan of /proc\<close>

fun stat_entries :: "(goerr + string) list \<Rightarrow> (u32 \<times> u32) list" where
  "stat_entries [] = []"
| "stat_entries (Inl e # fs) = stat_entries fs"
| "stat_entries (Inr s # fs) =
     (case parseStatPIDPPID s of Inr (Some e) \<Rightarrow> if s = [] then stat_entries fs else e # stat_entries fs
      | _ \<Rightarrow> stat_entries fs)"

lemma ppid_loop_entries:
  "ppid_loop env i fs m = Inr m' \<Longrightarrow> m' = (\<lambda>p. m p @ map fst (filter (\<lambda>e. snd e = p) (stat_entries fs)))"
proof (induction fs arbitrary: i m)
  case (Cons f fs)
  show ?case
  proof (cases "\<exists>s pid ppid. f = Inr s \<and> s \<noteq> [] \<and> parseStatPIDPPID s = Inr (Some (pid, ppid))")
    case True
    then obtain s pid ppid where f: "f = Inr s" "s \<noteq> []" "parseStatPIDPPID s = Inr (Some (pid, ppid))" by blast
    then have "ppid_loop env (Suc i) fs (m(ppid := m ppid @ [pid])) = Inr m'"
      using Cons.prems by (simp split: option.splits)
    from Cons.IH [OF this] f show ?thesis by (auto intro!: ext)
  next
    case False
    then have "ppid_loop env (Suc i) fs m = Inr m'"
      using Cons.prems by (auto split: option.splits sum.splits if_splits)
    moreover have "stat_entries (f # fs) = stat_entries fs"
      using False by (cases f) (auto split: sum.split option.split)
    ultimately show ?thesis using Cons.IH [of "Suc i" m] by simp
  qed
qed simp

lemma buildPPIDMap_unique:
  assumes "statFiles env = Inr fs" and "buildPPIDMap env = Inr m" and "distinct (map fst (stat_entries fs))"
  shows "unique_parents m"
proof -
  have m: "m = (\<lambda>p. map fst (filter (\<lambda>e. snd e = p) (stat_entries fs)))"
    using assms(1,2) ppid_loop_entries [of env 0 fs "\<lambda>_. []" m] by (simp add: buildPPIDMap_def)
  have "distinct (m a)" for a
    using assms(3) by (simp add: m distinct_map_filter)
  moreover have "a = b" if "x \<in> set (m a)" "x \<in> set (m b)" for a b x
    using that assms(3) by (auto simp: m dest: eq_key_imp_eq_value)
  ultimately show ?thesis unfolding unique_parents_def by blast
qed

lemma FillProcessState_walk:
  assumes "statFiles env = Inr fs" and "buildPPIDMap env = Inr m" and "distinct (map fst (stat_entries fs))"
    and r: "pid \<notin> descendants m pid"
    and ok: "fillProcessNode env pid st0 = (None, st1)"
  shows "\<exists>pan ns. bfs_loop env (PHost st1) m 0 (map (\<lambda>c. (c, 0)) (m pid)) [(st1, [])] = Some (pan, ns)
    \<and> nodes_ok m ns \<and> distinct (node_pids ns) \<and> set (node_pids ns) \<subseteq> insert pid (descendants m pid)
    \<and> fst (ns ! 0) = st1
    \<and> ((\<forall>i. walkCtxErr env i = None) \<and> (\<forall>p\<in>descendants m pid. \<forall>st. fst (fillProcessNode env p st) = None)
        \<longrightarrow> pan = None \<and> set (node_pids ns) = insert pid (descendants m pid))"
proof -
  have u: "unique_parents m" using buildPPIDMap_unique assms(1-3) .
  have st1: "PID st1 = pid" using fillProcessNode_PID [of env pid st0] ok by simp
  have w: "walk_inv m pid [] (map fst (map (\<lambda>c. (c, 0)) (m pid))) (node_pids [(st1, [])])"
    using walk_inv_start [OF u, of pid] st1 by (simp add: comp_def)
  have n: "nodes_ok m [(st1, [])]" by (rule nodes_okI) simp_all
  have q: "queue_ok m [(st1, [])] (map (\<lambda>c. (c, 0)) (m pid))" using st1 by (auto simp: queue_ok_def)
  have z: "node_pids [(st1, [])] ! 0 = pid" using st1 by simp
  obtain pan ns where "bfs_loop env (PHost st1) m 0 (map (\<lambda>c. (c, 0)) (m pid)) [(st1, [])] = Some (pan, ns)"
      "nodes_ok m ns" "distinct (node_pids ns)" "set (node_pids ns) \<subseteq> insert pid (descendants m pid)" "fst (ns ! 0) = st1"
      and all: "(\<forall>i. walkCtxErr env i = None) \<and> set [] \<subseteq> set (node_pids [(st1, [])])
         \<and> (\<forall>p\<in>descendants m pid. fst (fillProcessNode env p (empty_info\<lparr>PHost := PHost st1\<rparr>)) = None)
        \<longrightarrow> pan = None \<and> set (node_pids ns) = insert pid (descendants m pid)"
    using bfs_loop_walk [OF u r w n q z, of env "PHost st1" 0] by auto
  then show ?thesis by (intro exI [of _ pan] exI [of _ ns]) simp
qed

section \<open>Properties\<close>

lemma FillProcessState_deep:
  assumes "\<And>p. fst (GetHost env) \<noteq> Some (Panic p)" and "buildPPIDMap env = Inr m"
    and "fillProcessNode env pid (with_host env old) = (None, st1)"
    and "bfs_loop env (PHost st1) m 0 (map (\<lambda>c. (c, 0)) (m pid)) [(st1, [])] = Some (pan, ns)"
  shows "FillProcessState env pid (ProcessState old cs) True =
    Some (if pan = None then errors_Join [fst (GetHost env)] else pan, tree_at (length ns) ns 0)"
  using assms by (auto simp: FillProcessState_def split: option.split goerr.split)

lemma FillProcessState_shallow:
  assumes "\<And>p. fst (GetHost env) \<noteq> Some (Panic p)" and "fillProcessNode env pid (with_host env (info st)) = (None, st1)"
  shows "FillProcessState env pid st False = Some (errors_Join [fst (GetHost env)], ProcessState st1 (Children st))"
  using assms by (auto simp: FillProcessState_def split: option.split goerr.split)

lemma FillProcessState_host_panic:
  "fst (GetHost env) = Some (Panic p) \<Longrightarrow> FillProcessState env pid st deep = Some (Some (Panic p), st)"
  by (simp add: FillProcessState_def)

lemma FillProcessState_node_error:
  assumes "\<And>p. fst (GetHost env) \<noteq> Some (Panic p)" and "fillProcessNode env pid (with_host env (info st)) = (Some e, st1)"
  shows "FillProcessState env pid st deep = Some (Some e, ProcessState (st1\<lparr>PID := pid\<rparr>) (Children st))"
  using assms by (auto simp: FillProcessState_def split: option.split goerr.split)

text \<open>
  C14: reading a process tree ends and meets nobody twice. If the scan of \<open>/proc\<close> saw every process
  once and the process is not its own descendant in it, \<open>FillProcessState\<close> returns or panics. If the host could be read without
  a panic, the processes of the tree filled so far are pairwise distinct, and every edge of that tree is a
  parent-child pair of the scan; processes that vanish during the walk and a cancelled context
  do not change this.
\<close>

theorem FillProcessState_terminates:
  assumes "statFiles env = Inr fs" and "buildPPIDMap env = Inr m" and "distinct (map fst (stat_entries fs))"
    and "pid \<notin> descendants m pid"
  shows "\<exists>err t. FillProcessState env pid (ProcessState old []) True = Some (err, t)
    \<and> ((\<forall>p. fst (GetHost env) \<noteq> Some (Panic p)) \<longrightarrow>
      distinct (tree_pids t) \<and> set (tree_pids t) \<subseteq> insert pid (descendants m pid) \<and> edges_ok m t)"
proof (cases "\<exists>p. fst (GetHost env) = Some (Panic p)")
  case True
  then show ?thesis using FillProcessState_host_panic by blast
next
  case no: False
  obtain err st1 where f: "fillProcessNode env pid (with_host env old) = (err, st1)" by (metis surj_pair)
  show ?thesis
  proof (cases err)
    case (Some e)
    then show ?thesis
      using f no FillProcessState_node_error [of env pid "ProcessState old []" e st1 True] by (simp add: tree_pids_def)
  next
    case None
    obtain pan ns where ns: "bfs_loop env (PHost st1) m 0 (map (\<lambda>c. (c, 0)) (m pid)) [(st1, [])] = Some (pan, ns)"
        "nodes_ok m ns" "distinct (node_pids ns)" "set (node_pids ns) \<subseteq> insert pid (descendants m pid)"
      using FillProcessState_walk [OF assms f [unfolded None]] by blast
    then show ?thesis
      using FillProcessState_deep [OF _ assms(2) f [unfolded None] ns(1), of "[]"] no
        tree_pids_nodes [OF ns(2)] edges_ok_tree_at [OF ns(2) nodes_ok_pos [OF ns(2)]]
      by (metis mset_eq_imp_distinct_iff mset_eq_setD)
  qed
qed

text \<open>
  C15: the tree is complete. Let the scan of \<open>/proc\<close> have seen every process once, the process not be its own descendant in it,
  the host be read without a panic, the process and its descendants be read without error, and the context not be cancelled. Then \<open>FillProcessState\<close> returns the tree whose root is
  the process, that holds the process and all its descendants, each exactly once, and that has every descendant directly
  below a process whose child it is according to the scan.
\<close>

theorem FillProcessState_complete:
  assumes "statFiles env = Inr fs" and "buildPPIDMap env = Inr m" and "distinct (map fst (stat_entries fs))"
    and "pid \<notin> descendants m pid" and "\<forall>i. walkCtxErr env i = None" and "\<forall>p. fst (GetHost env) \<noteq> Some (Panic p)"
    and "\<forall>p\<in>insert pid (descendants m pid). \<forall>st. fst (fillProcessNode env p st) = None"
  shows "\<exists>t. FillProcessState env pid (ProcessState old []) True = Some (errors_Join [fst (GetHost env)], t)
    \<and> PID (info t) = pid \<and> mset (tree_pids t) = mset_set (insert pid (descendants m pid)) \<and> edges_ok m t"
proof -
  have "fst (fillProcessNode env pid (with_host env old)) = None" using assms(7) by simp
  then obtain st1 where f: "fillProcessNode env pid (with_host env old) = (None, st1)" by (metis fst_conv surj_pair)
  obtain pan ns where ns: "bfs_loop env (PHost st1) m 0 (map (\<lambda>c. (c, 0)) (m pid)) [(st1, [])] = Some (pan, ns)"
      "nodes_ok m ns" "distinct (node_pids ns)" "fst (ns ! 0) = st1" "pan = None" "set (node_pids ns) = insert pid (descendants m pid)"
    using FillProcessState_walk [OF assms(1-4) f] assms(5,7) by auto
  have "FillProcessState env pid (ProcessState old []) True =
      Some (errors_Join [fst (GetHost env)], tree_at (length ns) ns 0)"
    using FillProcessState_deep [OF _ assms(2) f ns(1)] assms(6) ns(5) by simp
  moreover have "mset (tree_pids (tree_at (length ns) ns 0)) = mset_set (insert pid (descendants m pid))"
    unfolding tree_pids_nodes [OF ns(2)] using ns(3,6) by (metis mset_set_set)
  moreover have "PID (info (tree_at (length ns) ns 0)) = pid"
    using fillProcessNode_PID [of env pid "with_host env old"] f ns(4) by simp
  ultimately show ?thesis using edges_ok_tree_at [OF ns(2) nodes_ok_pos [OF ns(2)]] by blast
qed

text \<open>
  one unreadable field hides the descendants. The comment on \<open>FillProcessState\<close> says that it
  returns early only if the process does not exist; it also does when the process exists and, for
  example, its working directory cannot be read: the state keeps the children it had.
\<close>

theorem FillProcessState_partial_error:
  assumes "\<forall>p. fst (GetHost env) \<noteq> Some (Panic p)" and "newProcess env pid = None" and "cwdOf env pid = Inl e0" and "FillProcessState env pid state True = Some (err, t)"
  shows "err \<noteq> None \<and> Children t = Children state"
proof -
  obtain e st1 where f: "fillProcessNode env pid (with_host env (info state)) = (e, st1)" by (metis surj_pair)
  have cwd: "err_of (cwdOf env pid) = Some e0" using assms(3) by (simp add: err_of_def)
  have joined: "(\<exists>y. errors_Join es = Some y) \<longleftrightarrow> \<not> (\<forall>x\<in>set es. x = None)" for es
    using errors_Join_None [of es] by (metis not_None_eq)
  have "fst (fillProcessNode env pid (with_host env (info state))) \<noteq> None"
    using assms(2) by (simp add: fillProcessNode_def Let_def cwd joined split: sum.split)
  then obtain e' where "e = Some e'" using f by auto
  then show ?thesis using assms(4) f FillProcessState_node_error [of env pid state e' st1 True] assms(1) by auto
qed

lemma last_index_byte_append: "c \<notin> set ys \<Longrightarrow> last_index_byte (xs @ c # ys) c = Some (length xs)"
proof -
  assume no: "c \<notin> set ys"
  have none: "c \<notin> set zs \<Longrightarrow> last_index_byte zs c = None" for zs
    by (induction zs) auto
  show ?thesis by (induction xs) (simp_all add: none [OF no])
qed

lemma index_byte_append: "c \<notin> set xs \<Longrightarrow> index_byte (xs @ c # ys) c = Some (length xs)"
  by (induction xs) auto

lemma str_fields_acc_prefix:
  "\<forall>x\<in>set xs. \<not> is_space x \<Longrightarrow> str_fields_acc w (xs @ ys) = str_fields_acc (rev xs @ w) ys"
  by (induction xs arbitrary: w) auto

lemma str_fields_first_two:
  assumes "a \<noteq> []" "b \<noteq> []" and "\<forall>x\<in>set a. \<not> is_space x" "\<forall>x\<in>set b. \<not> is_space x"
    and "rest = [] \<or> is_space (hd rest)"
  shows "\<exists>fs. str_fields (a @ CHR '' '' # b @ rest) = a # b # fs"
proof -
  have sp: "is_space (CHR '' '')" by (simp add: is_space_def)
  have "str_fields (a @ CHR '' '' # b @ rest) = a # str_fields_acc (rev b) rest"
    using assms(1) sp by (simp add: str_fields_def str_fields_acc_prefix [OF assms(3)] str_fields_acc_prefix [OF assms(4)])
  moreover have "\<exists>fs. str_fields_acc (rev b) rest = b # fs"
    using assms(2,5) by (cases rest) auto
  ultimately show ?thesis by auto
qed

text \<open>
  C16: the command name cannot confuse the parser. For every process name, also one with spaces
  and parentheses, \<open>parseStatPIDPPID\<close> reads the PID and the parent's PID off a line of the form the
  kernel writes.
\<close>

theorem parseStatPIDPPID_line:
  assumes "st \<noteq> []" and "\<forall>x\<in>set st. \<not> is_space x \<and> x \<noteq> CHR '')''"
    and "CHR '')'' \<notin> set rest" and "rest = [] \<or> is_space (hd rest)"
  shows "parseStatPIDPPID (itoa (unat pid) @ '' ('' @ comm @ '') '' @ st @ '' '' @ itoa (unat ppid) @ rest)
    = Inr (Some (pid, ppid))"
proof -
  let ?p = "itoa (unat pid)" and ?q = "itoa (unat ppid)"
  let ?pre = "?p @ '' ('' @ comm" and ?post = "CHR '' '' # st @ CHR '' '' # ?q @ rest"
  let ?s = "?pre @ CHR '')'' # ?post"
  have clean: "\<forall>x\<in>set (itoa n). \<not> is_space x \<and> x \<noteq> CHR '' '' \<and> x \<noteq> CHR '')''" for n
    using itoa_digits [of n] is_digit_not_space by (fastforce simp: is_digit_def)
  have "CHR '')'' \<notin> set ?post" using assms(2,3) clean by auto
  then have l: "last_index_byte ?s (CHR '')'') = Some (length ?pre)"
    by (rule last_index_byte_append)
  have i: "index_byte ?s (CHR '' '') = Some (length ?p)"
    using index_byte_append [of "CHR '' ''" ?p "''('' @ comm @ CHR '')'' # ?post"] clean [of "unat pid"] by auto
  have d: "drop (length ?pre + 2) ?s = st @ CHR '' '' # ?q @ rest"
    using append_eq_conv_conj [of "?pre @ '') ''" "st @ CHR '' '' # ?q @ rest" ?s] by simp
  obtain fs where f: "str_fields (st @ CHR '' '' # ?q @ rest) = st # ?q # fs"
    using str_fields_first_two [of st ?q rest] assms clean by auto
  have "parseStatPIDPPID ?s = Inr (Some (pid, ppid))"
    unfolding parseStatPIDPPID_def l i option.case d f using parse_uint32_itoa assms(1) by simp
  then show ?thesis by simp
qed

text \<open>
  \<open>WalkTree\<close> is a visit in preorder. It calls the function on the values of a node, then on those of
  its children from left to right, and stops for good at the first call that returns false.
\<close>

theorem WalkTree_preorder:
  "WalkTree field fn t s = walk_values fn (preorder field t) s"
  by (rule WalkTree_preorder_both)

text \<open>
  the last assignment of an environment variable wins.
\<close>

theorem Getenv_last:
  assumes "\<forall>e\<in>set later. \<not> has_prefix e (key @ ''='')"
  shows "Getenv (earlier @ [key @ ''='' @ v] @ later) key d = v"
proof -
  have skip: "\<forall>e\<in>set es. \<not> has_prefix e p \<Longrightarrow> getenv_loop p (es @ fs) = getenv_loop p fs" for es fs p
    by (induction es) auto
  show ?thesis
    using skip [of "rev later" "key @ ''=''"] assms by (simp add: Getenv_def has_prefix_def)
qed

section \<open>Witnesses\<close>

text \<open>
  A system with the processes 1 and 7, the second a child of the first with an awkward name, in
  which \<open>bad\<close> says whether the working directory of process 1 is unreadable.
\<close>

definition two_procs :: "bool \<Rightarrow> proc_env" where
  "two_procs bad = \<lparr>cpuInfo = Inl (Errorf ''none''), cpuCounts = Inl (Errorf ''none''), virtualMemory = Inl (Errorf ''none''),
     hostInfo = Inl (Errorf ''none''), interfaces = Inr [], newProcess = (\<lambda>_. None), cmdlineOf = (\<lambda>_. Inr ''sh''),
     createTime = (\<lambda>_. Inr 5), getsid = (\<lambda>_. Inr 1), uidsOf = (\<lambda>_. Inr [0]), gidsOf = (\<lambda>_. Inr [0]), groupsOf = (\<lambda>_. Inr []),
     openFilesOf = (\<lambda>_. Inr []), osStat = (\<lambda>_. Inl (Errorf ''none'')), fdinfoFile = (\<lambda>_ _. Inl (Errorf ''none'')),
     ttyOf = (\<lambda>_. Inr False), openMountinfo = (\<lambda>_. None), mountsOf = (\<lambda>_. Inr []), connectionsOf = (\<lambda>_. Inr []),
     statusOf = (\<lambda>_. Inr [''sleep'']), cwdOf = (\<lambda>p. if bad \<and> p = 1 then Inl (Errorf ''permission denied'') else Inr ''/''),
     statFiles = Inr [Inr ''1 (init) S 0 1'', Inl (Errorf ''gone''), Inr ''7 (a ) b) S 1 1''],
     scanCtxErr = (\<lambda>_. None), walkCtxErr = (\<lambda>_. None)\<rparr>"

definition two_map :: ppid_map where
  "two_map = (\<lambda>_. [])(0 := [1], 1 := [7])"

lemma two_parse:
  "parseStatPIDPPID ''1 (init) S 0 1'' = Inr (Some (1, 0))"
  "parseStatPIDPPID ''7 (a ) b) S 1 1'' = Inr (Some (7, 1))"
  by (simp_all add: parseStatPIDPPID_def parse_uint32_def str_fields_def is_space_def is_digit_def digit_val_def)

lemma two_procs_map: "buildPPIDMap (two_procs bad) = Inr two_map"
  by (simp add: buildPPIDMap_def two_procs_def two_parse two_map_def)

lemma two_procs_scan:
  "statFiles (two_procs bad) = Inr [Inr ''1 (init) S 0 1'', Inl (Errorf ''gone''), Inr ''7 (a ) b) S 1 1'']"
  "distinct (map fst (stat_entries [Inr ''1 (init) S 0 1'', Inl (Errorf ''gone''), Inr ''7 (a ) b) S 1 1'']))"
  by (simp_all add: two_procs_def two_parse)

lemma descendants_subset:
  assumes "set (m r) \<subseteq> S" and "\<forall>x\<in>S. set (m x) \<subseteq> S"
  shows "descendants m r \<subseteq> S"
proof -
  have "x \<in> S" if "(r, x) \<in> (child_rel m)\<^sup>+" for x
    using that by (induction rule: trancl_induct) (use assms in \<open>auto simp: child_rel_def\<close>)
  then show ?thesis by (auto simp: descendants_def)
qed

lemma two_descendants: "descendants two_map 1 = {7}"
proof
  show "descendants two_map 1 \<subseteq> {7}"
    by (rule descendants_subset) (simp_all add: two_map_def)
  show "{7} \<subseteq> descendants two_map 1"
    by (auto simp: descendants_def child_rel_def two_map_def)
qed

lemma two_ctx: "walkCtxErr (two_procs bad) i = None"
  by (simp add: two_procs_def)

lemma two_fill: "fst (fillProcessNode (two_procs False) p st) = None"
  by (simp add: fillProcessNode_def two_procs_def err_of_def mounts_result_def)

lemma two_fill_bad: "\<exists>e st1. fillProcessNode (two_procs True) 1 st = (Some e, st1)"
  by (simp add: fillProcessNode_def two_procs_def err_of_def mounts_result_def errors_Join_def)

lemma two_host [simp]: "fst (GetHost (two_procs bad)) \<noteq> Some (Panic p)"
  by (simp add: GetHost_def FillHost_def two_procs_def err_of_def errors_Join_def)

theorem FillProcessState_terminates_witness:
  "\<exists>err t. FillProcessState (two_procs True) 1 (ProcessState empty_info []) True = Some (err, t)
    \<and> distinct (tree_pids t) \<and> set (tree_pids t) \<subseteq> insert 1 (descendants two_map 1) \<and> edges_ok two_map t"
  using FillProcessState_terminates [OF two_procs_scan(1) [of True] two_procs_map two_procs_scan(2), where pid = 1 and old = empty_info]
  by (simp add: two_descendants)

theorem FillProcessState_complete_witness:
  "\<exists>err t. FillProcessState (two_procs False) 1 (ProcessState empty_info []) True = Some (err, t)
    \<and> mset (tree_pids t) = {#1, 7#} \<and> edges_ok two_map t"
  using FillProcessState_complete [OF two_procs_scan(1) [of False] two_procs_map two_procs_scan(2), where pid = 1 and old = empty_info]
  by (auto simp: two_descendants two_fill two_ctx)

theorem FillProcessState_partial_error_witness:
  "\<exists>err t. FillProcessState (two_procs True) 1 (ProcessState empty_info []) True = Some (err, t) \<and> err \<noteq> None \<and> Children t = []"
proof -
  have e: "newProcess (two_procs True) 1 = None" "cwdOf (two_procs True) 1 = Inl (Errorf ''permission denied'')"
    by (simp_all add: two_procs_def)
  obtain err t where r: "FillProcessState (two_procs True) 1 (ProcessState empty_info []) True = Some (err, t)"
    using two_fill_bad [of "with_host (two_procs True) empty_info"] FillProcessState_node_error [of "two_procs True" 1 "ProcessState empty_info []"] by fastforce
  show ?thesis using FillProcessState_partial_error [OF _ e r] r by simp
qed

theorem parseStatPIDPPID_line_witness:
  "parseStatPIDPPID (itoa (unat (7 :: u32)) @ '' ('' @ ''a ) b'' @ '') '' @ ''S'' @ '' '' @ itoa (unat (1 :: u32)) @ '' 1'') = Inr (Some (7, 1))"
  by (rule parseStatPIDPPID_line) (simp_all add: is_space_def)

theorem Getenv_last_witness:
  "Getenv ([''A=1''] @ [''A'' @ ''='' @ ''2''] @ [''B=3'']) ''A'' [] = ''2''"
  by (rule Getenv_last) (simp add: has_prefix_def)

end
