(* ===== verification/Features.thy ===== *)
theory Features
  imports Go_Strings
begin

text \<open>
  \<^bold>\<open>pkg/plugins/feature.go\<close>: calling what plugins export. The loaded plugins are the list of their names and what
  looking the feature's symbol up in them gives, in the order in which Go happens to
  iterate over the map.
\<close>

text \<open>\<open>Exported\<close> carries the symbol; the other results are those the code tells apart.\<close>

datatype 'a symbol = NotExported | Incompatible string string | NilSymbol | Exported 'a

type_synonym 'a loaded = "(string \<times> 'a symbol) list"

text \<open>A call into a plugin returns or panics.\<close>

datatype call_result = Returned error | Panicked

definition StrList :: "string list \<Rightarrow> string" where
  "StrList xs = join '', '' xs"

definition quoted :: "string \<Rightarrow> string" where
  "quoted s = CHR 0x27 # s @ [CHR 0x27]"

definition exports_no :: "string \<Rightarrow> string \<Rightarrow> goerr" where
  "exports_no name feature = Errorf (''plugin '' @ quoted name @ '' exports no '' @ quoted feature)"

definition incompatible :: "string \<Rightarrow> string \<Rightarrow> string \<Rightarrow> string \<Rightarrow> goerr" where
  "incompatible name feature expected got =
     Errorf (''plugin '' @ quoted name @ '' has incompatible '' @ quoted feature @ ''. expected '' @ quoted expected @ '', got '' @ quoted got)"

definition selected :: "string list \<Rightarrow> string \<Rightarrow> bool" where
  "selected filt name \<longleftrightarrow> filt = [] \<or> name \<in> set filt"

text \<open>
  The loop of \<open>IfAvailable\<close>. A panic inside the call unwinds to the deferred \<open>RecoverFromPanic\<close>, which ends the
  function with its zero result: the last component says so.
\<close>

fun if_available_loop :: "string \<Rightarrow> (string \<Rightarrow> 'a \<Rightarrow> 's \<Rightarrow> call_result \<times> 's) \<Rightarrow> string list \<Rightarrow> 'a loaded \<Rightarrow> error list \<Rightarrow> bool \<Rightarrow> 's \<Rightarrow>
    (error list \<times> bool \<times> bool) \<times> 's" where
  "if_available_loop feature do filt [] errs noValid s = ((errs, noValid, False), s)"
| "if_available_loop feature do filt ((name, sy) # ps) errs noValid s =
     (if \<not> selected filt name then if_available_loop feature do filt ps errs noValid s
      else (case sy of
          NotExported \<Rightarrow> if_available_loop feature do filt ps (errs @ [Some (exports_no name feature)]) False s
        | Incompatible expected got \<Rightarrow> if_available_loop feature do filt ps (errs @ [Some (incompatible name feature expected got)]) False s
        | NilSymbol \<Rightarrow> if_available_loop feature do filt ps (errs @ [Some (exports_no name feature)]) False s
        | Exported v \<Rightarrow>
          (case do name v s of
             (Returned e, s') \<Rightarrow> if_available_loop feature do filt ps (errs @ [e]) False s'
           | (Panicked, s') \<Rightarrow> ((errs, False, True), s'))))"

definition IfAvailable :: "string \<Rightarrow> (string \<Rightarrow> 'a \<Rightarrow> 's \<Rightarrow> call_result \<times> 's) \<Rightarrow> string list \<Rightarrow> 'a loaded \<Rightarrow> 's \<Rightarrow> error \<times> 's" where
  "IfAvailable feature do filt ps s =
     (case if_available_loop feature do filt ps [] True s of
        ((_, _, True), s') \<Rightarrow> (None, s')
      | ((errs, noValid, False), s') \<Rightarrow>
          (errors_Join (if noValid then errs @ [Some (Errorf (''plugin(s) '' @ StrList filt @ '' were not found''))] else errs), s'))"

fun is_available_loop :: "string \<Rightarrow> string list \<Rightarrow> 'a loaded \<Rightarrow> bool \<Rightarrow> error list \<Rightarrow> bool \<times> error list" where
  "is_available_loop feature filt [] av errs = (av, errs)"
| "is_available_loop feature filt ((name, sy) # ps) av errs =
     (if \<not> selected filt name then is_available_loop feature filt ps av errs
      else (case sy of
          NotExported \<Rightarrow> is_available_loop feature filt ps av errs
        | Incompatible expected got \<Rightarrow> is_available_loop feature filt ps av (errs @ [Some (incompatible name feature expected got)])
        | NilSymbol \<Rightarrow> is_available_loop feature filt ps av (errs @ [Some (exports_no name feature)])
        | Exported v \<Rightarrow> is_available_loop feature filt ps True errs))"

definition IsAvailable :: "string \<Rightarrow> string list \<Rightarrow> 'a loaded \<Rightarrow> bool \<times> error" where
  "IsAvailable feature filt ps = (case is_available_loop feature filt ps False [] of (av, errs) \<Rightarrow> (av, errors_Join errs))"

section \<open>Facts\<close>

text \<open>The calls that are made when nothing panics: one per selected plugin that exports the symbol, in order.\<close>

definition exporters :: "string list \<Rightarrow> 'a loaded \<Rightarrow> (string \<times> 'a) list" where
  "exporters filt ps = concat (map (\<lambda>(n, sy). case sy of Exported v \<Rightarrow> if selected filt n then [(n, v)] else [] | _ \<Rightarrow> []) ps)"

fun call_all :: "(string \<Rightarrow> 'a \<Rightarrow> 's \<Rightarrow> call_result \<times> 's) \<Rightarrow> (string \<times> 'a) list \<Rightarrow> 's \<Rightarrow> 's" where
  "call_all do [] s = s"
| "call_all do ((n, v) # xs) s = call_all do xs (snd (do n v s))"

text \<open>No call of the sequence panics, each in the state that the calls before it have left.\<close>

fun no_panic :: "(string \<Rightarrow> 'a \<Rightarrow> 's \<Rightarrow> call_result \<times> 's) \<Rightarrow> (string \<times> 'a) list \<Rightarrow> 's \<Rightarrow> bool" where
  "no_panic do [] s \<longleftrightarrow> True"
| "no_panic do ((n, v) # xs) s \<longleftrightarrow> fst (do n v s) \<noteq> Panicked \<and> no_panic do xs (snd (do n v s))"

text \<open>What plugin number \<open>i\<close> contributes to the error of the caller.\<close>

definition plugin_error :: "string \<Rightarrow> (string \<Rightarrow> 'a \<Rightarrow> 's \<Rightarrow> call_result \<times> 's) \<Rightarrow> string list \<Rightarrow> 'a loaded \<Rightarrow> 's \<Rightarrow> nat \<Rightarrow> error" where
  "plugin_error feature do filt ps s i =
     (case ps ! i of (name, sy) \<Rightarrow>
       (case sy of
          NotExported \<Rightarrow> Some (exports_no name feature)
        | NilSymbol \<Rightarrow> Some (exports_no name feature)
        | Incompatible expected got \<Rightarrow> Some (incompatible name feature expected got)
        | Exported v \<Rightarrow> (case fst (do name v (call_all do (exporters filt (take i ps)) s)) of Returned e \<Rightarrow> e | Panicked \<Rightarrow> None)))"

definition chosen :: "string list \<Rightarrow> 'a loaded \<Rightarrow> nat list" where
  "chosen filt ps = filter (\<lambda>i. selected filt (fst (ps ! i))) [0..<length ps]"

lemma exporters_simps [simp]:
  "exporters filt [] = []"
  "exporters filt ((n, sy) # ps) = (case sy of Exported v \<Rightarrow> if selected filt n then [(n, v)] else [] | _ \<Rightarrow> []) @ exporters filt ps"
  by (simp_all add: exporters_def)

lemma chosen_Nil [simp]: "chosen filt [] = []"
  by (simp add: chosen_def)

lemma chosen_Cons [simp]: "chosen filt (p # ps) = (if selected filt (fst p) then [0] else []) @ map Suc (chosen filt ps)"
proof -
  have u: "[0..<length (p # ps)] = 0 # map Suc [0..<length ps]"
    by (simp add: upt_conv_Cons map_Suc_upt del: upt_Suc)
  show ?thesis unfolding chosen_def u by (simp add: filter_map o_def)
qed

lemma call_all_append [simp]: "call_all do (xs @ ys) s = call_all do ys (call_all do xs s)"
  by (induction do xs s rule: call_all.induct) simp_all

lemma plugin_error_Suc [simp]:
  "plugin_error feature do filt (p # ps) s (Suc i) = plugin_error feature do filt ps (call_all do (exporters filt [p]) s) i"
  by (cases p) (simp add: plugin_error_def split: prod.split symbol.split)

lemma if_available_loop_calls:
  assumes "no_panic do (exporters filt ps) s"
  shows "if_available_loop feature do filt (ps @ qs) errs noValid s =
    if_available_loop feature do filt qs (errs @ map (plugin_error feature do filt ps s) (chosen filt ps))
      (noValid \<and> chosen filt ps = []) (call_all do (exporters filt ps) s)"
  using assms
proof (induction ps arbitrary: errs noValid s)
  case (Cons p ps)
  obtain name sy where p: "p = (name, sy)" by (cases p)
  note IH = Cons.IH [of "call_all do (exporters filt [p]) s"]
  show ?case
  proof (cases "selected filt name")
    case sel: True
    show ?thesis
    proof (cases sy)
      case (Exported v)
      obtain r s' where d: "do name v s = (r, s')" by (cases "do name v s")
      then obtain e where r: "r = Returned e" using Cons.prems p Exported sel by (cases r) auto
      have "plugin_error feature do filt (p # ps) s 0 = e" using p Exported d r by (simp add: plugin_error_def)
      then show ?thesis using IH Cons.prems p Exported d r sel by (simp add: o_def)
    qed (use IH Cons.prems p sel in \<open>simp_all add: o_def plugin_error_def [of _ _ _ _ _ 0]\<close>)
  next
    case False
    then have "exporters filt [p] = []" using p by (cases sy) simp_all
    then show ?thesis using IH Cons.prems p False by (cases sy) (simp_all add: o_def)
  qed
qed simp

text \<open>
  C19: when no call panics, \<open>IfAvailable\<close> calls the function once for each selected plugin that exports the symbol, in
  order and whatever errors the calls return. Its result joins one error per selected plugin, in order: the one the call returned, or that the
  symbol is missing, nil or of another type. If no plugin is selected, the error says that none was found.
\<close>

theorem IfAvailable_calls_all:
  assumes "no_panic do (exporters filt ps) s"
  shows "IfAvailable feature do filt ps s =
    (errors_Join (if chosen filt ps = [] then [Some (Errorf (''plugin(s) '' @ StrList filt @ '' were not found''))]
                  else map (plugin_error feature do filt ps s) (chosen filt ps)),
     call_all do (exporters filt ps) s)"
  using if_available_loop_calls [OF assms, of feature "[]" "[]" True] by (simp add: IfAvailable_def)

text \<open>
  C20: a panic in a plugin looks like success. If the call of some selected plugin panics, whichever of them is the first to do so,
  \<open>IfAvailable\<close> returns nil: the errors of the plugins before it are dropped and the plugins after it are not called.
\<close>

theorem IfAvailable_panic_is_success:
  assumes "selected filt name" and "no_panic do (exporters filt qs) s"
    and "fst (do name v (call_all do (exporters filt qs) s)) = Panicked"
  shows "IfAvailable feature do filt (qs @ (name, Exported v) # ps) s =
    (None, snd (do name v (call_all do (exporters filt qs) s)))"
  using assms(1,3) if_available_loop_calls [OF assms(2), of feature "(name, Exported v) # ps" "[]" True]
  by (cases "do name v (call_all do (exporters filt qs) s)") (simp add: IfAvailable_def)

text \<open>A filter of one name calls one plugin at most, since the registry has one entry per name.\<close>

lemma if_available_loop_absent:
  "t \<notin> fst ` set ps \<Longrightarrow> snd (if_available_loop feature do [t] ps errs noValid s) = s"
  by (induction ps arbitrary: errs noValid) (auto simp: selected_def)

lemma if_available_loop_single:
  assumes "distinct (map fst ps)"
  shows "(let s' = snd (if_available_loop feature do [t] ps errs noValid s) in s' = s \<or> (\<exists>v. s' = snd (do t v s)))"
  using assms
proof (induction ps arbitrary: errs noValid)
  case (Cons p ps)
  obtain name sy where p: "p = (name, sy)" by (cases p)
  show ?case
  proof (cases "name = t")
    case True
    then have "snd (if_available_loop feature do [t] ps errs' nv s') = s'" for errs' nv s'
      using Cons.prems p by (intro if_available_loop_absent) simp
    note skip = this
    show ?thesis
    proof (cases sy)
      case (Exported v)
      obtain r s' where d: "do t v s = (r, s')" by (cases "do t v s")
      then have "snd (if_available_loop feature do [t] (p # ps) errs noValid s) = snd (do t v s)"
        using skip p True Exported by (cases r) (simp_all add: selected_def)
      then show ?thesis by (auto simp: Let_def)
    qed (use skip p True in \<open>simp_all add: selected_def\<close>)
  next
    case False
    then show ?thesis using Cons p by (simp add: selected_def)
  qed
qed simp

lemma IfAvailable_single:
  assumes "distinct (map fst ps)"
  obtains "snd (IfAvailable feature do [t] ps s) = s" | v where "snd (IfAvailable feature do [t] ps s) = snd (do t v s)"
proof -
  obtain errs nv pan s' where r: "if_available_loop feature do [t] ps [] True s = ((errs, nv, pan), s')"
    by (metis surj_pair)
  then have "snd (IfAvailable feature do [t] ps s) = s'" by (cases pan) (simp_all add: IfAvailable_def)
  then show thesis using if_available_loop_single [OF assms, of feature do t "[]" True s] r that by auto
qed

theorem IfAvailable_calls_all_witness:
  "IfAvailable ''Cleanup'' (\<lambda>n v s. (Returned (Some (Errorf ''failed'')), s @ [n])) [] [(''a'', Exported ()), (''b'', NilSymbol), (''c'', Exported ())] []
    = (errors_Join [Some (Errorf ''failed''), Some (exports_no ''b'' ''Cleanup''), Some (Errorf ''failed'')], [''a'', ''c''])"
  using IfAvailable_calls_all [of "\<lambda>n v s. (Returned (Some (Errorf ''failed'')), s @ [n])" "[]"
      "[(''a'', Exported ()), (''b'', NilSymbol), (''c'', Exported ())]" "[]" "''Cleanup''"]
  by (simp add: selected_def plugin_error_def)

theorem IfAvailable_panic_is_success_witness:
  "IfAvailable ''Cleanup'' (\<lambda>n v s. (if n = ''b'' then Panicked else Returned (Some (Errorf ''failed'')), s @ [n])) []
     [(''a'', Exported ()), (''b'', Exported ()), (''c'', Exported ())] [] = (None, [''a'', ''b''])"
  using IfAvailable_panic_is_success [of "[]" "''b''" "\<lambda>n v s. (if n = ''b'' then Panicked else Returned (Some (Errorf ''failed'')), s @ [n])"
      "[(''a'', Exported ())]" "[]" "()" "''Cleanup''" "[(''c'', Exported ())]"]
  by (simp add: selected_def)

end
