(* ===== verification/Job.thy ===== *)
theory Job
  imports Db_Sqlite Process_Tree Features
begin

text \<open>
  \<^bold>\<open>internal/cedana/job/job.go\<close>: a job is the protobuf message it wraps and the channel that reports that it is
  done. The read-write lock of a job makes each method atomic, so a method is a function on the job. A method that
  reads the state of the process tree returns only if that walk does; \<open>None\<close> is the call that does not return.
\<close>

section \<open>Data\<close>

text \<open>A \<open>chan error\<close> of capacity one: what it holds, and whether it is closed.\<close>

record err_chan =
  chanBuf :: "error list"
  chanClosed :: bool

record job =
  JID :: string
  job_msg :: job_proto
  job_done :: "err_chan option"

text \<open>What the system answers while a job is read: the processes, the host's identifier, which log files exist.\<close>

record job_env =
  procs :: proc_env
  hostID :: "goerr + string"
  logMissing :: "string \<Rightarrow> bool"
  getpgid :: "u32 \<Rightarrow> goerr + u32"

definition newJob :: "string \<Rightarrow> string \<Rightarrow> host_rec option \<Rightarrow> job" where
  "newJob jid jobType host =
     \<lparr>JID = jid,
      job_msg = \<lparr>jJID = jid, jType = jobType, jLog = [], jDetails = None,
        jState = Some (ProcessState (empty_info\<lparr>PHost := host\<rparr>) [])\<rparr>,
      job_done = None\<rparr>"

definition fromProto :: "job_proto \<Rightarrow> job" where
  "fromProto j =
     \<lparr>JID = jJID j,
      job_msg = \<lparr>jJID = jJID j, jType = jType j, jLog = jLog j, jDetails = jDetails j, jState = jState j\<rparr>,
      job_done = None\<rparr>"

section \<open>Getters and setters\<close>

definition GetPID :: "job \<Rightarrow> u32" where
  "GetPID j = PID (state_of (job_msg j))"

definition GetPGID :: "job_env \<Rightarrow> job \<Rightarrow> u32" where
  "GetPGID env j =
     (if GetPID j = 0 then 0
      else (case getpgid env (GetPID j) of Inl _ \<Rightarrow> 0 | Inr pgid \<Rightarrow> pgid))"

definition GetProto :: "job \<Rightarrow> job_proto" where
  "GetProto j = job_msg j"

definition GetType :: "job \<Rightarrow> string" where
  "GetType j = jType (job_msg j)"

definition GetState :: "job \<Rightarrow> process_state option" where
  "GetState j = jState (job_msg j)"

definition GetDetails :: "job \<Rightarrow> details option" where
  "GetDetails j = jDetails (job_msg j)"

text \<open>Assigning the JID through a nil pointer panics; \<open>None\<close> stands for that.\<close>

definition SetDetails :: "details option \<Rightarrow> job \<Rightarrow> job option" where
  "SetDetails ds j =
     (case ds of None \<Rightarrow> None
      | Some d \<Rightarrow> Some (j\<lparr>job_msg := (job_msg j)\<lparr>jDetails := Some (d\<lparr>dJID := Some (JID j)\<rparr>)\<rparr>\<rparr>))"

definition GetLog :: "job \<Rightarrow> string" where
  "GetLog j = jLog (job_msg j)"

definition SetLog :: "string \<Rightarrow> job \<Rightarrow> job" where
  "SetLog log j = j\<lparr>job_msg := (job_msg j)\<lparr>jLog := log\<rparr>\<rparr>"

definition update_state :: "(proc_info \<Rightarrow> proc_info) \<Rightarrow> job \<Rightarrow> job" where
  "update_state f j = j\<lparr>job_msg := (job_msg j)\<lparr>jState :=
     (case jState (job_msg j) of
        None \<Rightarrow> Some (ProcessState (f empty_info) [])
      | Some s \<Rightarrow> Some (ProcessState (f (info s)) (Children s)))\<rparr>\<rparr>"

definition SetPID :: "u32 \<Rightarrow> job \<Rightarrow> job" where
  "SetPID pid j = update_state (\<lambda>s. s\<lparr>PID := pid\<rparr>) j"

definition SetGPUEnabled :: "bool \<Rightarrow> job \<Rightarrow> job" where
  "SetGPUEnabled en j = update_state (\<lambda>s. s\<lparr>GPUEnabled := en\<rparr>) j"

definition job_IsRunning :: "job \<Rightarrow> bool" where
  "job_IsRunning j = IsRunning (state_of (job_msg j))"

definition Status :: "job \<Rightarrow> string" where
  "Status j = PStatus (state_of (job_msg j))"

definition IsRemote :: "job \<Rightarrow> bool" where
  "IsRemote j \<longleftrightarrow> PStatus (state_of (job_msg j)) = ''remote''"

definition job_GPUEnabled :: "job \<Rightarrow> bool" where
  "job_GPUEnabled j = GPUEnabled (state_of (job_msg j))"

section \<open>Refreshing\<close>

definition latestState :: "job_env \<Rightarrow> bool \<Rightarrow> job \<Rightarrow> process_state option" where
  "latestState env deep j =
     (case jState (job_msg j) of
        None \<Rightarrow> Some (ProcessState (empty_info\<lparr>PStatus := ''unknown'', IsRunning := False\<rparr>) [])
      | Some st \<Rightarrow>
        (let s = info st; put = (\<lambda>i. ProcessState i (Children st)) in
         if (case hostID env of Inl _ \<Rightarrow> False | Inr h \<Rightarrow> host_id s \<noteq> [] \<and> host_id s \<noteq> h)
         then Some (put (s\<lparr>PStatus := ''remote'', IsRunning := False\<rparr>))
         else if newProcess (procs env) (PID s) \<noteq> None
         then Some (put (s\<lparr>PStatus := ''halted'', IsRunning := False\<rparr>))
         else
           (let s2 = s\<lparr>PStatus := ''stale'', IsRunning := True\<rparr> in
            if Cmdline s \<noteq> [] \<and> cmdlineOf (procs env) (PID s) \<noteq> Inr (Cmdline s)
            then Some (put s2)
            else (case FillProcessState (procs env) (PID s) (put s2) deep of
                None \<Rightarrow> None
              | Some (Some (Panic _), _) \<Rightarrow> None
              | Some (_, st') \<Rightarrow> Some st'))))"

definition latestLog :: "job_env \<Rightarrow> job \<Rightarrow> string" where
  "latestLog env j = (if logMissing env (jLog (job_msg j)) then [] else jLog (job_msg j))"

text \<open>\<open>Sync\<close> and \<open>SyncDeep\<close> differ in the depth of the walk; a state passed in replaces the walk.\<close>

definition job_sync :: "job_env \<Rightarrow> bool \<Rightarrow> process_state option \<Rightarrow> job \<Rightarrow> job option" where
  "job_sync env deep given j =
     map_option (\<lambda>st. j\<lparr>job_msg := (job_msg j)\<lparr>jState := Some st, jLog := latestLog env j\<rparr>\<rparr>)
       (case given of Some st \<Rightarrow> Some st | None \<Rightarrow> latestState env deep j)"

definition Sync :: "job_env \<Rightarrow> process_state option \<Rightarrow> job \<Rightarrow> job option" where
  "Sync env given j = job_sync env False given j"

definition SyncDeep :: "job_env \<Rightarrow> process_state option \<Rightarrow> job \<Rightarrow> job option" where
  "SyncDeep env given j = job_sync env True given j"

section \<open>What refreshing keeps\<close>

lemma add_child_root: "ns \<noteq> [] \<Longrightarrow> fst (add_child parent st ns ! 0) = fst (ns ! 0) \<and> add_child parent st ns \<noteq> []"
  by (cases "parent = 0") (auto simp: add_child_def nth_append nth_list_update)

lemma bfs_loop_root:
  assumes "bfs_loop env h m i q ns = Some r"
  shows "ns \<noteq> [] \<longrightarrow> fst (snd r ! 0) = fst (ns ! 0)"
proof (rule bfs_loop.raw_induct [where P = "\<lambda>env h m i q ns r. ns \<noteq> [] \<longrightarrow> fst (snd r ! 0) = fst (ns ! 0)", OF _ assms])
  fix bfs env h m i q ns and r :: "error \<times> nodes"
  assume IH: "\<And>env h m i q ns r. bfs env h m i q ns = Some r \<Longrightarrow> ns \<noteq> [] \<longrightarrow> fst (snd r ! 0) = fst (ns ! 0)"
    and body: "(case q of [] \<Rightarrow> Some (None, ns)
      | (pid, parent) # rest \<Rightarrow>
        if walkCtxErr env i \<noteq> None then Some (None, ns)
        else (case fillProcessNode env pid (empty_info\<lparr>PHost := h\<rparr>) of
            (Some (Panic p), _) \<Rightarrow> Some (Some (Panic p), ns)
          | (Some _, _) \<Rightarrow> bfs env h m (Suc i) rest ns
          | (None, st) \<Rightarrow>
              bfs env h m (Suc i) (rest @ map (\<lambda>c. (c, length ns)) (m pid)) (add_child parent st ns))) = Some r"
  show "ns \<noteq> [] \<longrightarrow> fst (snd r ! 0) = fst (ns ! 0)"
  proof (cases q)
    case Nil
    then show ?thesis using body by auto
  next
    case (Cons e rest)
    obtain pid parent where e: "e = (pid, parent)" by (cases e)
    obtain err st where f: "fillProcessNode env pid (empty_info\<lparr>PHost := h\<rparr>) = (err, st)" by (metis surj_pair)
    show ?thesis
    proof (cases "walkCtxErr env i")
      case None
      then show ?thesis
        using body Cons e f add_child_root [of ns parent st] by (cases err) (auto dest!: IH split: goerr.splits)
    next
      case (Some a)
      then show ?thesis using body Cons e by auto
    qed
  qed
qed

lemma FillProcessState_PID:
  assumes a: "FillProcessState env pid st deep = Some (e, t)" and k: "e = None \<or> PID (info st) = pid"
  shows "PID (info t) = pid"
proof (cases "\<exists>p. fst (GetHost env) = Some (Panic p)")
  case True
  then show ?thesis using a k FillProcessState_host_panic by fastforce
next
  case no: False
  obtain err st1 where f: "fillProcessNode env pid (with_host env (info st)) = (err, st1)" by (metis surj_pair)
  have p: "PID st1 = pid" using fillProcessNode_PID [of env pid "with_host env (info st)"] f by simp
  show ?thesis
    using a f p no by (cases err)
      (auto simp: FillProcessState_def split: option.splits goerr.splits if_splits sum.splits dest!: bfs_loop_root)
qed

lemma filled_PID:
  assumes "FillProcessState env (PID s) (ProcessState (s\<lparr>PStatus := x, IsRunning := True\<rparr>) cs) deep = Some (e, t)"
  shows "PID (info t) = PID s"
  by (rule FillProcessState_PID [OF assms]) simp

lemma latestState_PID:
  assumes "latestState env deep j = Some st" and "jState (job_msg j) \<noteq> None"
  shows "PID (info st) = GetPID j"
  using assms
  by (auto simp: latestState_def GetPID_def state_of_def Let_def split: option.splits if_splits sum.splits goerr.splits
      dest: filled_PID)

text \<open>Refreshing keeps the JID, the PID, the type, the details and the channel.\<close>

lemma job_sync_keeps:
  assumes "job_sync env deep None j = Some j'" and "jState (job_msg j) \<noteq> None"
  shows "JID j' = JID j \<and> GetPID j' = GetPID j \<and> GetType j' = GetType j \<and> GetDetails j' = GetDetails j
    \<and> job_done j' = job_done j \<and> jState (job_msg j') \<noteq> None \<and> jJID (job_msg j') = jJID (job_msg j)"
  using assms latestState_PID [of env deep j]
  by (auto simp: job_sync_def GetPID_def GetType_def GetDetails_def state_of_def)

text \<open>
  C21: a job reported as running and not as stale is alive here. Then a process with the job's PID exists; if the job has a stored command line,
  it is the command line of that process; and if the identity of this machine can be read, the job belongs to it or carries no host at all.
\<close>

theorem latestState_running:
  assumes "latestState env deep j = Some st" and "IsRunning (info st)" and "PStatus (info st) \<noteq> ''stale''"
  shows "newProcess (procs env) (GetPID j) = None
    \<and> (Cmdline (state_of (job_msg j)) \<noteq> [] \<longrightarrow> cmdlineOf (procs env) (GetPID j) = Inr (Cmdline (state_of (job_msg j))))
    \<and> (\<forall>h. hostID env = Inr h \<longrightarrow> host_id (state_of (job_msg j)) \<in> {[], h})"
  using assms
  by (auto simp: latestState_def GetPID_def state_of_def Let_def split: option.splits if_splits sum.splits)

text \<open>A process with another command line counts as the job's: the job is stale and running.\<close>

lemma latestState_stale:
  assumes "jState (job_msg j) = Some st" and "\<forall>h. hostID env = Inr h \<longrightarrow> host_id (info st) \<in> {[], h}"
    and "newProcess (procs env) (PID (info st)) = None" and "Cmdline (info st) \<noteq> []"
    and "cmdlineOf (procs env) (PID (info st)) \<noteq> Inr (Cmdline (info st))"
  shows "latestState env deep j = Some (ProcessState ((info st)\<lparr>PStatus := ''stale'', IsRunning := True\<rparr>) (Children st))"
  using assms by (auto simp: latestState_def Let_def split: sum.split)

definition live_env :: job_env where
  "live_env = \<lparr>procs = two_procs False, hostID = Inr ''h'', logMissing = (\<lambda>_. False), getpgid = (\<lambda>p. Inr p)\<rparr>"

lemma two_procs_shallow:
  "\<exists>xs t. FillProcessState (two_procs False) p st False = Some (errors_Join xs, t) \<and> IsRunning (info t) \<and> PStatus (info t) = ''sleep''"
proof -
  obtain st1 where f: "fillProcessNode (two_procs False) p (with_host (two_procs False) (info st)) = (None, st1)"
    using two_fill by (metis fst_conv surj_pair)
  then have "IsRunning st1 \<and> PStatus st1 = ''sleep''"
    by (auto simp: fillProcessNode_def two_procs_def on_ok_def mounts_result_def)
  then show ?thesis using FillProcessState_shallow [OF two_host f] by auto
qed

lemma errors_Join_no_panic: "(case errors_Join xs of None \<Rightarrow> a | Some (Panic _) \<Rightarrow> b | Some _ \<Rightarrow> a) = a"
  by (simp add: errors_Join_def Let_def)

definition sh_job :: job where
  "sh_job = update_state (\<lambda>s. s\<lparr>Cmdline := ''sh''\<rparr>) (fromProto (a_job ''h''))"

theorem latestState_running_witness:
  "\<exists>st. latestState live_env False sh_job = Some st \<and> IsRunning (info st) \<and> PStatus (info st) = ''sleep''
    \<and> cmdlineOf (procs live_env) (GetPID sh_job) = Inr (Cmdline (state_of (job_msg sh_job)))"
proof -
  obtain i where s: "jState (job_msg sh_job) = Some (ProcessState i [])" "PID i = 7" "Cmdline i = ''sh''" "host_id i = ''h''"
    by (simp add: sh_job_def update_state_def fromProto_def a_job_def host_id_def)
  obtain xs t where f: "FillProcessState (two_procs False) 7 (ProcessState (i\<lparr>PStatus := ''stale'', IsRunning := True\<rparr>) []) False = Some (errors_Join xs, t)"
      and run: "IsRunning (info t)" "PStatus (info t) = ''sleep''"
    using two_procs_shallow by blast
  have e: "newProcess (two_procs False) 7 = None" "cmdlineOf (two_procs False) 7 = Inr ''sh''" by (simp_all add: two_procs_def)
  have l: "latestState live_env False sh_job = Some t"
    using s e f by (simp add: latestState_def live_env_def errors_Join_no_panic)
  show ?thesis
    using latestState_running [OF l run(1)] run s(3) l by (simp add: state_of_def s(1))
qed

end
