(* ===== verification/Job_Manager.thy ===== *)
theory Job_Manager
  imports Job
begin

text \<open>
  \<^bold>\<open>internal/cedana/job/manager_lazy.go\<close>: the job manager that keeps its state in memory and brings the database up to date in
  the background. The maps hold pointers to jobs: a job lives in a heap, and the maps and the goroutines
  that wait for a job to exit hold its address. Operations that refresh a job return \<open>None\<close> when the refresh does
  not return, because it goes on for ever or panics. The database is the record of operations the manager calls. The bounded channel to the
  background routine is a list here; its capacity is the subject of the section on the queue.
\<close>

section \<open>State\<close>

datatype action = InitializeA | PutJobA string | PutCheckpointA string | Shutdown

record mgr =
  jobs :: "(string, nat) smap"
  heap :: "job list"
  checkpoints :: "(string, checkpoint) smap"
  deletedJobs :: "(string, nat) smap"
  deletedCheckpoints :: "(string, checkpoint) smap"
  pending :: "action list"
  waiting :: "(string \<times> u32 \<times> nat) list"
  detached :: "u32 list"
  kills :: "(int \<times> nat) list"
  ticks :: nat
  mhost :: "host_rec option"

text \<open>What the rest of the daemon and the system answer to the manager.\<close>

record mgr_env =
  jenv :: job_env
  isAttached :: "u32 \<Rightarrow> bool"
  killErr :: "int \<Rightarrow> nat \<Rightarrow> error"
  killSignals :: "nat loaded"
  cleanups :: "(details option \<Rightarrow> call_result) loaded"
  uuid :: "nat \<Rightarrow> string"
  nowMilli :: "nat \<Rightarrow> i64"
  sizeOf :: "string \<Rightarrow> int"

record 'd db_ops =
  opListJobs :: "'d \<Rightarrow> goerr + job_proto list"
  opPutJob :: "job_proto \<Rightarrow> 'd \<Rightarrow> error \<times> 'd"
  opDeleteJob :: "string \<Rightarrow> 'd \<Rightarrow> error \<times> 'd"
  opListCheckpointsByJIDs :: "string list \<Rightarrow> 'd \<Rightarrow> goerr + checkpoint list"
  opPutCheckpoint :: "checkpoint \<Rightarrow> 'd \<Rightarrow> error \<times> 'd"
  opDeleteCheckpoint :: "string \<Rightarrow> 'd \<Rightarrow> error \<times> 'd"

definition sqlite_ops :: "sql_env \<Rightarrow> sqlite db_ops" where
  "sqlite_ops env = \<lparr>opListJobs = ListJobs env [], opPutJob = PutJob env, opDeleteJob = DeleteJob env,
     opListCheckpointsByJIDs = ListCheckpointsByJIDs env, opPutCheckpoint = PutCheckpoint env,
     opDeleteCheckpoint = DeleteCheckpoint env\<rparr>"

definition new_mgr :: "host_rec option \<Rightarrow> mgr" where
  "new_mgr h = \<lparr>jobs = [], heap = [], checkpoints = [], deletedJobs = [], deletedCheckpoints = [], pending = [],
     waiting = [], detached = [], kills = [], ticks = 0, mhost = h\<rparr>"

definition send :: "action \<Rightarrow> mgr \<Rightarrow> mgr" where
  "send a m = m\<lparr>pending := pending m @ [a]\<rparr>"

definition set_job :: "nat \<Rightarrow> job \<Rightarrow> mgr \<Rightarrow> mgr" where
  "set_job a j m = m\<lparr>heap := (heap m)[a := j]\<rparr>"

definition alloc_job :: "string \<Rightarrow> job \<Rightarrow> mgr \<Rightarrow> mgr" where
  "alloc_job jid j m = m\<lparr>heap := heap m @ [j], jobs := AList.update jid (length (heap m)) (jobs m)\<rparr>"

section \<open>Jobs\<close>

definition Exists :: "string \<Rightarrow> mgr \<Rightarrow> bool" where
  "Exists jid m \<longleftrightarrow> map_of (jobs m) jid \<noteq> None"

definition lookup :: "string \<Rightarrow> mgr \<Rightarrow> nat option" where
  "lookup jid m = map_of (jobs m) jid"

definition New :: "string \<Rightarrow> string \<Rightarrow> mgr \<Rightarrow> (goerr + nat) \<times> mgr" where
  "New jid jobType m =
     (if jid = [] then (Inl (Errorf ''missing JID''), m)
      else if Exists jid m then (Inl (Errorf (''job '' @ jid @ '' already exists'')), m)
      else (Inr (length (heap m)), alloc_job jid (newJob jid jobType (mhost m)) m))"

text \<open>The part that \<open>Get\<close>, \<open>List\<close> and \<open>ListByHostIDs\<close> share: refresh a job and note that a GPU was attached.\<close>

definition refresh :: "mgr_env \<Rightarrow> bool \<Rightarrow> string \<Rightarrow> nat \<Rightarrow> mgr \<Rightarrow> mgr option" where
  "refresh env deep jid a m =
     (case job_sync (jenv env) deep None (heap m ! a) of
        None \<Rightarrow> None
      | Some j \<Rightarrow>
          if \<not> job_GPUEnabled j \<and> isAttached env (GetPID j)
          then Some (send (PutJobA jid) (set_job a (SetGPUEnabled True j) m))
          else Some (set_job a j m))"

definition Get :: "mgr_env \<Rightarrow> string \<Rightarrow> mgr \<Rightarrow> (nat option \<times> mgr) option" where
  "Get env jid m =
     (case lookup jid m of
        None \<Rightarrow> Some (None, m)
      | Some a \<Rightarrow> map_option (\<lambda>m'. (Some a, m')) (refresh env True jid a m))"

fun range_refresh :: "mgr_env \<Rightarrow> (string \<Rightarrow> nat \<Rightarrow> mgr \<Rightarrow> bool) \<Rightarrow> (string \<times> nat) list \<Rightarrow> nat list \<Rightarrow> mgr \<Rightarrow> (nat list \<times> mgr) option" where
  "range_refresh env sel [] acc m = Some (acc, m)"
| "range_refresh env sel ((jid, a) # es) acc m =
     (if \<not> sel jid a m then range_refresh env sel es acc m
      else (case refresh env False jid a m of
          None \<Rightarrow> None
        | Some m' \<Rightarrow> range_refresh env sel es (acc @ [a]) m'))"

definition List :: "mgr_env \<Rightarrow> string list \<Rightarrow> mgr \<Rightarrow> (nat list \<times> mgr) option" where
  "List env jids m = range_refresh env (\<lambda>jid a m. jids = [] \<or> jid \<in> set jids) (jobs m) [] m"

definition ListByHostIDs :: "mgr_env \<Rightarrow> string list \<Rightarrow> mgr \<Rightarrow> (nat list \<times> mgr) option" where
  "ListByHostIDs env hostIDs m =
     range_refresh env (\<lambda>jid a m. hostIDs = [] \<or> host_id (state_of (job_msg (heap m ! a))) \<in> set hostIDs) (jobs m) [] m"

definition Find :: "u32 \<Rightarrow> mgr \<Rightarrow> nat option" where
  "Find pid m = map_option snd (List.find (\<lambda>(jid, a). GetPID (heap m ! a) = pid) (jobs m))"

text \<open>The error message names the JID of the caller, not the one of the job that has the PID.\<close>

definition Manage :: "mgr_env \<Rightarrow> string \<Rightarrow> u32 \<Rightarrow> mgr \<Rightarrow> (error \<times> mgr) option" where
  "Manage env jid pid m =
     (case lookup jid m of
        None \<Rightarrow> Some (Some (Errorf (''job '' @ jid @ '' does not exist. was it initialized?'')), m)
      | Some a \<Rightarrow>
        if pid = 0 then Some (Some (Errorf (''invalid PID 0 for job '' @ jid)), m)
        else if (case Find pid m of None \<Rightarrow> False | Some b \<Rightarrow> JID (heap m ! b) \<noteq> jid)
        then Some (Some (Errorf (''PID '' @ itoa (unat pid) @ '' is already being managed under job '' @ jid)), m)
        else (case SyncDeep (jenv env) None (SetPID pid (heap m ! a)) of
            None \<Rightarrow> None
          | Some j \<Rightarrow>
              Some (None, send (PutJobA jid)
                (set_job a (j\<lparr>job_done := Some \<lparr>chanBuf = [], chanClosed = False\<rparr>\<rparr>)
                  (m\<lparr>waiting := waiting m @ [(jid, pid, a)]\<rparr>)))))"

text \<open>
  Sending on the channel of a job, which buffers one value: a send on a closed channel panics, one on the nil channel or on
  a full one waits for a receiver.
\<close>

datatype send_result = Sent mgr | SendBlocks | SendPanics

definition chan_send :: "error \<Rightarrow> nat \<Rightarrow> mgr \<Rightarrow> send_result" where
  "chan_send e a m = (case job_done (heap m ! a) of
       None \<Rightarrow> SendBlocks
     | Some ch \<Rightarrow>
         if chanClosed ch then SendPanics
         else if chanBuf ch \<noteq> [] then SendBlocks
         else Sent (set_job a ((heap m ! a)\<lparr>job_done := Some (ch\<lparr>chanBuf := [e]\<rparr>)\<rparr>) m))"

text \<open>
  The rest of the goroutine of \<open>Manage\<close>, once the exit code has arrived: detach the GPU, run the plugin's cleanup,
  report its error and close the channel. The flag says that the goroutine waits in a send: then it goes no further.
\<close>

definition cleanup_call :: "nat \<Rightarrow> string \<Rightarrow> (details option \<Rightarrow> call_result) \<Rightarrow> mgr \<times> bool \<Rightarrow> call_result \<times> mgr \<times> bool" where
  "cleanup_call a plugin cleanup = (\<lambda>(m, blocked).
     if blocked then (Returned None, m, True)
     else (case cleanup (GetDetails (heap m ! a)) of
        Panicked \<Rightarrow> (Panicked, m, False)
      | Returned None \<Rightarrow> (Returned None, m, False)
      | Returned (Some e) \<Rightarrow>
          (case chan_send (Some (Wrapf (''Failed '' @ GetType (heap m ! a) @ '' cleanup'') e)) a m of
             Sent m' \<Rightarrow> (Returned (Some e), m', False)
           | SendBlocks \<Rightarrow> (Returned (Some e), m, True)
           | SendPanics \<Rightarrow> (Panicked, m, False))))"

text \<open>
  The registry of plugins is a map, so it has one entry per name. A goroutine that waits in the send leaves the
  channel open; closing a closed channel panics.
\<close>

definition job_exited :: "mgr_env \<Rightarrow> string \<times> u32 \<times> nat \<Rightarrow> mgr \<Rightarrow> goerr + mgr" where
  "job_exited env w m =
     (case w of (jid, pid, a) \<Rightarrow>
      (let m1 = m\<lparr>detached := detached m @ [pid], waiting := remove1 w (waiting m)\<rparr>
       in case snd (IfAvailable ''Custom cleanup'' (cleanup_call a) [GetType (heap m1 ! a)] (AList.clearjunk (cleanups env)) (m1, False)) of
            (m2, True) \<Rightarrow> Inr m2
          | (m2, False) \<Rightarrow>
            (case job_done (heap m2 ! a) of
               None \<Rightarrow> Inl (Panic ''close of nil channel'')
             | Some ch \<Rightarrow>
                 if chanClosed ch then Inl (Panic ''close of closed channel'')
                 else Inr (set_job a ((heap m2 ! a)\<lparr>job_done := Some (ch\<lparr>chanClosed := True\<rparr>)\<rparr>) m2))))"

definition kill_signal :: "mgr_env \<Rightarrow> string \<Rightarrow> nat list \<Rightarrow> nat" where
  "kill_signal env typ given =
     (case given of
        s # _ \<Rightarrow> s
      | [] \<Rightarrow> snd (IfAvailable ''Custom kill signal'' (\<lambda>plugin s _. (Returned None, s)) [typ] (killSignals env) 9))"

definition Kill :: "mgr_env \<Rightarrow> string \<Rightarrow> nat list \<Rightarrow> mgr \<Rightarrow> (error \<times> mgr) option" where
  "Kill env jid signal m =
     (if \<not> Exists jid m then Some (Some (Errorf (''job '' @ jid @ '' does not exist'')), m)
      else (case Get env jid m of
          None \<Rightarrow> None
        | Some (None, m1) \<Rightarrow> Some (Some (Panic ''nil pointer dereference''), m1)
        | Some (Some a, m1) \<Rightarrow>
          (let j = heap m1 ! a in
           if \<not> job_IsRunning j then Some (Some (Errorf (''job '' @ jid @ '' is not running'')), m1)
           else
             (let sig = kill_signal env (GetType j) signal; pid = GetPID j in
              if pid \<noteq> 0 then
                (let target = (if GetPGID (jenv env) j = pid then - uint pid else uint pid)
                 in Some (killErr env target sig, m1\<lparr>kills := kills m1 @ [(target, sig)]\<rparr>))
              else Some (Some (Errorf (''job '' @ jid @ '' is not running, PID '' @ itoa (unat pid) @ '' is not valid'')), m1)))))"

text \<open>The channel of a job; for an unknown job a closed one. A job that was never managed has the nil channel.\<close>

definition Done :: "string \<Rightarrow> mgr \<Rightarrow> err_chan option" where
  "Done jid m = (case lookup jid m of None \<Rightarrow> Some \<lparr>chanBuf = [], chanClosed = True\<rparr> | Some a \<Rightarrow> job_done (heap m ! a))"

text \<open>Receiving: a buffered value, then nil for ever from a closed channel; \<open>None\<close> blocks.\<close>

definition recv :: "err_chan option \<Rightarrow> error option" where
  "recv c = (case c of None \<Rightarrow> None
     | Some ch \<Rightarrow> (case chanBuf ch of e # _ \<Rightarrow> Some e | [] \<Rightarrow> if chanClosed ch then Some None else None))"

section \<open>Checkpoints\<close>

fun AddCheckpoint_loop :: "mgr_env \<Rightarrow> string \<Rightarrow> string list \<Rightarrow> mgr \<Rightarrow> mgr" where
  "AddCheckpoint_loop env jid [] m = m"
| "AddCheckpoint_loop env jid (p # ps) m =
     (let c = \<lparr>cpID = uuid env (ticks m), cpJID = jid, cpPath = p, cpTime = nowMilli env (ticks m), cpSize = sizeOf env p\<rparr>
      in AddCheckpoint_loop env jid ps
           (send (PutCheckpointA (cpID c)) (m\<lparr>checkpoints := AList.update (cpID c) c (checkpoints m), ticks := Suc (ticks m)\<rparr>)))"

definition AddCheckpoint :: "mgr_env \<Rightarrow> string \<Rightarrow> string list \<Rightarrow> mgr \<Rightarrow> mgr" where
  "AddCheckpoint env jid paths m =
     (case lookup jid m of None \<Rightarrow> m | Some _ \<Rightarrow> AddCheckpoint_loop env jid paths m)"

definition GetCheckpoint :: "string \<Rightarrow> mgr \<Rightarrow> checkpoint option" where
  "GetCheckpoint i m = map_of (checkpoints m) i"

definition m_ListCheckpoints :: "string \<Rightarrow> mgr \<Rightarrow> checkpoint list" where
  "m_ListCheckpoints jid m = filter (\<lambda>c. cpJID c = jid) (map snd (checkpoints m))"

fun latest_loop :: "string \<Rightarrow> checkpoint list \<Rightarrow> checkpoint option \<Rightarrow> checkpoint option" where
  "latest_loop jid [] latest = latest"
| "latest_loop jid (c # cs) latest =
     latest_loop jid cs
       (if cpJID c = jid \<and> (case latest of None \<Rightarrow> True | Some l \<Rightarrow> cpTime l <s cpTime c) then Some c else latest)"

definition GetLatestCheckpoint :: "string \<Rightarrow> mgr \<Rightarrow> checkpoint option" where
  "GetLatestCheckpoint jid m = latest_loop jid (map snd (checkpoints m)) None"

definition m_DeleteCheckpoint :: "string \<Rightarrow> mgr \<Rightarrow> mgr" where
  "m_DeleteCheckpoint i m =
     (case map_of (checkpoints m) i of
        None \<Rightarrow> m
      | Some c \<Rightarrow> send (PutCheckpointA i)
          (m\<lparr>checkpoints := AList.delete i (checkpoints m), deletedCheckpoints := AList.update i c (deletedCheckpoints m)\<rparr>))"

definition Delete :: "string \<Rightarrow> mgr \<Rightarrow> mgr" where
  "Delete jid m =
     (case map_of (jobs m) jid of
        None \<Rightarrow> m
      | Some a \<Rightarrow>
        (let m1 = send (PutJobA jid)
               (m\<lparr>jobs := AList.delete jid (jobs m), deletedJobs := AList.update jid a (deletedJobs m)\<rparr>)
         in fold m_DeleteCheckpoint (map cpID (m_ListCheckpoints jid m1)) m1))"

section \<open>Bringing the database up to date\<close>

definition store_checkpoints :: "checkpoint list \<Rightarrow> mgr \<Rightarrow> mgr" where
  "store_checkpoints cs m = m\<lparr>checkpoints := fold (\<lambda>c. AList.update (cpID c) c) cs (checkpoints m)\<rparr>"

fun init_loop :: "'d db_ops \<Rightarrow> job_proto list \<Rightarrow> mgr \<Rightarrow> 'd \<Rightarrow> error \<times> mgr" where
  "init_loop ops [] m d = (None, m)"
| "init_loop ops (p # ps) m d =
     (let j = fromProto p in
      if map_of (deletedJobs m) (JID j) = None \<and> (\<not> Exists (JID j) m \<or> IsRemote j) then
        (let m1 = alloc_job (JID j) j m in
         case opListCheckpointsByJIDs ops [JID j] d of
           Inl e \<Rightarrow> (Some e, m1)
         | Inr cs \<Rightarrow> init_loop ops ps (store_checkpoints cs m1) d)
      else init_loop ops ps m d)"

definition syncWithDB :: "'d db_ops \<Rightarrow> action \<Rightarrow> mgr \<Rightarrow> 'd \<Rightarrow> error \<times> mgr \<times> 'd" where
  "syncWithDB ops act m d =
     (case act of
        InitializeA \<Rightarrow>
          (case opListJobs ops d of Inl e \<Rightarrow> (Some e, m, d)
           | Inr ps \<Rightarrow> (case init_loop ops ps m d of (e, m') \<Rightarrow> (e, m', d)))
      | PutJobA jid \<Rightarrow>
          (case map_of (jobs m) jid of
             Some a \<Rightarrow> (case opPutJob ops (GetProto (heap m ! a)) d of (e, d') \<Rightarrow> (e, m, d'))
           | None \<Rightarrow>
             if map_of (deletedJobs m) jid \<noteq> None then
               (case opDeleteJob ops jid d of (e, d') \<Rightarrow>
                  (e, if e = None then m\<lparr>deletedJobs := AList.delete jid (deletedJobs m)\<rparr> else m, d'))
             else (None, m, d))
      | PutCheckpointA i \<Rightarrow>
          (case map_of (checkpoints m) i of
             Some c \<Rightarrow> (case opPutCheckpoint ops c d of (e, d') \<Rightarrow> (e, m, d'))
           | None \<Rightarrow>
             if map_of (deletedCheckpoints m) i \<noteq> None then
               (case opDeleteCheckpoint ops i d of (e, d') \<Rightarrow>
                  (e, if e = None then m\<lparr>deletedCheckpoints := AList.delete i (deletedCheckpoints m)\<rparr> else m, d'))
             else (None, m, d))
      | Shutdown \<Rightarrow> (None, m, d))"

text \<open>One turn of the background routine: take an action; on failure put it back at the end of the queue.\<close>

definition sync_turn :: "'d db_ops \<Rightarrow> mgr \<Rightarrow> 'd \<Rightarrow> mgr \<times> 'd" where
  "sync_turn ops m d =
     (case pending m of
        [] \<Rightarrow> (m, d)
      | a # as \<Rightarrow>
        (case syncWithDB ops a (m\<lparr>pending := as\<rparr>) d of
           (None, m', d') \<Rightarrow> (m', d')
         | (Some _, m', d') \<Rightarrow> (send a m', d')))"

text \<open>At shutdown the queue is emptied once, and the actions that fail are only logged.\<close>

fun drain :: "'d db_ops \<Rightarrow> action list \<Rightarrow> mgr \<Rightarrow> 'd \<Rightarrow> error list \<times> mgr \<times> 'd" where
  "drain ops [] m d = ([], m, d)"
| "drain ops (a # as) m d =
     (if a = Shutdown then ([], m, d)
      else (case syncWithDB ops a m d of
          (e, m', d') \<Rightarrow> (case drain ops as m' d' of (es, m'', d'') \<Rightarrow> (if e = None then es else e # es, m'', d''))))"

definition shutdown_sync :: "'d db_ops \<Rightarrow> mgr \<Rightarrow> 'd \<Rightarrow> error \<times> mgr \<times> 'd" where
  "shutdown_sync ops m d =
     (case drain ops (pending m @ [Shutdown]) (m\<lparr>pending := []\<rparr>) d of (es, m', d') \<Rightarrow> (errors_Join es, m', d'))"

definition mgr_Sync :: "'d db_ops \<Rightarrow> mgr \<Rightarrow> 'd \<Rightarrow> error \<times> mgr \<times> 'd" where
  "mgr_Sync ops m d = syncWithDB ops InitializeA m d"

definition NewManagerLazy :: "'d db_ops \<Rightarrow> host_rec option \<Rightarrow> 'd \<Rightarrow> goerr + mgr" where
  "NewManagerLazy ops h d =
     (case mgr_Sync ops (new_mgr h) d of (None, m, _) \<Rightarrow> Inr m | (Some e, _, _) \<Rightarrow> Inl e)"

end
