(* ===== verification/Job_Invariants.thy ===== *)
theory Job_Invariants
  imports Job_Manager
begin

text \<open>
  What the job manager keeps true: the maps point to jobs that carry the key they are stored under, and no
  deletion is forgotten. The second part shows, through the contract of the store, that emptying the queue carries the
  deletions out; the third is about the bounded queue.
\<close>

section \<open>The invariant\<close>

definition jid_at :: "mgr \<Rightarrow> nat \<Rightarrow> string \<times> string" where
  "jid_at m a = (JID (heap m ! a), jJID (job_msg (heap m ! a)))"

definition mgr_ok :: "mgr \<Rightarrow> bool" where
  "mgr_ok m \<longleftrightarrow> sm_ok (jobs m) \<and> sm_ok (checkpoints m) \<and> sm_ok (deletedJobs m) \<and> sm_ok (deletedCheckpoints m)
     \<and> (\<forall>jid a. map_of (jobs m) jid = Some a \<longrightarrow> a < length (heap m) \<and> jid_at m a = (jid, jid))
     \<and> (\<forall>i c. map_of (checkpoints m) i = Some c \<longrightarrow> cpID c = i)
     \<and> (\<forall>jid. map_of (deletedJobs m) jid \<noteq> None \<longrightarrow> map_of (jobs m) jid \<noteq> None \<or> PutJobA jid \<in> set (pending m))
     \<and> (\<forall>i. map_of (deletedCheckpoints m) i \<noteq> None \<longrightarrow> map_of (checkpoints m) i \<noteq> None \<or> PutCheckpointA i \<in> set (pending m))"

lemma mgr_ok_new: "mgr_ok (new_mgr h)"
  by (simp add: mgr_ok_def new_mgr_def)

text \<open>Operations that only touch the fields of jobs and add to the queue.\<close>

definition same_index :: "mgr \<Rightarrow> mgr \<Rightarrow> bool" where
  "same_index m m' \<longleftrightarrow> jobs m' = jobs m \<and> checkpoints m' = checkpoints m \<and> deletedJobs m' = deletedJobs m
     \<and> deletedCheckpoints m' = deletedCheckpoints m \<and> set (pending m) \<subseteq> set (pending m')
     \<and> length (heap m') = length (heap m) \<and> (\<forall>a<length (heap m). jid_at m' a = jid_at m a)"

lemma same_index_refl [simp]: "same_index m m"
  by (simp add: same_index_def)

lemma same_index_trans: "same_index m m' \<Longrightarrow> same_index m' m'' \<Longrightarrow> same_index m m''"
  by (auto simp: same_index_def)

lemma same_index_ok: "same_index m m' \<Longrightarrow> mgr_ok m \<Longrightarrow> mgr_ok m'"
  unfolding same_index_def mgr_ok_def by (elim conjE, intro conjI) (simp | blast)+

lemma same_index_send [simp]: "same_index m (send a m)"
  by (auto simp: same_index_def send_def jid_at_def)

lemma same_index_set_job:
  "JID j = JID (heap m ! a) \<Longrightarrow> jJID (job_msg j) = jJID (job_msg (heap m ! a)) \<Longrightarrow> same_index m (set_job a j m)"
  by (cases "a < length (heap m)") (auto simp: same_index_def set_job_def jid_at_def nth_list_update)

lemma job_sync_JID: "job_sync env deep st j = Some j' \<Longrightarrow> JID j' = JID j \<and> jJID (job_msg j') = jJID (job_msg j)"
  by (auto simp: job_sync_def)

lemma update_state_JID [simp]:
  "JID (update_state f j) = JID j" "jJID (job_msg (update_state f j)) = jJID (job_msg j)"
  by (simp_all add: update_state_def)

lemma refresh_index: "refresh env deep jid a m = Some m' \<Longrightarrow> same_index m m'"
  by (auto simp: refresh_def SetGPUEnabled_def split: option.splits if_splits dest!: job_sync_JID
      intro!: same_index_set_job same_index_trans [OF _ same_index_send])

lemma range_refresh_index: "range_refresh env sel es acc m = Some (r, m') \<Longrightarrow> same_index m m'"
  by (induction env sel es acc m rule: range_refresh.induct)
    (auto split: if_splits option.splits dest: refresh_index intro: same_index_trans)

lemma Get_index: "Get env jid m = Some (r, m') \<Longrightarrow> same_index m m'"
  by (auto simp: Get_def split: option.splits dest: refresh_index)

lemma Manage_index: "Manage env jid pid m = Some (e, m') \<Longrightarrow> same_index m m'"
proof -
  assume man: "Manage env jid pid m = Some (e, m')"
  have w: "same_index m (m\<lparr>waiting := w\<rparr>)" for w by (simp add: same_index_def jid_at_def)
  show ?thesis
    using man
    by (auto simp: Manage_def SyncDeep_def SetPID_def split: option.splits if_splits dest!: job_sync_JID
        intro!: same_index_trans [OF w] same_index_trans [OF _ same_index_send] same_index_set_job)
qed

lemma Kill_index: "Kill env jid sig m = Some (e, m') \<Longrightarrow> same_index m m'"
proof -
  assume k: "Kill env jid sig m = Some (e, m')"
  have w: "same_index m1 (m1\<lparr>kills := w\<rparr>)" for w m1 by (simp add: same_index_def jid_at_def)
  show ?thesis
    using k by (auto simp: Kill_def Let_def split: option.splits if_splits dest!: Get_index intro: same_index_trans [OF _ w])
qed

lemma call_all_invariant:
  assumes "\<And>n v s. P s \<Longrightarrow> P (snd (do n v s))" and "P s"
  shows "P (snd (if_available_loop feature do filt ps errs noValid s))"
  using assms(2)
proof (induction ps arbitrary: errs noValid s)
  case (Cons p ps)
  obtain name sy where p: "p = (name, sy)" by (cases p)
  show ?case
  proof (cases sy)
    case (Exported v)
    obtain r s' where d: "do name v s = (r, s')" by (cases "do name v s")
    then have "P s'" using assms(1) [OF Cons.prems, of name v] by simp
    then show ?thesis using Cons.IH Cons.prems p Exported d by (cases r) simp_all
  qed (use Cons p in simp_all)
qed simp

lemma IfAvailable_invariant:
  assumes "\<And>n v s. P s \<Longrightarrow> P (snd (do n v s))" and "P s"
  shows "P (snd (IfAvailable feature do filt ps s))"
proof -
  obtain errs nv pan s' where r: "if_available_loop feature do filt ps [] True s = ((errs, nv, pan), s')"
    by (metis surj_pair)
  then have "P s'" using call_all_invariant [of P do s feature filt ps "[]" True] assms by simp
  then show ?thesis using r by (cases pan) (simp_all add: IfAvailable_def)
qed

lemma chan_send_index: "chan_send e a m = Sent m' \<Longrightarrow> same_index m m'"
  by (auto simp: chan_send_def split: option.splits if_splits intro: same_index_set_job)

lemma cleanup_call_index: "same_index (fst s) (fst (snd (cleanup_call a plugin cleanup s)))"
  by (auto simp: cleanup_call_def chan_send_index split: call_result.split option.split send_result.split prod.split)

lemma job_exited_index: "job_exited env w m = Inr m' \<Longrightarrow> same_index m m'"
proof -
  assume x: "job_exited env w m = Inr m'"
  obtain jid pid a where w: "w = (jid, pid, a)" by (cases w) auto
  let ?m1 = "m\<lparr>detached := detached m @ [pid], waiting := remove1 w (waiting m)\<rparr>"
  obtain m2 b where m2: "snd (IfAvailable ''Custom cleanup'' (cleanup_call a) [GetType (heap ?m1 ! a)] (AList.clearjunk (cleanups env)) (?m1, False)) = (m2, b)"
    by fastforce
  have "same_index m (fst (?m1, False))" by (simp add: same_index_def jid_at_def)
  then have "same_index m (fst (snd (IfAvailable ''Custom cleanup'' (cleanup_call a) [GetType (heap ?m1 ! a)] (AList.clearjunk (cleanups env)) (?m1, False))))"
    by (rule IfAvailable_invariant [where P = "\<lambda>s. same_index m (fst s)", rotated]) (rule same_index_trans [OF _ cleanup_call_index])
  then have "same_index m m2" using m2 by simp
  moreover obtain ch where "m' = m2 \<or> m' = set_job a ((heap m2 ! a)\<lparr>job_done := Some (ch\<lparr>chanClosed := True\<rparr>)\<rparr>) m2"
    using x w m2 by (auto simp: job_exited_def Let_def split: option.splits if_splits bool.splits)
  ultimately show ?thesis using same_index_trans [OF _ same_index_set_job] by auto
qed

section \<open>Operations that change the maps\<close>

lemma mgr_okD:
  assumes "mgr_ok m"
  shows "sm_ok (jobs m)" "sm_ok (checkpoints m)" "sm_ok (deletedJobs m)" "sm_ok (deletedCheckpoints m)"
    and "map_of (jobs m) jid = Some a \<Longrightarrow> a < length (heap m) \<and> jid_at m a = (jid, jid)"
    and "map_of (checkpoints m) i = Some c \<Longrightarrow> cpID c = i"
    and "map_of (deletedJobs m) jid \<noteq> None \<Longrightarrow> map_of (jobs m) jid \<noteq> None \<or> PutJobA jid \<in> set (pending m)"
    and "map_of (deletedCheckpoints m) i \<noteq> None \<Longrightarrow> map_of (checkpoints m) i \<noteq> None \<or> PutCheckpointA i \<in> set (pending m)"
  using assms unfolding mgr_ok_def by blast+

lemma mgr_okI:
  assumes "sm_ok (jobs m)" "sm_ok (checkpoints m)" "sm_ok (deletedJobs m)" "sm_ok (deletedCheckpoints m)"
    and "\<And>jid a. map_of (jobs m) jid = Some a \<Longrightarrow> a < length (heap m) \<and> jid_at m a = (jid, jid)"
    and "\<And>i c. map_of (checkpoints m) i = Some c \<Longrightarrow> cpID c = i"
    and "\<And>jid. map_of (deletedJobs m) jid \<noteq> None \<Longrightarrow> map_of (jobs m) jid \<noteq> None \<or> PutJobA jid \<in> set (pending m)"
    and "\<And>i. map_of (deletedCheckpoints m) i \<noteq> None \<Longrightarrow> map_of (checkpoints m) i \<noteq> None \<or> PutCheckpointA i \<in> set (pending m)"
  shows "mgr_ok m"
  using assms unfolding mgr_ok_def by blast

lemma alloc_job_ok:
  assumes ok: "mgr_ok m" and j: "JID j = jid" "jJID (job_msg j) = jid"
  shows "mgr_ok (alloc_job jid j m)"
proof (rule mgr_okI)
  note D = mgr_okD [OF ok]
  fix k a assume "map_of (jobs (alloc_job jid j m)) k = Some a"
  then have "(k = jid \<and> a = length (heap m)) \<or> (k \<noteq> jid \<and> map_of (jobs m) k = Some a)"
    by (auto simp: alloc_job_def sm.load_store D split: if_splits)
  then show "a < length (heap (alloc_job jid j m)) \<and> jid_at (alloc_job jid j m) a = (k, k)"
    using D(5) [of k a] j by (auto simp: alloc_job_def jid_at_def nth_append)
next
  fix k assume "map_of (deletedJobs (alloc_job jid j m)) k \<noteq> None"
  then show "map_of (jobs (alloc_job jid j m)) k \<noteq> None \<or> PutJobA k \<in> set (pending (alloc_job jid j m))"
    using mgr_okD(7) [OF ok, of k] by (auto simp: alloc_job_def sm.load_store mgr_okD [OF ok])
qed (use mgr_okD [OF ok] in \<open>auto simp: alloc_job_def sm.invar_store\<close>)

lemma New_ok: "New jid t m = (r, m') \<Longrightarrow> mgr_ok m \<Longrightarrow> mgr_ok m'"
  by (auto simp: New_def newJob_def split: if_splits intro: alloc_job_ok)

lemma add_checkpoint_ok:
  assumes ok: "mgr_ok m" and c: "cpID c = i"
  shows "mgr_ok (m\<lparr>checkpoints := AList.update i c (checkpoints m), ticks := t\<rparr>)"
  by (rule mgr_okI) (use mgr_okD [OF ok] c in \<open>auto simp: sm.load_store sm.invar_store jid_at_def split: if_splits\<close>)

lemma AddCheckpoint_loop_ok: "mgr_ok m \<Longrightarrow> mgr_ok (AddCheckpoint_loop env jid ps m)"
  by (induction env jid ps m rule: AddCheckpoint_loop.induct)
    (simp_all add: Let_def add_checkpoint_ok same_index_ok [OF same_index_send])

lemma AddCheckpoint_ok: "mgr_ok m \<Longrightarrow> mgr_ok (AddCheckpoint env jid ps m)"
  by (simp add: AddCheckpoint_def AddCheckpoint_loop_ok split: option.split)

lemma DeleteCheckpoint_ok:
  assumes ok: "mgr_ok m"
  shows "mgr_ok (m_DeleteCheckpoint i m)"
proof (cases "map_of (checkpoints m) i")
  case None
  then show ?thesis using ok by (simp add: m_DeleteCheckpoint_def)
next
  case (Some c)
  show ?thesis
    unfolding m_DeleteCheckpoint_def Some option.case send_def
    by (rule mgr_okI)
      (use mgr_okD [OF ok] in \<open>auto simp: sm.load_store sm.load_delete sm.invar_store sm.invar_delete jid_at_def split: if_splits\<close>)
qed

lemma fold_DeleteCheckpoint_ok: "mgr_ok m \<Longrightarrow> mgr_ok (fold m_DeleteCheckpoint is m)"
  by (induction "is" arbitrary: m) (simp_all add: DeleteCheckpoint_ok)

lemma unlisted_ok:
  assumes ok: "mgr_ok m"
  shows "mgr_ok (send (PutJobA jid) (m\<lparr>jobs := AList.delete jid (jobs m), deletedJobs := AList.update jid a (deletedJobs m)\<rparr>))"
  unfolding send_def
  by (rule mgr_okI)
    (use mgr_okD [OF ok] in \<open>auto simp: sm.load_store sm.load_delete sm.invar_store sm.invar_delete jid_at_def split: if_splits\<close>)

lemma Delete_ok:
  assumes ok: "mgr_ok m"
  shows "mgr_ok (Delete jid m)"
proof (cases "map_of (jobs m) jid")
  case None
  then show ?thesis using ok by (simp add: Delete_def)
next
  case (Some a)
  then show ?thesis using unlisted_ok [OF ok] by (simp add: Delete_def Let_def fold_DeleteCheckpoint_ok)
qed

lemma store_checkpoints_ok: "mgr_ok m \<Longrightarrow> mgr_ok (store_checkpoints cs m)"
proof (induction cs arbitrary: m)
  case (Cons c cs)
  have "mgr_ok (m\<lparr>checkpoints := AList.update (cpID c) c (checkpoints m), ticks := ticks m\<rparr>)"
    by (rule add_checkpoint_ok [OF Cons.prems refl])
  then have "mgr_ok (store_checkpoints cs (m\<lparr>checkpoints := AList.update (cpID c) c (checkpoints m)\<rparr>))"
    using Cons.IH by simp
  then show ?case by (simp add: store_checkpoints_def)
qed (simp add: store_checkpoints_def)

lemma init_loop_ok: "init_loop ops ps m d = (e, m') \<Longrightarrow> mgr_ok m \<Longrightarrow> mgr_ok m' \<and> pending m' = pending m"
proof (induction ops ps m d rule: init_loop.induct)
  case (2 ops p ps m d)
  let ?j = "fromProto p"
  have j: "jJID (job_msg ?j) = JID ?j" by (simp add: fromProto_def)
  have a: "mgr_ok (alloc_job (JID ?j) ?j m)" by (rule alloc_job_ok [OF "2.prems"(2) refl j])
  have p: "pending (alloc_job (JID ?j) ?j m) = pending m" by (simp add: alloc_job_def)
  have s: "mgr_ok (store_checkpoints cs (alloc_job (JID ?j) ?j m))"
    "pending (store_checkpoints cs (alloc_job (JID ?j) ?j m)) = pending m" for cs
    using store_checkpoints_ok [OF a] p by (simp_all add: store_checkpoints_def)
  show ?case
    using 2 a p s by (auto simp: Let_def split: if_splits sum.splits)
qed simp

text \<open>Only the set of pending actions matters, and an action may leave the queue once nothing depends on it.\<close>

lemma mgr_ok_pending:
  assumes "mgr_ok (m\<lparr>pending := p\<rparr>)"
    and "\<And>jid. map_of (deletedJobs m) jid \<noteq> None \<Longrightarrow> map_of (jobs m) jid = None \<Longrightarrow> PutJobA jid \<in> set p \<Longrightarrow> PutJobA jid \<in> set q"
    and "\<And>i. map_of (deletedCheckpoints m) i \<noteq> None \<Longrightarrow> map_of (checkpoints m) i = None \<Longrightarrow> PutCheckpointA i \<in> set p \<Longrightarrow> PutCheckpointA i \<in> set q"
  shows "mgr_ok (m\<lparr>pending := q\<rparr>)"
proof (rule mgr_okI)
  fix jid assume "map_of (deletedJobs (m\<lparr>pending := q\<rparr>)) jid \<noteq> None"
  then show "map_of (jobs (m\<lparr>pending := q\<rparr>)) jid \<noteq> None \<or> PutJobA jid \<in> set (pending (m\<lparr>pending := q\<rparr>))"
    using mgr_okD(7) [OF assms(1), of jid] assms(2) [of jid] by auto
next
  fix i assume "map_of (deletedCheckpoints (m\<lparr>pending := q\<rparr>)) i \<noteq> None"
  then show "map_of (checkpoints (m\<lparr>pending := q\<rparr>)) i \<noteq> None \<or> PutCheckpointA i \<in> set (pending (m\<lparr>pending := q\<rparr>))"
    using mgr_okD(8) [OF assms(1), of i] assms(3) [of i] by auto
next
  fix jid a assume "map_of (jobs (m\<lparr>pending := q\<rparr>)) jid = Some a"
  then show "a < length (heap (m\<lparr>pending := q\<rparr>)) \<and> jid_at (m\<lparr>pending := q\<rparr>) a = (jid, jid)"
    using mgr_okD(5) [OF assms(1), of jid a] by (simp add: jid_at_def)
qed (use mgr_okD(1-4,6) [OF assms(1)] in auto)

lemma mgr_ok_drop:
  assumes "mgr_ok (m\<lparr>pending := a # pending m\<rparr>)"
    and "\<And>jid. a = PutJobA jid \<Longrightarrow> map_of (deletedJobs m) jid = None \<or> map_of (jobs m) jid \<noteq> None"
    and "\<And>i. a = PutCheckpointA i \<Longrightarrow> map_of (deletedCheckpoints m) i = None \<or> map_of (checkpoints m) i \<noteq> None"
  shows "mgr_ok m"
proof -
  have "mgr_ok (m\<lparr>pending := pending m\<rparr>)"
    by (rule mgr_ok_pending [OF assms(1)]) (use assms(2,3) in auto)
  then show ?thesis by simp
qed

lemma mgr_ok_back: "mgr_ok (m\<lparr>pending := a # pending m\<rparr>) \<Longrightarrow> mgr_ok (send a m)"
  unfolding send_def by (erule mgr_ok_pending) auto

lemma mgr_ok_undelete:
  assumes "mgr_ok (m\<lparr>pending := p\<rparr>)"
  shows "mgr_ok (m\<lparr>deletedJobs := AList.delete jid (deletedJobs m), pending := p\<rparr>)"
    and "mgr_ok (m\<lparr>deletedCheckpoints := AList.delete i (deletedCheckpoints m), pending := p\<rparr>)"
  using mgr_okD [OF assms]
  by (intro mgr_okI; auto simp: sm.load_delete sm.invar_delete jid_at_def split: if_splits)+

text \<open>One synchronisation, done on the head of the queue.\<close>

lemma syncWithDB_ok:
  assumes s: "syncWithDB ops a m d = (e, m', d')" and ok: "mgr_ok (m\<lparr>pending := a # pending m\<rparr>)"
  shows "(e = None \<longrightarrow> mgr_ok m') \<and> mgr_ok (send a m') \<and> pending m' = pending m"
proof (cases a)
  case InitializeA
  then have m: "mgr_ok m" using mgr_ok_drop [OF ok] by simp
  have "mgr_ok m' \<and> pending m' = pending m"
    using s InitializeA m by (auto simp: syncWithDB_def split: sum.splits prod.splits dest!: init_loop_ok)
  then show ?thesis using same_index_ok [OF same_index_send] by blast
next
  case (PutJobA jid)
  show ?thesis
  proof (cases "map_of (jobs m) jid = None \<and> map_of (deletedJobs m) jid \<noteq> None \<and> e = None")
    case True
    let ?m = "m\<lparr>deletedJobs := AList.delete jid (deletedJobs m)\<rparr>"
    have m': "m' = ?m" using s PutJobA True by (auto simp: syncWithDB_def split: prod.splits)
    have "mgr_ok (?m\<lparr>pending := a # pending ?m\<rparr>)" using mgr_ok_undelete(1) [OF ok, of jid] by simp
    then have "mgr_ok ?m"
      by (rule mgr_ok_drop) (use PutJobA mgr_okD(3) [OF ok] in \<open>auto simp: sm.load_delete\<close>)
    then show ?thesis using m' same_index_ok [OF same_index_send] by auto
  next
    case False
    then have m': "m' = m" using s PutJobA by (auto simp: syncWithDB_def split: prod.splits option.splits if_splits)
    have "e = None \<longrightarrow> mgr_ok m" using mgr_ok_drop [OF ok] False PutJobA by auto
    then show ?thesis using m' mgr_ok_back [OF ok] by simp
  qed
next
  case (PutCheckpointA i)
  show ?thesis
  proof (cases "map_of (checkpoints m) i = None \<and> map_of (deletedCheckpoints m) i \<noteq> None \<and> e = None")
    case True
    let ?m = "m\<lparr>deletedCheckpoints := AList.delete i (deletedCheckpoints m)\<rparr>"
    have m': "m' = ?m" using s PutCheckpointA True by (auto simp: syncWithDB_def split: prod.splits)
    have "mgr_ok (?m\<lparr>pending := a # pending ?m\<rparr>)" using mgr_ok_undelete(2) [OF ok, of i] by simp
    then have "mgr_ok ?m"
      by (rule mgr_ok_drop) (use PutCheckpointA mgr_okD(4) [OF ok] in \<open>auto simp: sm.load_delete\<close>)
    then show ?thesis using m' same_index_ok [OF same_index_send] by auto
  next
    case False
    then have m': "m' = m" using s PutCheckpointA by (auto simp: syncWithDB_def split: prod.splits option.splits if_splits)
    have "e = None \<longrightarrow> mgr_ok m" using mgr_ok_drop [OF ok] False PutCheckpointA by auto
    then show ?thesis using m' mgr_ok_back [OF ok] by simp
  qed
next
  case Shutdown
  then have "mgr_ok m" using mgr_ok_drop [OF ok] by simp
  then show ?thesis using s Shutdown same_index_ok [OF same_index_send] by (auto simp: syncWithDB_def)
qed

lemma sync_turn_ok: "sync_turn ops m d = (m', d') \<Longrightarrow> mgr_ok m \<Longrightarrow> mgr_ok m'"
proof (cases "pending m")
  case (Cons a as)
  assume t: "sync_turn ops m d = (m', d')" and ok: "mgr_ok m"
  let ?m = "m\<lparr>pending := as\<rparr>"
  obtain e m1 d1 where s: "syncWithDB ops a ?m d = (e, m1, d1)" by (metis surj_pair)
  have "?m\<lparr>pending := a # pending ?m\<rparr> = m" using Cons by (cases m) simp
  then have "mgr_ok (?m\<lparr>pending := a # pending ?m\<rparr>)" using ok by metis
  from syncWithDB_ok [OF s this] t s Cons show ?thesis by (auto simp: sync_turn_def split: option.splits)
qed (simp add: sync_turn_def)

section \<open>Reachable states\<close>

text \<open>
  The steps of a manager together with its database: the methods of the interface, the goroutines that see a
  process exit, the setters that the adapters call on a job, the timer of the background routine and its turns.
\<close>

inductive mgr_step :: "mgr_env \<Rightarrow> 'd db_ops \<Rightarrow> mgr \<times> 'd \<Rightarrow> mgr \<times> 'd \<Rightarrow> bool" for env ops where
  new: "New jid t m = (r, m') \<Longrightarrow> mgr_step env ops (m, d) (m', d)"
| get: "Get env jid m = Some (r, m') \<Longrightarrow> mgr_step env ops (m, d) (m', d)"
| list: "List env jids m = Some (r, m') \<Longrightarrow> mgr_step env ops (m, d) (m', d)"
| list_by_host: "ListByHostIDs env hs m = Some (r, m') \<Longrightarrow> mgr_step env ops (m, d) (m', d)"
| manage: "Manage env jid pid m = Some (e, m') \<Longrightarrow> mgr_step env ops (m, d) (m', d)"
| kill: "Kill env jid sig m = Some (e, m') \<Longrightarrow> mgr_step env ops (m, d) (m', d)"
| exited: "w \<in> set (waiting m) \<Longrightarrow> job_exited env w m = Inr m' \<Longrightarrow> mgr_step env ops (m, d) (m', d)"
| set_log: "mgr_step env ops (m, d) (set_job a (SetLog l (heap m ! a)) m, d)"
| set_details: "SetDetails ds (heap m ! a) = Some j \<Longrightarrow> mgr_step env ops (m, d) (set_job a j m, d)"
| sync_given: "Sync (jenv env) (Some st) (heap m ! a) = Some j \<Longrightarrow> mgr_step env ops (m, d) (set_job a j m, d)"
| add_checkpoint: "mgr_step env ops (m, d) (AddCheckpoint env jid ps m, d)"
| delete_checkpoint: "mgr_step env ops (m, d) (m_DeleteCheckpoint i m, d)"
| delete: "mgr_step env ops (m, d) (Delete jid m, d)"
| tick: "mgr_step env ops (m, d) (send InitializeA m, d)"
| sync: "mgr_Sync ops m d = (e, m', d') \<Longrightarrow> mgr_step env ops (m, d) (m', d')"
| turn: "sync_turn ops m d = (m', d') \<Longrightarrow> mgr_step env ops (m, d) (m', d')"

inductive mgr_reach :: "mgr_env \<Rightarrow> 'd db_ops \<Rightarrow> mgr \<times> 'd \<Rightarrow> bool" for env ops where
  start: "NewManagerLazy ops h d = Inr m \<Longrightarrow> mgr_reach env ops (m, d)"
| step: "mgr_reach env ops s \<Longrightarrow> mgr_step env ops s s' \<Longrightarrow> mgr_reach env ops s'"

lemma mgr_Sync_ok: "mgr_Sync ops m d = (e, m', d') \<Longrightarrow> mgr_ok m \<Longrightarrow> mgr_ok m'"
  by (auto simp: mgr_Sync_def syncWithDB_def split: sum.splits prod.splits dest!: init_loop_ok)

lemma mgr_step_ok: "mgr_step env ops s s' \<Longrightarrow> mgr_ok (fst s) \<Longrightarrow> mgr_ok (fst s')"
proof (induction rule: mgr_step.induct)
  case (set_details ds m a j d)
  then have "JID j = JID (heap m ! a)" "jJID (job_msg j) = jJID (job_msg (heap m ! a))"
    by (auto simp: SetDetails_def split: option.splits)
  then show ?case using set_details.prems same_index_ok [OF same_index_set_job] by simp
next
  case (set_log m d a l)
  then show ?case using same_index_ok [OF same_index_set_job] by (simp add: SetLog_def)
next
  case (sync_given st m a j d)
  then show ?case using same_index_ok [OF same_index_set_job] by (auto simp: Sync_def dest!: job_sync_JID)
qed (auto simp: New_ok mgr_Sync_ok AddCheckpoint_ok DeleteCheckpoint_ok Delete_ok sync_turn_ok List_def ListByHostIDs_def
    intro: same_index_ok [OF Get_index] same_index_ok [OF range_refresh_index] same_index_ok [OF Manage_index]
      same_index_ok [OF Kill_index] same_index_ok [OF job_exited_index] same_index_ok [OF same_index_send])

lemma NewManagerLazy_ok: "NewManagerLazy ops h d = Inr m \<Longrightarrow> mgr_ok m"
  by (auto simp: NewManagerLazy_def mgr_Sync_def syncWithDB_def mgr_ok_new split: sum.splits prod.splits option.splits
      dest!: init_loop_ok [OF _ mgr_ok_new])

lemma reach_ok: "mgr_reach env ops s \<Longrightarrow> mgr_ok (fst s)"
  by (induction rule: mgr_reach.induct) (auto simp: NewManagerLazy_ok intro: mgr_step_ok)

text \<open>
  C7: the manager's maps stay sound and no deletion is forgotten. In every reachable state a job is stored under its own
  JID and a checkpoint under its own ID, no key occurs twice, and every deleted job or checkpoint that
  was not created again still has an action in the queue that will delete it from the database. This holds for every
  interleaving of the manager's methods, exiting processes and the background routine, and whatever the
  database answers.
\<close>

theorem mgr_reach_ok:
  assumes "mgr_reach env ops s"
  shows "mgr_ok (fst s)"
  using assms by (rule reach_ok)

end
