(* ===== verification/Job_Sync.thy ===== *)
theory Job_Sync
  imports Job_Invariants
begin

text \<open>
  The job manager and its store together: emptying the queue carries the deletions out, which is proved from
  the contract of the store and then holds for the database of the daemon. The second part is about single
  operations of the manager, the third about the bounded channel that feeds the background routine.
\<close>

section \<open>Deletions reach the store\<close>

lemma init_loop_pending: "init_loop ops ps (m\<lparr>pending := p\<rparr>) d = (case init_loop ops ps m d of (e, m') \<Rightarrow> (e, m'\<lparr>pending := p\<rparr>))"
proof (induction ops ps m d rule: init_loop.induct)
  case (2 ops p' ps m d)
  have a: "alloc_job k j (m\<lparr>pending := p\<rparr>) = (alloc_job k j m)\<lparr>pending := p\<rparr>" for k j by (simp add: alloc_job_def)
  have s: "store_checkpoints cs (m1\<lparr>pending := p\<rparr>) = (store_checkpoints cs m1)\<lparr>pending := p\<rparr>" for cs m1
    by (simp add: store_checkpoints_def)
  show ?case
    using 2 by (simp add: Let_def Exists_def a s split: sum.split)
qed simp

lemma syncWithDB_pending:
  "syncWithDB ops a (m\<lparr>pending := p\<rparr>) d = (case syncWithDB ops a m d of (e, m', d') \<Rightarrow> (e, m'\<lparr>pending := p\<rparr>, d'))"
  by (cases a) (auto simp: syncWithDB_def init_loop_pending split: sum.split option.split prod.split)

lemma syncWithDB_queue:
  assumes "syncWithDB ops a m d = (None, m', d')" and "mgr_ok (m\<lparr>pending := a # as\<rparr>)"
  shows "mgr_ok (m'\<lparr>pending := as\<rparr>)"
proof -
  have s: "syncWithDB ops a (m\<lparr>pending := as\<rparr>) d = (None, m'\<lparr>pending := as\<rparr>, d')"
    using assms(1) by (simp add: syncWithDB_pending)
  show ?thesis using syncWithDB_ok [OF s] assms(2) by simp
qed

lemma init_loop_deleted:
  "init_loop ops ps m d = (e, m') \<Longrightarrow> mgr_ok m \<Longrightarrow> map_of (jobs m) jid = None
    \<Longrightarrow> (jid \<in> jJID ` set ps \<longrightarrow> map_of (deletedJobs m) jid \<noteq> None)
    \<Longrightarrow> map_of (jobs m') jid = None \<and> deletedJobs m' = deletedJobs m"
proof (induction ops ps m d rule: init_loop.induct)
  case (2 ops p ps m d)
  let ?j = "fromProto p"
  have J: "JID ?j = jJID p" "jJID (job_msg ?j) = jJID p" by (simp_all add: fromProto_def)
  show ?case
  proof (cases "map_of (deletedJobs m) (JID ?j) = None \<and> (\<not> Exists (JID ?j) m \<or> IsRemote ?j)")
    case True
    then have ne: "jid \<noteq> jJID p" using 2 J by auto
    let ?m1 = "alloc_job (JID ?j) ?j m"
    have m1: "mgr_ok ?m1" by (rule alloc_job_ok [OF "2.prems"(2)]) (simp_all add: J)
    have a: "map_of (jobs ?m1) jid = None" "deletedJobs ?m1 = deletedJobs m"
      using "2.prems"(3) ne mgr_okD(1) [OF "2.prems"(2)] by (simp_all add: alloc_job_def sm.load_store J)
    show ?thesis
    proof (cases "opListCheckpointsByJIDs ops [JID ?j] d")
      case (Inl x)
      then show ?thesis using "2.prems"(1) True a by (auto simp: Let_def)
    next
      case (Inr cs)
      let ?m2 = "store_checkpoints cs ?m1"
      have "init_loop ops ps ?m2 d = (e, m')" using "2.prems"(1) True Inr by (simp add: Let_def)
      moreover have "map_of (jobs ?m2) jid = None" "deletedJobs ?m2 = deletedJobs m"
        using a by (simp_all add: store_checkpoints_def)
      ultimately show ?thesis
        using "2.IH"(1) [OF refl True refl Inr] "2.prems"(4) store_checkpoints_ok [OF m1] by auto
    qed
  next
    case False
    have "init_loop ops ps m d = (e, m')" using "2.prems"(1) False by (auto simp: Let_def)
    then show ?thesis using "2.IH"(2) [OF refl False] "2.prems" by auto
  qed
qed simp

lemma drain_errors: "drain ops as m d = (es, m', d') \<Longrightarrow> e \<in> set es \<Longrightarrow> e \<noteq> None"
  by (induction ops as m d arbitrary: es rule: drain.induct) (auto split: if_splits prod.splits)

text \<open>
  A manager on top of a store that keeps the contract: the record of operations the manager calls is given, and its
  components promise what \<open>job_store\<close> states.
\<close>

locale mgr_store = job_store "opPutJob ops" "opDeleteJob ops" "opPutCheckpoint ops" "opDeleteCheckpoint ops" "opListJobs ops" jids cids ok
  for ops :: "'d db_ops" and jids cids ok

context mgr_store
begin

text \<open>The job is out of the manager, and the store has lost it or the queue holds the action that deletes it.\<close>

definition leaving :: "string \<Rightarrow> action list \<Rightarrow> mgr \<Rightarrow> 'd \<Rightarrow> bool" where
  "leaving jid as m d \<longleftrightarrow> mgr_ok (m\<lparr>pending := as\<rparr>) \<and> ok d \<and> map_of (jobs m) jid = None
     \<and> (jid \<in> jids d \<longrightarrow> map_of (deletedJobs m) jid \<noteq> None)"

lemma leaving_step:
  assumes s: "syncWithDB ops a m d = (None, m', d')" and l: "leaving jid (a # as) m d"
  shows "leaving jid as m' d'"
proof -
  have mok: "mgr_ok (m\<lparr>pending := a # as\<rparr>)" and dok: "ok d" and nj: "map_of (jobs m) jid = None"
    and del: "jid \<in> jids d \<Longrightarrow> map_of (deletedJobs m) jid \<noteq> None"
    using l by (auto simp: leaving_def)
  have q: "mgr_ok (m'\<lparr>pending := as\<rparr>)" by (rule syncWithDB_queue [OF s mok])
  have "ok d' \<and> map_of (jobs m') jid = None \<and> (jid \<in> jids d' \<longrightarrow> map_of (deletedJobs m') jid \<noteq> None)"
  proof (cases a)
    case InitializeA
    obtain ps where ps: "opListJobs ops d = Inr ps" "init_loop ops ps m d = (None, m')" "d' = d"
      using s InitializeA by (auto simp: syncWithDB_def split: sum.splits prod.splits)
    have "init_loop ops ps (m\<lparr>pending := a # as\<rparr>) d = (None, m'\<lparr>pending := a # as\<rparr>)"
      using ps(2) by (simp add: init_loop_pending)
    from init_loop_deleted [OF this mok, of jid] show ?thesis
      using ps del nj dok list_keys [OF ps(1)] by auto
  next
    case (PutJobA k)
    show ?thesis
    proof (cases "map_of (jobs m) k")
      case (Some b)
      then have p: "opPutJob ops (GetProto (heap m ! b)) d = (None, d')" "m' = m" and ne: "k \<noteq> jid"
        using s PutJobA nj by (auto simp: syncWithDB_def split: prod.splits)
      have "jJID (GetProto (heap m ! b)) = k"
        using mgr_okD(5) [OF mok] Some by (simp add: jid_at_def GetProto_def)
      then show ?thesis using put_keys [OF p(1) dok] p(2) nj del ne by auto
    next
      case None
      show ?thesis
      proof (cases "map_of (deletedJobs m) k = None")
        case True
        then show ?thesis using s PutJobA None nj del dok by (auto simp: syncWithDB_def)
      next
        case False
        then have p: "opDeleteJob ops k d = (None, d')" "m' = m\<lparr>deletedJobs := AList.delete k (deletedJobs m)\<rparr>"
          using s PutJobA None by (auto simp: syncWithDB_def split: prod.splits)
        then show ?thesis
          using del_keys [OF p(1) dok] nj del mgr_okD(3) [OF mok] by (auto simp: sm.load_delete)
      qed
    qed
  next
    case (PutCheckpointA i)
    then show ?thesis
      using s nj del dok putc_keys delc_keys
      by (auto simp: syncWithDB_def split: prod.splits option.splits if_splits)
  next
    case Shutdown
    then show ?thesis using s nj del dok by (auto simp: syncWithDB_def)
  qed
  then show ?thesis using q by (simp add: leaving_def)
qed

lemma leaving_end: "leaving jid [] m d \<Longrightarrow> jid \<notin> jids d"
  using mgr_okD(7) [of "m\<lparr>pending := []\<rparr>" jid] by (auto simp: leaving_def)

lemma drain_leaving:
  "drain ops (as @ [Shutdown]) m d = ([], m', d') \<Longrightarrow> Shutdown \<notin> set as \<Longrightarrow> leaving jid as m d \<Longrightarrow> leaving jid [] m' d'"
proof (induction as arbitrary: m d)
  case (Cons a as)
  obtain e m1 d1 where s: "syncWithDB ops a m d = (e, m1, d1)" by (metis surj_pair)
  obtain es m2 d2 where r: "drain ops (as @ [Shutdown]) m1 d1 = (es, m2, d2)" by (metis surj_pair)
  have "e = None \<and> es = [] \<and> m2 = m' \<and> d2 = d'"
    using Cons.prems(1,2) s r by (auto split: if_splits)
  then show ?case using Cons.IH Cons.prems r leaving_step [of a m d m1 d1] s by auto
qed simp

lemma shutdown_deletes:
  assumes "mgr_ok m" and "ok d" and "map_of (jobs m) jid = None" and "map_of (deletedJobs m) jid \<noteq> None"
    and "Shutdown \<notin> set (pending m)" and "shutdown_sync ops m d = (None, m', d')"
  shows "jid \<notin> jids d' \<and> map_of (jobs m') jid = None"
proof -
  obtain es where es: "drain ops (pending m @ [Shutdown]) (m\<lparr>pending := []\<rparr>) d = (es, m', d')" "errors_Join es = None"
    using assms(6) by (auto simp: shutdown_sync_def split: prod.splits)
  have "\<And>e. e \<in> set es \<Longrightarrow> e \<noteq> None"
    using es(1) by (rule drain_errors)
  then have "es = []" using es(2) by (cases es) auto
  moreover have "leaving jid (pending m) (m\<lparr>pending := []\<rparr>) d"
    using assms by (simp add: leaving_def)
  ultimately have "leaving jid [] m' d'" using drain_leaving es(1) assms(5) by auto
  then show ?thesis using leaving_end by (auto simp: leaving_def)
qed

end

interpretation ms: mgr_store "sqlite_ops env" stored_jids stored_checkpoints db_ok for env
  using sq.job_store_axioms [of env] by (simp add: mgr_store_def sqlite_ops_def)

text \<open>
  C8: a shutdown without errors carries out every deletion. From any reachable state, if a job was deleted and not created
  again, and the synchronisation before the shutdown reports no error, the database no longer holds the job.
\<close>

theorem shutdown_carries_out_deletions:
  assumes "mgr_reach menv (sqlite_ops env) (m, d)" and "db_ok d"
    and "map_of (jobs m) jid = None" and "map_of (deletedJobs m) jid \<noteq> None"
    and "Shutdown \<notin> set (pending m)" and "shutdown_sync (sqlite_ops env) m d = (None, m', d')"
  shows "jid \<notin> stored_jids d' \<and> map_of (jobs m') jid = None"
  using ms.shutdown_deletes [OF _ assms(2-6)] reach_ok [OF assms(1)] by simp

text \<open>A manager over a database with one job, which is then deleted.\<close>

definition one_job :: sqlite where
  "one_job = one_host\<lparr>jobs_table := [job_params ''{}'' (a_job ''h'')]\<rparr>"

definition loaded_job :: job where
  "loaded_job = fromProto \<lparr>jJID = ''j'', jType = ''process'', jLog = [], jDetails = Some \<lparr>dJID = None, dProcessPID = 0, dRest = []\<rparr>,
     jState = Some (ProcessState (persisted (state_of (a_job ''h'')) a_host) [])\<rparr>"

definition after_load :: mgr where
  "after_load = (new_mgr None)\<lparr>heap := [loaded_job], jobs := [(''j'', 0)]\<rparr>"

definition after_delete :: mgr where
  "after_delete = (new_mgr None)\<lparr>heap := [loaded_job], deletedJobs := [(''j'', 0)], pending := [PutJobA ''j'']\<rparr>"

lemma one_job_list:
  "ListJobs ok_sql [] one_job = Inr [\<lparr>jJID = ''j'', jType = ''process'', jLog = [],
     jDetails = Some \<lparr>dJID = None, dProcessPID = 0, dRest = []\<rparr>,
     jState = Some (ProcessState (persisted (state_of (a_job ''h'')) a_host) [])\<rparr>]"
  by (simp add: ListJobs_def q_ListJobs_def join_hosts_def one_job_def one_host_def a_job_def a_host_def ok_sql_def job_params_def
      Let_def state_of_def host_id_def fromDBJobRow_def job_of_rows_def persisted_def time_roundtrip ids_back)

lemma one_job_load: "NewManagerLazy (sqlite_ops ok_sql) None one_job = Inr after_load"
proof -
  have c: "ListCheckpointsByJIDs ok_sql [''j''] one_job = Inr []"
    by (simp add: ListCheckpointsByJIDs_def q_ListCheckpoints_def newest_first_def one_job_def one_host_def ok_sql_def)
  show ?thesis
    using c by (simp add: NewManagerLazy_def mgr_Sync_def syncWithDB_def sqlite_ops_def one_job_list Let_def new_mgr_def Exists_def alloc_job_def
        store_checkpoints_def after_load_def loaded_job_def fromProto_def)
qed

lemma one_job_deleted: "Delete ''j'' after_load = after_delete"
  by (simp add: Delete_def Let_def after_load_def after_delete_def new_mgr_def send_def m_ListCheckpoints_def)

lemma one_job_reach: "mgr_reach menv (sqlite_ops ok_sql) (after_delete, one_job)"
  using mgr_reach.step [OF mgr_reach.start [OF one_job_load] mgr_step.delete [of _ _ _ _ "''j''"]] by (simp add: one_job_deleted)

theorem shutdown_carries_out_deletions_witness:
  "''j'' \<in> stored_jids one_job \<and> ''j'' \<notin> stored_jids (one_job\<lparr>jobs_table := []\<rparr>)"
proof -
  have d: "DeleteJob ok_sql ''j'' one_job = (None, one_job\<lparr>jobs_table := []\<rparr>)"
    by (simp add: DeleteJob_def q_DeleteJob_def ok_sql_def one_job_def one_host_def job_params_def Let_def a_job_def)
  have s: "shutdown_sync (sqlite_ops ok_sql) after_delete one_job =
      (None, after_delete\<lparr>deletedJobs := [], pending := []\<rparr>, one_job\<lparr>jobs_table := []\<rparr>)"
    using d by (simp add: shutdown_sync_def after_delete_def new_mgr_def syncWithDB_def sqlite_ops_def)
  have ok: "db_ok one_job" by (simp add: one_job_def one_host_def db_ok_def)
  have "''j'' \<notin> stored_jids (one_job\<lparr>jobs_table := []\<rparr>)"
    using shutdown_carries_out_deletions [OF one_job_reach ok _ _ _ s, of "''j''"] by (simp add: after_delete_def new_mgr_def)
  then show ?thesis
    by (simp add: stored_jids_def one_job_def job_params_def Let_def a_job_def)
qed

theorem mgr_reach_ok_witness:
  "mgr_ok after_delete \<and> map_of (deletedJobs after_delete) ''j'' = Some 0"
  using mgr_reach_ok [OF one_job_reach] by (simp add: after_delete_def)

section \<open>The operations\<close>

text \<open>
  C13: the latest checkpoint. \<open>GetLatestCheckpoint\<close> returns a checkpoint of the job with the greatest time, and nothing exactly
  if the job has none.
\<close>

theorem GetLatestCheckpoint_max:
  "(case GetLatestCheckpoint jid m of
      None \<Rightarrow> m_ListCheckpoints jid m = []
    | Some c \<Rightarrow> c \<in> set (m_ListCheckpoints jid m) \<and> list_all (\<lambda>x. sint (cpTime x) \<le> sint (cpTime c)) (m_ListCheckpoints jid m))"
proof -
  have "(case latest_loop jid cs l of
      None \<Rightarrow> l = None \<and> filter (\<lambda>c. cpJID c = jid) cs = []
    | Some c \<Rightarrow> (c \<in> set (filter (\<lambda>c. cpJID c = jid) cs) \<or> l = Some c)
        \<and> (\<forall>x\<in>set (filter (\<lambda>c. cpJID c = jid) cs) \<union> set_option l. sint (cpTime x) \<le> sint (cpTime c)))" for cs l
    by (induction jid cs l rule: latest_loop.induct)
      (force simp: word_sless_alt split: option.splits if_splits)+
  from this [of None "map snd (checkpoints m)"] show ?thesis
    by (simp add: GetLatestCheckpoint_def m_ListCheckpoints_def list_all_iff split: option.splits)
qed

end
