(* ===== verification/Job_Lifecycle.thy ===== *)
theory Job_Lifecycle
  imports Job_Sync
begin

text \<open>
  The life of a job in the manager: taking a process under management, its exit, killing it, its deletion, and
  the bounded channel that feeds the background routine.
\<close>

section \<open>The exit of a job\<close>

lemma cleanup_call_outcome:
  assumes "a < length (heap m)" and "job_done (heap m ! a) = Some ch" and "chanClosed ch \<or> chanBuf ch = []"
  shows "case snd (cleanup_call a t v (m, False)) of (m2, blocked) \<Rightarrow>
    \<not> blocked \<and> map_option chanClosed (job_done (heap m2 ! a)) = Some (chanClosed ch) \<and> length (heap m2) = length (heap m)"
proof (cases "v (GetDetails (heap m ! a))")
  case (Returned e)
  then show ?thesis using assms by (cases e) (auto simp: cleanup_call_def chan_send_def set_job_def)
qed (use assms in \<open>simp add: cleanup_call_def\<close>)

lemma cleanup_outcome:
  assumes "a < length (heap m)" and "job_done (heap m ! a) = Some ch" and "chanClosed ch \<or> chanBuf ch = []"
  obtains m2 ch2 where "snd (IfAvailable ''Custom cleanup'' (cleanup_call a) [t] (AList.clearjunk (cleanups env)) (m, False)) = (m2, False)"
    "job_done (heap m2 ! a) = Some ch2" "chanClosed ch2 = chanClosed ch" "length (heap m2) = length (heap m)"
proof (rule IfAvailable_single [where feature = "''Custom cleanup''" and do = "cleanup_call a" and t = t and s = "(m, False)"
      and ps = "AList.clearjunk (cleanups env)"])
  show "distinct (map fst (AList.clearjunk (cleanups env)))" by (rule distinct_clearjunk)
next
  assume "snd (IfAvailable ''Custom cleanup'' (cleanup_call a) [t] (AList.clearjunk (cleanups env)) (m, False)) = (m, False)"
  then show thesis using assms by (intro that) simp_all
next
  fix v
  assume "snd (IfAvailable ''Custom cleanup'' (cleanup_call a) [t] (AList.clearjunk (cleanups env)) (m, False))
    = snd (cleanup_call a t v (m, False))"
  moreover obtain m2 ch2 where "snd (cleanup_call a t v (m, False)) = (m2, False)" "job_done (heap m2 ! a) = Some ch2"
      "chanClosed ch2 = chanClosed ch" "length (heap m2) = length (heap m)"
    using cleanup_call_outcome [OF assms, of t v] by (cases "snd (cleanup_call a t v (m, False))") auto
  ultimately show thesis using that by simp
qed

lemma job_exited_closed:
  assumes "a < length (heap m)" and "job_done (heap m ! a) = Some ch" and "chanClosed ch"
  shows "job_exited env (jid, pid, a) m = Inl (Panic ''close of closed channel'')"
  by (rule cleanup_outcome [where m = "m\<lparr>detached := detached m @ [pid], waiting := remove1 (jid, pid, a) (waiting m)\<rparr>"
        and a = a and ch = ch and t = "GetType (heap m ! a)" and env = env])
    (use assms in \<open>simp_all add: job_exited_def\<close>)

lemma job_exited_open:
  assumes "a < length (heap m)" and "job_done (heap m ! a) = Some \<lparr>chanBuf = [], chanClosed = False\<rparr>"
  obtains m' ch where "job_exited env (jid, pid, a) m = Inr m'" "job_done (heap m' ! a) = Some ch" "chanClosed ch"
    "length (heap m') = length (heap m)"
  by (rule cleanup_outcome [where m = "m\<lparr>detached := detached m @ [pid], waiting := remove1 (jid, pid, a) (waiting m)\<rparr>"
        and a = a and t = "GetType (heap m ! a)" and env = env])
    (use assms in \<open>auto simp: job_exited_def set_job_def intro: that\<close>)

section \<open>Taking a process under management\<close>

lemma Find_Some:
  assumes "Find pid m = Some b" and "sm_ok (jobs m)"
  shows "\<exists>jid. map_of (jobs m) jid = Some b \<and> GetPID (heap m ! b) = pid"
proof -
  obtain jid where f: "List.find (\<lambda>(jid, a). GetPID (heap m ! a) = pid) (jobs m) = Some (jid, b)"
    using assms(1) by (auto simp: Find_def)
  then have "(jid, b) \<in> set (jobs m)" "GetPID (heap m ! b) = pid" by (auto simp: find_Some_iff) (metis nth_mem)
  then show ?thesis using assms(2) by auto
qed

lemma Find_None: "Find pid m = None \<Longrightarrow> map_of (jobs m) jid = Some b \<Longrightarrow> GetPID (heap m ! b) \<noteq> pid"
  by (auto simp: Find_def find_None_iff dest: map_of_SomeD)

lemma GetPID_SetPID [simp]: "GetPID (SetPID pid j) = pid" "jState (job_msg (SetPID pid j)) \<noteq> None"
  by (simp_all add: GetPID_def SetPID_def update_state_def state_of_def split: option.split)

lemma GetPID_done [simp]: "GetPID (j\<lparr>job_done := c\<rparr>) = GetPID j"
  by (simp add: GetPID_def)

lemma Manage_Some:
  assumes "Manage env jid pid m = Some (None, m')" and "mgr_ok m"
  obtains a j where "map_of (jobs m) jid = Some a" "a < length (heap m)" "pid \<noteq> 0" "GetPID j = pid"
    "\<And>b. Find pid m = Some b \<Longrightarrow> JID (heap m ! b) = jid"
    "m' = send (PutJobA jid) (set_job a (j\<lparr>job_done := Some \<lparr>chanBuf = [], chanClosed = False\<rparr>\<rparr>)
        (m\<lparr>waiting := waiting m @ [(jid, pid, a)]\<rparr>))"
    "GetType j = GetType (heap m ! a)"
proof -
  obtain a where a: "map_of (jobs m) jid = Some a"
    using assms(1) by (auto simp: Manage_def lookup_def split: option.splits)
  then have l: "a < length (heap m)" using mgr_okD(5) [OF assms(2) a] by simp
  obtain j where j: "SyncDeep (jenv env) None (SetPID pid (heap m ! a)) = Some j"
    using assms(1) a by (auto simp: Manage_def lookup_def split: option.splits if_splits)
  have t: "GetType (SetPID pid (heap m ! a)) = GetType (heap m ! a)"
    by (simp add: GetType_def SetPID_def update_state_def)
  have k: "GetPID j = pid" "GetType j = GetType (heap m ! a)"
    using job_sync_keeps [OF j [unfolded SyncDeep_def]] t by simp_all
  show thesis
    using that [OF a l _ k(1) _ _ k(2)] assms(1) a j by (auto simp: Manage_def lookup_def split: option.splits if_splits)
qed

text \<open>
  C9: a managed process belongs to one job. If \<open>Manage\<close> succeeds with a PID that the job did not have before, the job has the PID,
  no other job has it, \<open>Find\<close> returns this job, the database will learn of it, and a goroutine waits for the exit.
  Receiving from the job's channel blocks in that state, and returns once the goroutine has handled the exit.
\<close>

theorem Manage_success:
  assumes ok: "mgr_ok m" and man: "Manage env jid pid m = Some (None, m')"
    and fresh: "lookup jid m = Some a" "GetPID (heap m ! a) \<noteq> pid"
  shows "lookup jid m' = Some a \<and> GetPID (heap m' ! a) = pid \<and> Find pid m' = Some a
    \<and> (\<forall>k b. lookup k m' = Some b \<and> GetPID (heap m' ! b) = pid \<longrightarrow> k = jid)
    \<and> PutJobA jid \<in> set (pending m') \<and> (jid, pid, a) \<in> set (waiting m') \<and> recv (Done jid m') = None
    \<and> (\<exists>m''. job_exited env (jid, pid, a) m' = Inr m'' \<and> recv (Done jid m'') \<noteq> None)"
proof -
  obtain j where a: "map_of (jobs m) jid = Some a" "a < length (heap m)" and pid: "GetPID j = pid"
    and f: "\<And>b. Find pid m = Some b \<Longrightarrow> JID (heap m ! b) = jid"
    and m': "m' = send (PutJobA jid) (set_job a (j\<lparr>job_done := Some \<lparr>chanBuf = [], chanClosed = False\<rparr>\<rparr>)
        (m\<lparr>waiting := waiting m @ [(jid, pid, a)]\<rparr>))"
    by (rule Manage_Some [OF man ok]) (use fresh in \<open>auto simp: lookup_def\<close>)
  have h: "heap m' = (heap m)[a := j\<lparr>job_done := Some \<lparr>chanBuf = [], chanClosed = False\<rparr>\<rparr>]" and js: "jobs m' = jobs m"
    by (simp_all add: m' send_def set_job_def)
  have key: "JID (heap m ! b) = k" if "map_of (jobs m) k = Some b" for k b
    using mgr_okD(5) [OF ok that] by (simp add: jid_at_def)
  have none: "Find pid m = None"
  proof (cases "Find pid m")
    case (Some c)
    from Find_Some [OF Some mgr_okD(1) [OF ok]] obtain k where k: "map_of (jobs m) k = Some c" "GetPID (heap m ! c) = pid" by blast
    then have "k = jid" using f [OF Some] key by simp
    then show ?thesis using k a(1) fresh(2) by simp
  qed simp
  have uniq: "k = jid" if k: "map_of (jobs m) k = Some b" "GetPID (heap m' ! b) = pid" for k b
    using Find_None [OF none k(1)] k key [OF k(1)] key [OF a(1)] h by (cases "b = a") auto
  have "GetPID (heap m' ! a) = pid" using h a(2) pid by simp
  moreover obtain c where c: "Find pid m' = Some c"
    using Find_None [of pid m' jid a] js a(1) \<open>GetPID (heap m' ! a) = pid\<close> by (cases "Find pid m'") auto
  moreover have "c = a"
  proof -
    obtain k where k: "map_of (jobs m) k = Some c" "GetPID (heap m' ! c) = pid"
      using Find_Some [OF c] js mgr_okD(1) [OF ok] by auto
    then show ?thesis using uniq [OF k] a(1) by simp
  qed
  moreover have "PutJobA jid \<in> set (pending m')" "(jid, pid, a) \<in> set (waiting m')" "recv (Done jid m') = None"
    using a by (simp_all add: m' send_def set_job_def recv_def Done_def lookup_def)
  moreover have "\<exists>m''. job_exited env (jid, pid, a) m' = Inr m'' \<and> recv (Done jid m'') \<noteq> None"
  proof (rule job_exited_open [where a = a and m = m' and env = env and jid = jid and pid = pid])
    fix m'' ch
    assume x: "job_exited env (jid, pid, a) m' = Inr m''" "job_done (heap m'' ! a) = Some ch" "chanClosed ch"
    then have "lookup jid m'' = Some a" using job_exited_index [OF x(1)] js a(1) by (simp add: same_index_def lookup_def)
    then show ?thesis using x by (auto simp: Done_def recv_def split: list.split)
  qed (use h a in simp_all)
  ultimately show ?thesis using uniq a(1) unfolding lookup_def js by blast
qed

text \<open>
  a PID is never released. If some other job has the PID, \<open>Manage\<close> refuses it, even when that job has halted or runs on another
  machine: the check looks at the stored PIDs only.
\<close>

theorem Manage_pid_taken:
  assumes "mgr_ok m" and "lookup jid m = Some a" and "GetPID (heap m ! a) \<noteq> pid"
    and "lookup k m = Some b" and "GetPID (heap m ! b) = pid" and "pid \<noteq> 0"
  shows "Manage env jid pid m =
    Some (Some (Errorf (''PID '' @ itoa (unat pid) @ '' is already being managed under job '' @ jid)), m)"
proof -
  obtain c where c: "Find pid m = Some c"
    using Find_None [of pid m k b] assms(4,5) by (cases "Find pid m") (auto simp: lookup_def)
  from Find_Some [OF c mgr_okD(1) [OF assms(1)]] obtain k' where k': "map_of (jobs m) k' = Some c" "GetPID (heap m ! c) = pid"
    by blast
  then have "JID (heap m ! c) \<noteq> jid"
    using mgr_okD(5) [OF assms(1) k'(1)] assms(2,3) by (auto simp: jid_at_def lookup_def)
  then show ?thesis using c assms(2,6) by (simp add: Manage_def)
qed

text \<open>
  C10: a second \<open>Manage\<close> ends in a panic. When a job is managed twice before its first process is reported as gone, both goroutines
  close the same channel: the first exit succeeds and wakes up the callers, the second one panics.
\<close>

theorem double_manage_panics:
  assumes ok: "mgr_ok m" and one: "Manage env jid p m = Some (None, m1)" and two: "Manage env jid q m1 = Some (None, m2)"
    and a: "lookup jid m = Some a"
  shows "\<exists>m3. job_exited env (jid, p, a) m2 = Inr m3
    \<and> job_exited env (jid, q, a) m3 = Inl (Panic ''close of closed channel'')"
proof -
  have ok1: "mgr_ok m1" by (rule same_index_ok [OF Manage_index [OF one] ok])
  have "map_of (jobs m1) jid = Some a" using Manage_index [OF one] a by (simp add: same_index_def lookup_def)
  then have "job_done (heap m2 ! a) = Some \<lparr>chanBuf = [], chanClosed = False\<rparr> \<and> a < length (heap m2)"
    by - (rule Manage_Some [OF two ok1], simp add: send_def set_job_def)
  then have d: "job_done (heap m2 ! a) = Some \<lparr>chanBuf = [], chanClosed = False\<rparr>" and l: "a < length (heap m2)" by simp_all
  obtain m3 ch where m3: "job_exited env (jid, p, a) m2 = Inr m3" "job_done (heap m3 ! a) = Some ch" "chanClosed ch"
      "length (heap m3) = length (heap m2)"
    by (rule job_exited_open [OF l d, of env jid p])
  then show ?thesis using job_exited_closed [of a m3 ch env jid q] l by auto
qed

section \<open>Killing a job\<close>

text \<open>
  C22: \<open>Kill\<close> signals a stranger. If the PID of a job has gone to a process with another command line, the job counts as running
  (its status is stale), so \<open>Kill\<close> sends its signal to the process, or the process group, that has the PID now.
\<close>

theorem Kill_signals_stranger:
  assumes "lookup jid m = Some a" and "a < length (heap m)" and st: "jState (job_msg (heap m ! a)) = Some st" "PID (info st) \<noteq> 0"
    and "\<forall>h. hostID (jenv env) = Inr h \<longrightarrow> host_id (info st) \<in> {[], h}"
    and "newProcess (procs (jenv env)) (PID (info st)) = None"
    and "Cmdline (info st) \<noteq> []" and "cmdlineOf (procs (jenv env)) (PID (info st)) = Inr c" and "c \<noteq> Cmdline (info st)"
  shows "\<exists>m' target sig. Kill env jid given m = Some (killErr env target sig, m') \<and> kills m' = kills m @ [(target, sig)]
    \<and> \<bar>target\<bar> = uint (PID (info st)) \<and> (given \<noteq> [] \<longrightarrow> sig = hd given)"
proof -
  have l: "latestState (jenv env) True (heap m ! a) = Some (ProcessState ((info st)\<lparr>PStatus := ''stale'', IsRunning := True\<rparr>) (Children st))"
    by (rule latestState_stale) (use assms in simp_all)
  obtain j where j: "job_sync (jenv env) True None (heap m ! a) = Some j" "GetPID j = PID (info st)" "job_IsRunning j"
    using l by (simp add: job_sync_def GetPID_def job_IsRunning_def state_of_def)
  obtain m1 where g: "Get env jid m = Some (Some a, m1)" "kills m1 = kills m" "GetPID (heap m1 ! a) = PID (info st)" "job_IsRunning (heap m1 ! a)"
  proof (cases "\<not> job_GPUEnabled j \<and> isAttached env (GetPID j)")
    case True
    have "GetPID (SetGPUEnabled True j) = GetPID j" "job_IsRunning (SetGPUEnabled True j) = job_IsRunning j"
      by (simp_all add: GetPID_def SetGPUEnabled_def update_state_def job_IsRunning_def state_of_def empty_info_def split: option.split)
    then show thesis
      using True j assms(1,2)
      by (intro that [of "send (PutJobA jid) (set_job a (SetGPUEnabled True j) m)"]) (simp_all add: Get_def refresh_def set_job_def send_def)
  next
    case False
    then show thesis using j assms(1,2) by (intro that [of "set_job a j m"]) (auto simp: Get_def refresh_def set_job_def)
  qed
  have e: "Exists jid m" using assms(1) by (simp add: Exists_def lookup_def)
  let ?sig = "kill_signal env (GetType (heap m1 ! a)) given"
  let ?target = "if GetPGID (jenv env) (heap m1 ! a) = PID (info st) then - uint (PID (info st)) else uint (PID (info st))"
  have "Kill env jid given m = Some (killErr env ?target ?sig, m1\<lparr>kills := kills m1 @ [(?target, ?sig)]\<rparr>)"
    using e g st(2) by (simp add: Kill_def Let_def)
  moreover have "\<bar>?target\<bar> = uint (PID (info st))" by simp
  moreover have "given \<noteq> [] \<longrightarrow> ?sig = hd given" by (cases given) (simp_all add: kill_signal_def)
  ultimately show ?thesis using g(2) by fastforce
qed

section \<open>Deleting a job\<close>

lemma DeleteCheckpoint_other:
  "mgr_ok m \<Longrightarrow> map_of (checkpoints (m_DeleteCheckpoint i m)) k = (if k = i then None else map_of (checkpoints m) k)"
  by (auto simp: m_DeleteCheckpoint_def send_def sm.load_delete mgr_okD(2) split: option.split)

lemma fold_DeleteCheckpoint:
  "mgr_ok m \<Longrightarrow> map_of (checkpoints (fold m_DeleteCheckpoint ids m)) k = (if k \<in> set ids then None else map_of (checkpoints m) k)
    \<and> jobs (fold m_DeleteCheckpoint ids m) = jobs m"
proof (induction ids arbitrary: m)
  case (Cons i ids)
  have j: "jobs (m_DeleteCheckpoint i m) = jobs m" by (simp add: m_DeleteCheckpoint_def send_def split: option.split)
  show ?case using Cons.IH [OF DeleteCheckpoint_ok [OF Cons.prems]] DeleteCheckpoint_other [OF Cons.prems] j by auto
qed simp

lemma m_ListCheckpoints_iff:
  assumes ok: "mgr_ok m"
  shows "c \<in> set (m_ListCheckpoints jid m) \<longleftrightarrow> cpJID c = jid \<and> map_of (checkpoints m) (cpID c) = Some c"
proof -
  have "c \<in> snd ` set (checkpoints m) \<longleftrightarrow> map_of (checkpoints m) (cpID c) = Some c"
  proof
    assume "c \<in> snd ` set (checkpoints m)"
    then obtain k where "(k, c) \<in> set (checkpoints m)" by auto
    then have k: "map_of (checkpoints m) k = Some c" using mgr_okD(2) [OF ok] by simp
    then show "map_of (checkpoints m) (cpID c) = Some c" using mgr_okD(6) [OF ok k] by simp
  next
    assume "map_of (checkpoints m) (cpID c) = Some c"
    then show "c \<in> snd ` set (checkpoints m)" by (metis map_of_SomeD image_eqI snd_conv)
  qed
  then show ?thesis by (auto simp: m_ListCheckpoints_def)
qed

text \<open>
  C11: deleting a job deletes its checkpoints and nothing else. Afterwards the job does not exist, none of its checkpoints is
  listed, and every other job and checkpoint is as before.
\<close>

theorem Delete_job:
  assumes ok: "mgr_ok m"
  shows "\<not> Exists jid (Delete jid m) \<and> (k \<noteq> jid \<longrightarrow> lookup k (Delete jid m) = lookup k m)
    \<and> (Exists jid m \<longrightarrow> m_ListCheckpoints jid (Delete jid m) = [])
    \<and> (k \<noteq> jid \<longrightarrow> set (m_ListCheckpoints k (Delete jid m)) = set (m_ListCheckpoints k m))"
proof (cases "map_of (jobs m) jid")
  case None
  then show ?thesis by (simp add: Delete_def Exists_def)
next
  case (Some a)
  let ?m1 = "send (PutJobA jid) (m\<lparr>jobs := AList.delete jid (jobs m), deletedJobs := AList.update jid a (deletedJobs m)\<rparr>)"
  let ?ids = "map cpID (m_ListCheckpoints jid ?m1)"
  have D: "Delete jid m = fold m_DeleteCheckpoint ?ids ?m1" using Some by (simp add: Delete_def Let_def)
  have lc: "m_ListCheckpoints x ?m1 = m_ListCheckpoints x m" for x by (simp add: m_ListCheckpoints_def send_def)
  have "mgr_ok ?m1" by (rule unlisted_ok [OF ok])
  note F = fold_DeleteCheckpoint [OF this, of ?ids]
  have j: "jobs (Delete jid m) = AList.delete jid (jobs m)" using F D by (simp add: send_def)
  have c: "map_of (checkpoints (Delete jid m)) i = (if i \<in> set ?ids then None else map_of (checkpoints m) i)" for i
    using F D by (simp add: send_def)
  have e: "c \<in> set (m_ListCheckpoints x (Delete jid m)) \<longleftrightarrow> x \<noteq> jid \<and> c \<in> set (m_ListCheckpoints x m)" for c x
    unfolding m_ListCheckpoints_iff [OF Delete_ok [OF ok]] m_ListCheckpoints_iff [OF ok] c
    by (auto simp: lc m_ListCheckpoints_iff [OF ok])
  show ?thesis
    using e j mgr_okD(1) [OF ok] by (auto simp: Exists_def lookup_def sm.load_delete) (metis list.set_intros(1) neq_Nil_conv)
qed

section \<open>The channel to the background routine\<close>

text \<open>
  The channel holds 64 actions, and the background routine is its only reader. It also writes to it: an action that failed, the
  periodic refresh, and the shutdown marker. A writer blocks while the channel is full.
\<close>

datatype bg = Selecting | Sending action | Joining | Stopping | Draining | Stopped

definition capacity :: nat where
  "capacity = 64"

definition full :: "mgr \<Rightarrow> bool" where
  "full m \<longleftrightarrow> capacity \<le> length (pending m)"

text \<open>
  What runs next to the background routine: the calls of the manager that can send to the channel, and the goroutine of a managed job whose process has
  exited. A call is a step once its last action has gone into the channel; until then it waits there and changes nothing that the
  background routine reads at its own sends.
\<close>

inductive call_step :: "mgr_env \<Rightarrow> mgr \<Rightarrow> mgr \<Rightarrow> bool" for env where
  new: "New jid t m = (r, m') \<Longrightarrow> call_step env m m'"
| get: "Get env jid m = Some (r, m') \<Longrightarrow> call_step env m m'"
| list: "List env jids m = Some (r, m') \<Longrightarrow> call_step env m m'"
| list_by_host: "ListByHostIDs env hs m = Some (r, m') \<Longrightarrow> call_step env m m'"
| manage: "Manage env jid pid m = Some (e, m') \<Longrightarrow> call_step env m m'"
| kill: "Kill env jid sig m = Some (e, m') \<Longrightarrow> call_step env m m'"
| exited: "w \<in> set (waiting m) \<Longrightarrow> job_exited env w m = Inr m' \<Longrightarrow> call_step env m m'"
| add_checkpoint: "call_step env m (AddCheckpoint env jid ps m)"
| delete_checkpoint: "call_step env m (m_DeleteCheckpoint i m)"
| delete: "call_step env m (Delete jid m)"

text \<open>
  The background routine among them. \<open>Sending\<close> is the routine at one of its own sends to the channel, \<open>Joining\<close> waits for the goroutines,
  \<open>Stopping\<close> is the send of the shutdown marker. The database answers what \<open>syncWithDB\<close> makes of its operations; the retry
  interval is the time until the next step.
\<close>

inductive routine_step :: "mgr_env \<Rightarrow> 'd db_ops \<Rightarrow> bg \<times> mgr \<times> 'd \<Rightarrow> bg \<times> mgr \<times> 'd \<Rightarrow> bool" for env ops where
  call: "call_step env m m' \<Longrightarrow> length (pending m') \<le> capacity \<Longrightarrow> routine_step env ops (b, m, d) (b, m', d)"
| take_ok: "pending m = act # q \<Longrightarrow> syncWithDB ops act (m\<lparr>pending := q\<rparr>) d = (None, m', d')
    \<Longrightarrow> routine_step env ops (Selecting, m, d) (Selecting, m', d')"
| take_failed: "pending m = act # q \<Longrightarrow> syncWithDB ops act (m\<lparr>pending := q\<rparr>) d = (Some e, m', d')
    \<Longrightarrow> routine_step env ops (Selecting, m, d) (Sending act, m', d')"
| timer: "routine_step env ops (Selecting, m, d) (Sending InitializeA, m, d)"
| put_back: "\<not> full m \<Longrightarrow> routine_step env ops (Sending act, m, d) (Selecting, send act m, d)"
| lifetime_done: "routine_step env ops (Selecting, m, d) (Joining, m, d)"
| joined: "waiting m = [] \<Longrightarrow> routine_step env ops (Joining, m, d) (Stopping, m, d)"
| put_shutdown: "\<not> full m \<Longrightarrow> routine_step env ops (Stopping, m, d) (Draining, send Shutdown m, d)"
| drain_one: "pending m = act # q \<Longrightarrow> act \<noteq> Shutdown \<Longrightarrow> syncWithDB ops act (m\<lparr>pending := q\<rparr>) d = (e, m', d')
    \<Longrightarrow> routine_step env ops (Draining, m, d) (Draining, m', d')"
| drain_end: "pending m = Shutdown # q \<Longrightarrow> routine_step env ops (Draining, m, d) (Stopped, m\<lparr>pending := q\<rparr>, d)"

inductive_cases routine_step_SendingE: "routine_step env ops (Sending act, m, d) s"
inductive_cases routine_step_StoppingE: "routine_step env ops (Stopping, m, d) s"

lemma AddCheckpoint_loop_sends:
  "length (pending (AddCheckpoint_loop env jid ps m)) = length (pending m) + length ps
   \<and> waiting (AddCheckpoint_loop env jid ps m) = waiting m \<and> jobs (AddCheckpoint_loop env jid ps m) = jobs m"
  by (induction env jid ps m rule: AddCheckpoint_loop.induct) (simp_all add: Let_def send_def)

text \<open>Callers that add checkpoints to a job, one at a time, can fill the channel.\<close>

lemma callers_fill:
  assumes "map_of (jobs m) jid = Some a"
  shows "length (pending m) + n = capacity \<Longrightarrow> \<exists>m'. (routine_step env ops)\<^sup>*\<^sup>* (b, m, d) (b, m', d) \<and> full m' \<and> waiting m' = waiting m"
  using assms
proof (induction n arbitrary: m)
  case (Suc n)
  let ?m = "AddCheckpoint env jid [[]] m"
  have l: "length (pending ?m) = Suc (length (pending m))" "waiting ?m = waiting m" "map_of (jobs ?m) jid = Some a"
    using Suc.prems AddCheckpoint_loop_sends [of env jid "[[]]" m] by (simp_all add: AddCheckpoint_def lookup_def)
  then obtain m' where "(routine_step env ops)\<^sup>*\<^sup>* (b, ?m, d) (b, m', d)" "full m'" "waiting m' = waiting m"
    using Suc.IH [of ?m] Suc.prems(1) by auto
  moreover have "routine_step env ops (b, m, d) (b, ?m, d)"
    using l Suc.prems(1) by (intro routine_step.call call_step.add_checkpoint) simp
  ultimately show ?case by (meson converse_rtranclp_into_rtranclp)
qed (auto simp: full_def)

lemma job_exited_pending: "job_exited env w m = Inr m' \<Longrightarrow> pending m' = pending m"
proof -
  assume x: "job_exited env w m = Inr m'"
  obtain jid pid a where w: "w = (jid, pid, a)" by (cases w) auto
  let ?r = "IfAvailable ''Custom cleanup'' (cleanup_call a) [GetType (heap m ! a)] (AList.clearjunk (cleanups env))
    (m\<lparr>detached := detached m @ [pid], waiting := remove1 w (waiting m)\<rparr>, False)"
  have "pending (fst (snd ?r)) = pending m"
    by (rule IfAvailable_invariant [where P = "\<lambda>s. pending (fst s) = pending m"])
      (auto simp: cleanup_call_def chan_send_def set_job_def split: call_result.split option.split prod.split)
  then show ?thesis
    using x w by (auto simp: job_exited_def Let_def set_job_def split: prod.splits option.splits if_splits bool.splits)
qed

lemma range_refresh_pending: "range_refresh env sel es acc m = Some (r, m') \<Longrightarrow> length (pending m) \<le> length (pending m')"
proof (induction env sel es acc m rule: range_refresh.induct)
  case (2 env sel jid a es acc m)
  then show ?case
    by (force simp: refresh_def send_def set_job_def split: if_splits option.splits)
qed simp

lemma Get_pending: "Get env jid m = Some (r, m') \<Longrightarrow> length (pending m) \<le> length (pending m')"
  by (auto simp: Get_def refresh_def send_def set_job_def split: option.splits if_splits)

lemma Delete_pending: "length (pending m) \<le> length (pending (Delete jid m))"
proof -
  have f: "length (pending m1) \<le> length (pending (fold m_DeleteCheckpoint is m1))" for "is" m1
  proof (induction "is" arbitrary: m1)
    case (Cons i "is")
    have "length (pending m1) \<le> length (pending (m_DeleteCheckpoint i m1))" by (simp add: m_DeleteCheckpoint_def send_def split: option.split)
    then show ?case using Cons [of "m_DeleteCheckpoint i m1"] by simp
  qed simp
  show ?thesis
  proof (cases "map_of (jobs m) jid")
    case (Some a)
    let ?m = "send (PutJobA jid) (m\<lparr>jobs := AList.delete jid (jobs m), deletedJobs := AList.update jid a (deletedJobs m)\<rparr>)"
    have "length (pending m) \<le> length (pending ?m)" by (simp add: send_def)
    also note f [of ?m "map cpID (m_ListCheckpoints jid ?m)"]
    finally show ?thesis using Some by (simp add: Delete_def Let_def)
  qed (simp add: Delete_def)
qed

text \<open>Only the background routine takes actions out of the channel.\<close>

lemma call_step_pending: "call_step env m m' \<Longrightarrow> length (pending m) \<le> length (pending m')"
proof (induction rule: call_step.induct)
  case (manage jid pid m e m')
  then show ?case by (auto simp: Manage_def send_def set_job_def split: option.splits if_splits)
next
  case (kill jid sig m e m')
  then show ?case by (auto simp: Kill_def Let_def split: option.splits if_splits dest!: Get_pending)
next
  case (add_checkpoint m jid ps)
  then show ?case by (auto simp: AddCheckpoint_def AddCheckpoint_loop_sends split: option.split)
next
  case (delete_checkpoint m i)
  then show ?case by (simp add: m_DeleteCheckpoint_def send_def split: option.split)
qed (auto simp: New_def alloc_job_def List_def ListByHostIDs_def Delete_pending job_exited_pending split: if_splits
    dest: Get_pending range_refresh_pending)

lemma stuck_step:
  assumes "routine_step env ops (b, m, d) (b', m', d')" and "b = Sending act \<or> b = Stopping" and "full m"
  shows "b' = b \<and> full m'"
  using assms by (auto elim!: routine_step_SendingE routine_step_StoppingE dest!: call_step_pending simp: full_def)

lemma stuck_for_ever:
  assumes "(routine_step env ops)\<^sup>*\<^sup>* (b, m, d) s" and "b = Sending act \<or> b = Stopping" and "full m"
  shows "fst s = b \<and> full (fst (snd s))"
  using assms(1)
proof (induction rule: rtranclp_induct)
  case (step s s')
  obtain m1 d1 where s: "s = (b, m1, d1)" "full m1" using step.IH by (cases s) auto
  obtain b2 m2 d2 where s': "s' = (b2, m2, d2)" by (cases s')
  show ?case using stuck_step [OF step.hyps(2) [unfolded s(1) s'] assms(2) s(2)] s' by simp
qed (use assms(3) in simp)

text \<open>
  C12: the background routine can block itself for good. Let the first action in the channel be to store a job that is listed, and let the database refuse that. Then
  the routine can take the action, fail, and stand before a full channel with the action that it wants to put back; whatever calls
  and goroutines do from there, it never leaves that send. If moreover no managed process is left to wait for, a shutdown that begins while the channel is full never
  leaves the send of its marker either.
\<close>

theorem queue_deadlock:
  assumes "pending m = PutJobA jid # q" and "length (pending m) \<le> capacity" and "map_of (jobs m) jid = Some a"
    and "opPutJob ops (GetProto (heap m ! a)) d = (Some e, d')"
  shows "(\<exists>m'. (routine_step env ops)\<^sup>*\<^sup>* (Selecting, m, d) (Sending (PutJobA jid), m', d')
       \<and> (\<forall>s. (routine_step env ops)\<^sup>*\<^sup>* (Sending (PutJobA jid), m', d') s \<longrightarrow> fst s = Sending (PutJobA jid)))
    \<and> (waiting m = [] \<longrightarrow> (\<exists>m'. (routine_step env ops)\<^sup>*\<^sup>* (Selecting, m, d) (Stopping, m', d)
       \<and> (\<forall>s. (routine_step env ops)\<^sup>*\<^sup>* (Stopping, m', d) s \<longrightarrow> fst s = Stopping)))"
proof (intro conjI impI)
  let ?m = "m\<lparr>pending := q\<rparr>" and ?r = "routine_step env ops"
  have "syncWithDB ops (PutJobA jid) ?m d = (Some e, ?m, d')" using assms(3,4) by (simp add: syncWithDB_def)
  with assms(1) have t: "?r (Selecting, m, d) (Sending (PutJobA jid), ?m, d')" by (rule take_failed)
  obtain m' where "?r\<^sup>*\<^sup>* (Sending (PutJobA jid), ?m, d') (Sending (PutJobA jid), m', d')" and f: "full m'"
    using callers_fill [of ?m jid a "capacity - length q" env ops "Sending (PutJobA jid)" d'] assms(1-3) by auto
  with t have "?r\<^sup>*\<^sup>* (Selecting, m, d) (Sending (PutJobA jid), m', d')" by (meson converse_rtranclp_into_rtranclp)
  then show "\<exists>m'. ?r\<^sup>*\<^sup>* (Selecting, m, d) (Sending (PutJobA jid), m', d')
       \<and> (\<forall>s. ?r\<^sup>*\<^sup>* (Sending (PutJobA jid), m', d') s \<longrightarrow> fst s = Sending (PutJobA jid))"
    using stuck_for_ever [OF _ _ f, of env ops "Sending (PutJobA jid)" d'] by (intro exI [of _ m'] conjI allI impI) simp_all
next
  let ?r = "routine_step env ops"
  assume w: "waiting m = []"
  obtain m' where "?r\<^sup>*\<^sup>* (Selecting, m, d) (Selecting, m', d)" and f: "full m'" and "waiting m' = []"
    using callers_fill [of m jid a "capacity - length (pending m)" env ops Selecting d] assms(2,3) w by auto
  then have "?r\<^sup>*\<^sup>* (Selecting, m, d) (Stopping, m', d)"
    by (meson routine_step.joined routine_step.lifetime_done rtranclp.rtrancl_into_rtrancl)
  then show "\<exists>m'. ?r\<^sup>*\<^sup>* (Selecting, m, d) (Stopping, m', d) \<and> (\<forall>s. ?r\<^sup>*\<^sup>* (Stopping, m', d) s \<longrightarrow> fst s = Stopping)"
    using stuck_for_ever [OF _ _ f, of env ops Stopping d] by (intro exI [of _ m'] conjI allI impI) simp_all
qed

section \<open>Witnesses\<close>

text \<open>Two fresh jobs, on a machine on which no process is left.\<close>

definition gone_env :: mgr_env where
  "gone_env = \<lparr>jenv = live_env\<lparr>procs := (two_procs False)\<lparr>newProcess := (\<lambda>_. Some (Errorf ''process does not exist''))\<rparr>\<rparr>,
     isAttached = (\<lambda>_. False), killErr = (\<lambda>_ _. None), killSignals = [], cleanups = [], uuid = itoa,
     nowMilli = of_nat, sizeOf = (\<lambda>_. 1)\<rparr>"

definition two_jobs :: mgr where
  "two_jobs = alloc_job ''b'' (newJob ''b'' ''process'' None) (alloc_job ''a'' (newJob ''a'' ''process'' None) (new_mgr None))"

lemma two_jobs_ok: "mgr_ok two_jobs"
  unfolding two_jobs_def by (intro alloc_job_ok mgr_ok_new) (simp_all add: newJob_def)

lemma two_jobs_lookup [simp]: "lookup ''a'' two_jobs = Some 0" "lookup ''b'' two_jobs = Some 1" "heap two_jobs ! 0 = newJob ''a'' ''process'' None"
  by (simp_all add: two_jobs_def alloc_job_def lookup_def new_mgr_def)

lemma newJob_PID [simp]: "GetPID (newJob jid t h) = 0"
  by (simp add: GetPID_def newJob_def state_of_def empty_info_def)

lemma gone_sync:
  assumes "jState (job_msg j) = Some st" and "PHost (info st) = None"
  shows "\<exists>j'. SyncDeep (jenv gone_env) None j = Some j' \<and> JID j' = JID j
    \<and> (\<exists>st'. jState (job_msg j') = Some st' \<and> PHost (info st') = None)"
  using assms by (simp add: SyncDeep_def job_sync_def latestState_def gone_env_def live_env_def host_id_def Let_def)

lemma Manage_gone:
  assumes "lookup jid m = Some a" and "a < length (heap m)" and "p \<noteq> 0" and "\<And>b. Find p m = Some b \<Longrightarrow> JID (heap m ! b) = jid"
    and "jState (job_msg (heap m ! a)) = Some st" and "PHost (info st) = None"
  shows "\<exists>m'. Manage gone_env jid p m = Some (None, m') \<and> (\<exists>st'. jState (job_msg (heap m' ! a)) = Some st' \<and> PHost (info st') = None)"
proof -
  have "jState (job_msg (SetPID p (heap m ! a))) = Some (ProcessState ((info st)\<lparr>PID := p\<rparr>) (Children st))"
    using assms(5) by (simp add: SetPID_def update_state_def)
  from gone_sync [OF this] show ?thesis
    using assms by (auto simp: Manage_def send_def set_job_def split: option.split)
qed

lemma two_jobs_manage: "\<exists>m'. Manage gone_env ''a'' 9 two_jobs = Some (None, m')
  \<and> (\<exists>st'. jState (job_msg (heap m' ! 0)) = Some st' \<and> PHost (info st') = None)"
proof (rule Manage_gone [where st = "ProcessState (empty_info\<lparr>PHost := None\<rparr>) []"])
  show "JID (heap two_jobs ! b) = ''a''" if "Find 9 two_jobs = Some b" for b
    using that by (simp add: Find_def two_jobs_def alloc_job_def new_mgr_def)
qed (simp_all add: newJob_def two_jobs_def alloc_job_def new_mgr_def lookup_def)

theorem Manage_success_witness:
  "\<exists>m'. Manage gone_env ''a'' 9 two_jobs = Some (None, m') \<and> Find 9 m' = Some 0 \<and> recv (Done ''a'' m') = None"
proof -
  obtain m' where m: "Manage gone_env ''a'' 9 two_jobs = Some (None, m')" using two_jobs_manage by blast
  show ?thesis using Manage_success [OF two_jobs_ok m, of 0] m by simp
qed

theorem Manage_pid_taken_witness:
  "\<exists>m'. Manage gone_env ''a'' 9 two_jobs = Some (None, m')
    \<and> Manage gone_env ''b'' 9 m' = Some (Some (Errorf (''PID '' @ itoa 9 @ '' is already being managed under job b'')), m')"
proof -
  obtain m' where m: "Manage gone_env ''a'' 9 two_jobs = Some (None, m')" using two_jobs_manage by blast
  then obtain j where m': "m' = send (PutJobA ''a'') (set_job 0 j (two_jobs\<lparr>waiting := [(''a'', 9, 0)]\<rparr>))" "GetPID j = 9"
    by - (rule Manage_Some [OF m two_jobs_ok], auto simp: lookup_def [symmetric] two_jobs_def alloc_job_def new_mgr_def)
  have ok: "mgr_ok m'" by (rule same_index_ok [OF Manage_index [OF m] two_jobs_ok])
  have "lookup ''a'' m' = Some 0" "GetPID (heap m' ! 0) = 9" "lookup ''b'' m' = Some 1" "GetPID (heap m' ! 1) = 0"
    using m' by (simp_all add: send_def set_job_def two_jobs_def alloc_job_def new_mgr_def lookup_def)
  from Manage_pid_taken [OF ok this(3) _ this(1), of 9] this m show ?thesis by simp
qed

theorem double_manage_panics_witness:
  "\<exists>m1 m2 m3. Manage gone_env ''a'' 9 two_jobs = Some (None, m1) \<and> Manage gone_env ''a'' 10 m1 = Some (None, m2)
    \<and> job_exited gone_env (''a'', 9, 0) m2 = Inr m3
    \<and> job_exited gone_env (''a'', 10, 0) m3 = Inl (Panic ''close of closed channel'')"
proof -
  obtain m1 st where m1: "Manage gone_env ''a'' 9 two_jobs = Some (None, m1)"
      and st: "jState (job_msg (heap m1 ! 0)) = Some st" "PHost (info st) = None" using two_jobs_manage by blast
  then obtain j where m': "m1 = send (PutJobA ''a'') (set_job 0 j (two_jobs\<lparr>waiting := [(''a'', 9, 0)]\<rparr>))" "GetPID j = 9"
    by - (rule Manage_Some [OF m1 two_jobs_ok], auto simp: lookup_def [symmetric] two_jobs_def alloc_job_def new_mgr_def)
  have "\<exists>m2. Manage gone_env ''a'' 10 m1 = Some (None, m2) \<and> (\<exists>st'. jState (job_msg (heap m2 ! 0)) = Some st' \<and> PHost (info st') = None)"
  proof (rule Manage_gone [OF _ _ _ _ st])
    show "JID (heap m1 ! b) = ''a''" if "Find 10 m1 = Some b" for b
      using that m' by (simp add: Find_def send_def set_job_def two_jobs_def alloc_job_def new_mgr_def)
  qed (simp_all add: m' send_def set_job_def two_jobs_def alloc_job_def new_mgr_def lookup_def)
  then obtain m2 where m2: "Manage gone_env ''a'' 10 m1 = Some (None, m2)" by blast
  show ?thesis using double_manage_panics [OF two_jobs_ok m1 m2, of 0] m1 m2 by auto
qed

text \<open>A job that has no process yet violates the constraint of the table on PIDs.\<close>

lemma fresh_job_refused: "\<exists>e. PutJob ok_sql (GetProto (newJob ''a'' ''process'' None)) one_host = (Some e, one_host)"
  by (simp add: PutJob_def found_def q_ListJobsByIDs_def join_hosts_def CreateJob_def job_checks_def job_params_def Let_def
      state_of_def host_id_def ok_sql_def one_host_def newJob_def GetProto_def empty_info_def)

theorem queue_deadlock_witness:
  "(\<exists>m'. (routine_step gone_env (sqlite_ops ok_sql))\<^sup>*\<^sup>* (Selecting, send (PutJobA ''a'') two_jobs, one_host) (Sending (PutJobA ''a''), m', one_host)
    \<and> (\<forall>s. (routine_step gone_env (sqlite_ops ok_sql))\<^sup>*\<^sup>* (Sending (PutJobA ''a''), m', one_host) s \<longrightarrow> fst s = Sending (PutJobA ''a'')))
    \<and> (\<exists>m'. (routine_step gone_env (sqlite_ops ok_sql))\<^sup>*\<^sup>* (Selecting, send (PutJobA ''a'') two_jobs, one_host) (Stopping, m', one_host)
    \<and> (\<forall>s. (routine_step gone_env (sqlite_ops ok_sql))\<^sup>*\<^sup>* (Stopping, m', one_host) s \<longrightarrow> fst s = Stopping))"
proof -
  let ?m = "send (PutJobA ''a'') two_jobs"
  obtain e where "opPutJob (sqlite_ops ok_sql) (GetProto (heap ?m ! 0)) one_host = (Some e, one_host)"
    using fresh_job_refused by (auto simp: sqlite_ops_def send_def)
  moreover have "pending ?m = [PutJobA ''a'']" "length (pending ?m) \<le> capacity" "map_of (jobs ?m) ''a'' = Some 0" "waiting ?m = []"
    by (simp_all add: two_jobs_def alloc_job_def new_mgr_def send_def capacity_def)
  ultimately show ?thesis using queue_deadlock [of ?m "''a''" "[]" 0 "sqlite_ops ok_sql" one_host e one_host gone_env] by blast
qed

text \<open>The process with the PID of the job runs another shell.\<close>

definition stranger_env :: mgr_env where
  "stranger_env = gone_env\<lparr>jenv := live_env\<lparr>procs := (two_procs False)\<lparr>cmdlineOf := (\<lambda>_. Inr ''bash'')\<rparr>\<rparr>\<rparr>"

theorem Kill_signals_stranger_witness:
  "\<exists>m' target. Kill stranger_env ''j'' [9] (alloc_job ''j'' sh_job (new_mgr None)) = Some (None, m')
    \<and> kills m' = [(target, 9)] \<and> \<bar>target\<bar> = 7"
proof -
  let ?m = "alloc_job ''j'' sh_job (new_mgr None)"
  obtain i where s: "jState (job_msg (heap ?m ! 0)) = Some (ProcessState i [])" "PID i = 7" "Cmdline i = ''sh''" "host_id i = ''h''"
    by (simp add: sh_job_def update_state_def fromProto_def a_job_def host_id_def alloc_job_def new_mgr_def)
  have m: "lookup ''j'' ?m = Some 0" "0 < length (heap ?m)" "kills ?m = []" by (simp_all add: alloc_job_def new_mgr_def lookup_def)
  from Kill_signals_stranger [OF m(1,2) s(1), of stranger_env "''bash''" "[9]"] show ?thesis
    using s m(3) by (auto simp: stranger_env_def gone_env_def live_env_def two_procs_def)
qed

theorem Delete_job_witness:
  "\<not> Exists ''a'' (Delete ''a'' two_jobs) \<and> lookup ''b'' (Delete ''a'' two_jobs) = Some 1"
  using Delete_job [OF two_jobs_ok, of "''a''" "''b''"] by simp

end
