(* ===== verification/Utils.thy ===== *)
theory Utils
  imports Process_Utils
begin

text \<open>
  \<^bold>\<open>pkg/utils\<close>: the helpers that the rest of the daemon shares. Slices and strings, errors of
  gRPC calls, files, the linker's output, TCP connections, waiting for a process, and aliases
  of commands. What the operating system answers is an argument of each function.
\<close>

section \<open>Slices, strings and users\<close>

definition IntToInt32Slice :: "int list \<Rightarrow> int list" where
  "IntToInt32Slice xs = map i32 xs"

definition Int32ToIntSlice :: "int list \<Rightarrow> int list" where
  "Int32ToIntSlice xs = xs"

definition IntToUint32Slice :: "int list \<Rightarrow> u32 list" where
  "IntToUint32Slice xs = map word_of_int xs"

definition trim_newlines :: "string \<Rightarrow> string" where
  "trim_newlines s = rev (dropWhile (\<lambda>c. c = CHR 0x0A) (rev (dropWhile (\<lambda>c. c = CHR 0x0A) s)))"

definition LastLine :: "string \<Rightarrow> string" where
  "LastLine s = trim_newlines (last (split_on (CHR 0x0A) (trim_newlines s)))"

record credential =
  crUid :: u32
  crGid :: u32
  crGroups :: "u32 list"

definition GetCredentials :: "int \<Rightarrow> int \<Rightarrow> goerr + int list \<Rightarrow> goerr + credential" where
  "GetCredentials uid gid groups =
     (case groups of Inl e \<Rightarrow> Inl e
      | Inr gs \<Rightarrow> Inr \<lparr>crUid = word_of_int uid, crGid = word_of_int gid, crGroups = IntToUint32Slice gs\<rparr>)"

definition GetRootCredentials :: credential where
  "GetRootCredentials = \<lparr>crUid = 0, crGid = 0, crGroups = [0]\<rparr>"

definition IsRootUser :: "int \<Rightarrow> bool" where
  "IsRootUser euid \<longleftrightarrow> euid = 0"

section \<open>Errors of gRPC calls\<close>

text \<open>
  \<open>status.FromError\<close> recognises the status errors that a gRPC call returns; the text of the code is its
  name. A \<open>Statusf\<close> error carries its cause in the message.
\<close>

fun code_String :: "code \<Rightarrow> string" where
  "code_String InvalidArgument = ''InvalidArgument''"
| "code_String NotFound = ''NotFound''"
| "code_String FailedPrecondition = ''FailedPrecondition''"
| "code_String Internal = ''Internal''"
| "code_String Unavailable = ''Unavailable''"
| "code_String Unimplemented = ''Unimplemented''"
| "code_String DeadlineExceeded = ''DeadlineExceeded''"

fun err_text :: "goerr \<Rightarrow> string" where
  "err_text (Errorf s) = s"
| "err_text (Wrapf s e) = s @ '': '' @ err_text e"
| "err_text (Status c m) = ''rpc error: code = '' @ code_String c @ '' desc = '' @ m"
| "err_text (Statusf c m e) = ''rpc error: code = '' @ code_String c @ '' desc = '' @ m @ '': '' @ err_text e"
| "err_text (Joined es) = join [CHR 0x0A] (map err_text es)"
| "err_text (Panic s) = s"

definition status_FromError :: "goerr \<Rightarrow> (code \<times> string) option" where
  "status_FromError e = (case e of
       Status c m \<Rightarrow> Some (c, m)
     | Statusf c m e' \<Rightarrow> Some (c, m @ '': '' @ err_text e')
     | _ \<Rightarrow> None)"

definition extra_str :: "string list \<Rightarrow> string" where
  "extra_str extra = (case extra of [] \<Rightarrow> [] | x # _ \<Rightarrow> trim_space x)"

definition GRPCError :: "error \<Rightarrow> string list \<Rightarrow> error" where
  "GRPCError err extra =
     (case err of None \<Rightarrow> None
      | Some e \<Rightarrow>
        (case status_FromError e of
           None \<Rightarrow> Some e
         | Some (c, m) \<Rightarrow>
             if extra_str extra \<noteq> [] then Some (Errorf (code_String c @ '': '' @ m @ '': '' @ extra_str extra))
             else Some (Errorf (code_String c @ '': '' @ m))))"

definition GRPCErrorShort :: "error \<Rightarrow> string list \<Rightarrow> error" where
  "GRPCErrorShort err extra =
     (case err of None \<Rightarrow> None
      | Some e \<Rightarrow>
        (case status_FromError e of
           None \<Rightarrow> Some e
         | Some (c, m) \<Rightarrow>
             if extra_str extra \<noteq> [] then Some (Errorf (code_String c @ '': '' @ extra_str extra))
             else Some (Errorf (code_String c))))"

text \<open>The colours are a parameter: a function that wraps a text in escape sequences.\<close>

definition GRPCErrorColored :: "(string \<Rightarrow> string) \<Rightarrow> error \<Rightarrow> string list \<Rightarrow> error" where
  "GRPCErrorColored paint err extra =
     (case err of None \<Rightarrow> None
      | Some e \<Rightarrow>
        (case status_FromError e of
           None \<Rightarrow> Some e
         | Some (c, m) \<Rightarrow>
             if extra_str extra \<noteq> [] then Some (Errorf (paint (code_String c) @ '': '' @ m @ '': '' @ extra_str extra))
             else Some (Errorf (paint (code_String c) @ '': '' @ m))))"

definition GRPCErrorColoredShort :: "(string \<Rightarrow> string) \<Rightarrow> error \<Rightarrow> string list \<Rightarrow> error" where
  "GRPCErrorColoredShort paint err extra =
     (case err of None \<Rightarrow> None
      | Some e \<Rightarrow>
        (case status_FromError e of
           None \<Rightarrow> Some e
         | Some (c, m) \<Rightarrow>
             if extra_str extra \<noteq> [] then Some (Errorf (paint (code_String c) @ '': '' @ extra_str extra))
             else Some (Errorf (paint (code_String c)))))"

section \<open>Files\<close>

text \<open>\<open>filepath.Walk\<close> calls the function on each entry in order, with the entry or with the error met there.\<close>

type_synonym walk = "(string \<times> (goerr + bool \<times> i64)) list"

fun ListFilesInDir :: "walk \<Rightarrow> string list \<times> error" where
  "ListFilesInDir [] = ([], None)"
| "ListFilesInDir ((path, Inl e) # es) = ([], Some (Wrapf ''filepath.Walk() failed'' e))"
| "ListFilesInDir ((path, Inr (isDir, sz)) # es) =
     (case ListFilesInDir es of (fs, e) \<Rightarrow> (if isDir then fs else path # fs, e))"

definition div_i64 :: "i64 \<Rightarrow> int \<Rightarrow> i64" where
  "div_i64 b k = word_of_int (sgn (sint b) * (\<bar>sint b\<bar> div k))"

definition Kibibytes :: "i64 \<Rightarrow> i64" where
  "Kibibytes b = div_i64 b 1024"

definition Mebibytes :: "i64 \<Rightarrow> i64" where
  "Mebibytes b = div_i64 (div_i64 b 1024) 1024"

definition Gibibytes :: "i64 \<Rightarrow> i64" where
  "Gibibytes b = div_i64 (div_i64 (div_i64 b 1024) 1024) 1024"

fun size_walk :: "walk \<Rightarrow> i64 \<Rightarrow> goerr + i64" where
  "size_walk [] sz = Inr sz"
| "size_walk ((path, Inl e) # es) sz = Inl e"
| "size_walk ((path, Inr (isDir, n)) # es) sz = size_walk es (if isDir then sz else sz + n)"

definition SizeFromPath :: "walk \<Rightarrow> i64" where
  "SizeFromPath es = (case size_walk es 0 of Inl _ \<Rightarrow> 0 | Inr sz \<Rightarrow> sz)"

record copy_env =
  cpOpen :: error
  cpCreate :: error
  cpStat :: error
  cpChmod :: error
  cpCopy :: error

definition CopyFile :: "copy_env \<Rightarrow> error" where
  "CopyFile env =
     (case cpOpen env of Some e \<Rightarrow> Some (Wrapf ''Could not open source file'' e) | None \<Rightarrow>
      (case cpCreate env of Some e \<Rightarrow> Some (Wrapf ''Could not create destination file'' e) | None \<Rightarrow>
       (case cpStat env of Some e \<Rightarrow> Some (Wrapf ''Could not get source file info'' e) | None \<Rightarrow>
        (case cpChmod env of Some e \<Rightarrow> Some (Wrapf ''Could not set destination file permissions'' e) | None \<Rightarrow>
         (case cpCopy env of Some e \<Rightarrow> Some (Wrapf ''Could not copy file contents'' e) | None \<Rightarrow> None)))))"

text \<open>The answer of \<open>os.Stat\<close>: only the error that says the file does not exist counts as absence.\<close>

datatype stat_answer = StatOk | NotExist | OtherErr goerr

definition PathExists :: "stat_answer \<Rightarrow> bool" where
  "PathExists s \<longleftrightarrow> s \<noteq> NotExist"

datatype wait_event = CtxDone goerr | Tick stat_answer | TimedOut

fun WaitForFile :: "string \<Rightarrow> goerr + string \<Rightarrow> wait_event list \<Rightarrow> (goerr + string) option" where
  "WaitForFile path contents [] = None"
| "WaitForFile path contents (CtxDone e # evs) = Some (Inl e)"
| "WaitForFile path contents (Tick s # evs) =
     (if PathExists s then Some contents else WaitForFile path contents evs)"
| "WaitForFile path contents (TimedOut # evs) = Some (Inl (Errorf (''timed out waiting for '' @ path)))"

fun ChownAll :: "(string \<Rightarrow> error) \<Rightarrow> walk \<Rightarrow> error \<times> string list" where
  "ChownAll chown [] = (None, [])"
| "ChownAll chown ((path, Inl e) # es) = (Some (Wrapf ''filepath.Walk() failed'' e), [])"
| "ChownAll chown ((path, Inr _) # es) =
     (case chown path of
        Some e \<Rightarrow> (Some e, [])
      | None \<Rightarrow> (case ChownAll chown es of (e, ps) \<Rightarrow> (e, path # ps)))"

section \<open>Link dependencies\<close>

record link_dep =
  ldName :: string
  ldPath :: string
  ldResolved :: string

definition split_arrow :: "string \<Rightarrow> string list" where
  "split_arrow l = split_str ''=>'' l"

fun ldd_lines :: "(string \<Rightarrow> goerr + string) \<Rightarrow> string list \<Rightarrow> link_dep list \<Rightarrow> goerr + link_dep list" where
  "ldd_lines resolve [] deps = Inr deps"
| "ldd_lines resolve (l # ls) deps =
     (if contains l ''=>'' then
        (let parts = split_arrow l; name = trim_space (parts ! 0);
             path = trim_space (hd (split_on (CHR '' '') (trim_space (parts ! 1))))
         in case resolve path of
              Inl e \<Rightarrow> Inl e
            | Inr r \<Rightarrow> ldd_lines resolve ls (deps @ [\<lparr>ldName = name, ldPath = path, ldResolved = r\<rparr>]))
      else ldd_lines resolve ls deps)"

text \<open>The slice is made with ten empty elements, and the dependencies are appended after them.\<close>

definition GetLinkDeps :: "goerr + string \<Rightarrow> (string \<Rightarrow> goerr + string) \<Rightarrow> goerr + link_dep list" where
  "GetLinkDeps ldd resolve =
     (case ldd of Inl e \<Rightarrow> Inl e
      | Inr out \<Rightarrow> ldd_lines resolve (split_on (CHR 0x0A) out)
          (replicate 10 \<lparr>ldName = [], ldPath = [], ldResolved = []\<rparr>))"

section \<open>Connections\<close>

text \<open>The lines that the scanner delivers, and the error it ends with.\<close>

fun tcp_lines :: "string list \<Rightarrow> bool" where
  "tcp_lines [] = False"
| "tcp_lines (l # ls) = (if has_prefix l ''  sl'' then tcp_lines ls else True)"

definition HasActiveTCPConnections :: "string \<Rightarrow> goerr + string list \<times> error \<Rightarrow> goerr + bool" where
  "HasActiveTCPConnections tcpFile opened =
     (case opened of
        Inl e \<Rightarrow> Inl (Wrapf (''failed to open '' @ tcpFile) e)
      | Inr (ls, err) \<Rightarrow>
          if tcp_lines ls then Inr True
          else (case err of Some e \<Rightarrow> Inl (Wrapf (''error reading '' @ tcpFile) e) | None \<Rightarrow> Inr False))"

section \<open>Processes\<close>

text \<open>
  \<open>syscall.Close\<close> closes a descriptor of the calling process; the numbers come from the child's table.
  The result lists the descriptors that were closed.
\<close>

fun close_matching :: "(u64 \<Rightarrow> error) \<Rightarrow> (u64 \<times> string) list \<Rightarrow> string \<Rightarrow> u64 list \<Rightarrow> error \<times> u64 list" where
  "close_matching close [] p closed = (None, closed)"
| "close_matching close ((fd, path) # cs) p closed =
     (if p = path \<and> contains p ''.pid'' then
        (case close fd of
           Some e \<Rightarrow> (Some e, closed)
         | None \<Rightarrow> close_matching close cs p (closed @ [fd]))
      else close_matching close cs p closed)"

fun close_common :: "(u64 \<Rightarrow> error) \<Rightarrow> (u64 \<times> string) list \<Rightarrow> (u64 \<times> string) list \<Rightarrow> u64 list \<Rightarrow> error \<times> u64 list" where
  "close_common close [] cs closed = (None, closed)"
| "close_common close ((_, path) # ps) cs closed =
     (case close_matching close cs path closed of
        (Some e, closed') \<Rightarrow> (Some e, closed')
      | (None, closed') \<Rightarrow> close_common close ps cs closed')"

definition CloseCommonFds :: "proc_env \<Rightarrow> (u64 \<Rightarrow> error) \<Rightarrow> u32 \<Rightarrow> u32 \<Rightarrow> error \<times> u64 list" where
  "CloseCommonFds env close parent child =
     (if newProcess env parent \<noteq> None then (newProcess env parent, [])
      else if newProcess env child \<noteq> None then (newProcess env child, [])
      else (case openFilesOf env parent of Inl e \<Rightarrow> (Some e, [])
        | Inr ps \<Rightarrow>
          (case openFilesOf env child of Inl e \<Rightarrow> (Some e, [])
           | Inr cs \<Rightarrow> close_common close ps cs [])))"

text \<open>
  The polling goroutines: what the system answers at each poll is a function of time. The value is the poll at
  which the channel is closed; \<open>None\<close> means that it never is.
\<close>

partial_function (option) WaitForPid :: "(nat \<Rightarrow> proc_env) \<Rightarrow> u32 \<Rightarrow> nat \<Rightarrow> nat option" where
  "WaitForPid env pid n =
     (if newProcess (env n) pid \<noteq> None then Some n
      else (case statusOf (env n) pid of
          Inl _ \<Rightarrow> Some n
        | Inr s \<Rightarrow> if ''zombie'' \<in> set s then Some n else WaitForPid env pid (Suc n)))"

partial_function (option) WaitForPidCtx :: "(nat \<Rightarrow> error) \<Rightarrow> (nat \<Rightarrow> proc_env) \<Rightarrow> u32 \<Rightarrow> nat \<Rightarrow> nat option" where
  "WaitForPidCtx ctx env pid n =
     (if ctx n \<noteq> None then Some n
      else if newProcess (env n) pid \<noteq> None then Some n
      else (case statusOf (env n) pid of
          Inl _ \<Rightarrow> Some n
        | Inr s \<Rightarrow> if ''zombie'' \<in> set s then Some n else WaitForPidCtx ctx env pid (Suc n)))"

definition GetSID :: "(u32 \<Rightarrow> nat \<times> u32) \<Rightarrow> u32 \<Rightarrow> goerr + u32" where
  "GetSID sys pid = (case sys pid of (errno, sid) \<Rightarrow>
     if errno \<noteq> 0 then Inl (Errorf (''errno: '' @ itoa errno)) else Inr sid)"

definition GetCmd :: "proc_env \<Rightarrow> goerr + string \<Rightarrow> goerr + string list \<Rightarrow> u32 \<Rightarrow> goerr + string \<times> string list" where
  "GetCmd env name args pid =
     (case newProcess env pid of Some e \<Rightarrow> Inl e | None \<Rightarrow>
      (case name of Inl e \<Rightarrow> Inl e | Inr n \<Rightarrow> (case args of Inl e \<Rightarrow> Inl e | Inr a \<Rightarrow> Inr (n, a))))"

text \<open>The file that \<open>IsTTY\<close> opens is never closed: the second component counts the descriptors left open.\<close>

definition IsTTY :: "error \<Rightarrow> bool \<Rightarrow> nat \<Rightarrow> (goerr + bool) \<times> nat" where
  "IsTTY openErr terminal fds = (case openErr of Some e \<Rightarrow> (Inl e, fds) | None \<Rightarrow> (Inr terminal, Suc fds))"

section \<open>Aliases of commands\<close>

text \<open>A command with its hooks; \<open>parents\<close> are listed from the nearest to the root.\<close>

record 's command =
  cmdUse :: string
  preRunE :: "('s \<Rightarrow> error \<times> 's) option"
  runE :: "('s \<Rightarrow> error \<times> 's) option"
  postRunE :: "('s \<Rightarrow> error \<times> 's) option"
  preRun :: "('s \<Rightarrow> 's) option"
  runC :: "('s \<Rightarrow> 's) option"
  postRun :: "('s \<Rightarrow> 's) option"

definition opt_hook :: "('s \<Rightarrow> error \<times> 's) option \<Rightarrow> 's \<Rightarrow> error \<times> 's" where
  "opt_hook h s = (case h of None \<Rightarrow> (None, s) | Some f \<Rightarrow> f s)"

definition opt_run :: "('s \<Rightarrow> 's) option \<Rightarrow> 's \<Rightarrow> 's" where
  "opt_run h s = (case h of None \<Rightarrow> s | Some f \<Rightarrow> f s)"

definition AliasCommandRunE :: "'s command \<Rightarrow> 's command list \<Rightarrow> 's \<Rightarrow> error \<times> 's" where
  "AliasCommandRunE src parents s =
     (if parents = [] then (Some (Panic ''slice bounds out of range''), s)
      else (let ps = butlast parents in
        case first_error (\<lambda>p. opt_hook (preRunE p)) (rev ps) s of
          (Some e, s1) \<Rightarrow> (Some e, s1)
        | (None, s1) \<Rightarrow>
          (case opt_hook (runE src) s1 of
             (Some e, s2) \<Rightarrow> (Some e, s2)
           | (None, s2) \<Rightarrow> first_error (\<lambda>p. opt_hook (postRunE p)) ps s2)))"

definition AliasCommandRun :: "'s command \<Rightarrow> 's command list \<Rightarrow> 's \<Rightarrow> goerr + 's" where
  "AliasCommandRun src parents s =
     (if parents = [] then Inl (Panic ''slice bounds out of range'')
      else (let ps = butlast parents in
        Inr (fold (\<lambda>p. opt_run (postRun p)) ps (opt_run (runC src) (fold (\<lambda>p. opt_run (preRun p)) (rev ps) s)))))"

definition AliasCommandUse :: "string option \<Rightarrow> string list \<Rightarrow> goerr + string" where
  "AliasCommandUse aliasOf name =
     (case name of
        n # _ \<Rightarrow> (case aliasOf of None \<Rightarrow> Inr n
          | Some u \<Rightarrow> Inr (n @ '' '' @ join '' '' (tl (split_on (CHR '' '') u))))
      | [] \<Rightarrow> (case aliasOf of None \<Rightarrow> Inl (Panic ''nil pointer dereference'') | Some u \<Rightarrow> Inr u))"

text \<open>The result of \<open>strings.TrimSpace\<close> is dropped.\<close>

definition FullUse :: "'s command option \<Rightarrow> 's command list \<Rightarrow> string" where
  "FullUse cmd parents =
     (case cmd of None \<Rightarrow> []
      | Some c \<Rightarrow>
        (let ps = (if length parents > 1 then butlast parents else parents)
         in concat (map (\<lambda>p. if cmdUse p \<noteq> [] then cmdUse p @ '' '' else []) (rev ps)) @ cmdUse c))"

text \<open>The lines read from the terminal, \<open>Inl\<close> when reading fails; the loop asks until it understands the answer.\<close>

definition to_lower :: "char \<Rightarrow> char" where
  "to_lower c = (if 65 \<le> (of_char c :: nat) \<and> (of_char c :: nat) \<le> 90 then char_of ((of_char c :: nat) + 32) else c)"

fun Confirm :: "(goerr + string) list \<Rightarrow> bool option" where
  "Confirm [] = None"
| "Confirm (Inl e # ls) = Some False"
| "Confirm (Inr l # ls) =
     (let response = map to_lower (trim_space l) in
      if response = ''y'' \<or> response = ''yes'' then Some True
      else if response = ''n'' \<or> response = ''no'' \<or> response = [] then Some False
      else Confirm ls)"

section \<open>Properties\<close>

lemma WaitForPid_step:
  "WaitForPid env pid n = (if PidRunning (env n) pid then WaitForPid env pid (Suc n) else Some n)"
  by (subst WaitForPid.simps) (auto simp: PidRunning_def split: sum.split)

lemma WaitForPid_first: "\<not> PidRunning (env (n + k)) pid \<Longrightarrow> (\<And>i. i < k \<Longrightarrow> PidRunning (env (n + i)) pid) \<Longrightarrow> WaitForPid env pid n = Some (n + k)"
proof (induction k arbitrary: n)
  case 0
  then show ?case by (subst WaitForPid_step) simp
next
  case (Suc k)
  have "PidRunning (env n) pid" using Suc.prems(2) [of 0] by simp
  moreover have "WaitForPid env pid (Suc n) = Some (Suc n + k)"
    by (rule Suc.IH) (use Suc.prems(1) Suc.prems(2) [of "Suc _"] in auto)
  ultimately show ?case by (subst WaitForPid_step) simp
qed

definition waited :: "(nat \<Rightarrow> proc_env) \<Rightarrow> u32 \<Rightarrow> nat \<Rightarrow> nat \<Rightarrow> bool" where
  "waited env pid n m \<longleftrightarrow> \<not> PidRunning (env m) pid \<and> n \<le> m \<and> (\<forall>i. n \<le> i \<longrightarrow> i < m \<longrightarrow> PidRunning (env i) pid)"

lemma waited_Suc: "PidRunning (env n) pid \<Longrightarrow> waited env pid (Suc n) m \<Longrightarrow> waited env pid n m"
  unfolding waited_def by (metis Suc_leD Suc_leI le_neq_implies_less)

lemma WaitForPid_Some:
  assumes "WaitForPid env pid n = Some m"
  shows "waited env pid n m"
proof (rule WaitForPid.raw_induct [where P = waited, OF _ assms])
  fix f env pid n m
  assume IH: "\<And>env pid n m. f env pid n = Some m \<Longrightarrow> waited env pid n m"
    and b: "(if newProcess (env n) pid \<noteq> None then Some n
      else (case statusOf (env n) pid of
          Inl _ \<Rightarrow> Some n
        | Inr s \<Rightarrow> if ''zombie'' \<in> set s then Some n else f env pid (Suc n))) = Some m"
  then consider "\<not> PidRunning (env n) pid" "m = n" | "PidRunning (env n) pid" "f env pid (Suc n) = Some m"
    by (auto simp: PidRunning_def split: if_splits sum.splits)
  then show "waited env pid n m"
  proof cases
    case 1
    then show ?thesis by (simp add: waited_def)
  next
    case 2
    then show ?thesis using IH waited_Suc by blast
  qed
qed

text \<open>
  waiting for a process ends exactly when it stops running. The channel of \<open>WaitForPid\<close> is closed at the first poll at which
  \<open>PidRunning\<close> is false, and stays open for ever if there is none.
\<close>

theorem WaitForPid_exit:
  "WaitForPid env pid 0 = Some n \<longleftrightarrow> \<not> PidRunning (env n) pid \<and> list_all (\<lambda>i. PidRunning (env i) pid) [0..<n]"
proof
  assume "WaitForPid env pid 0 = Some n"
  then have "waited env pid 0 n" by (rule WaitForPid_Some)
  then show "\<not> PidRunning (env n) pid \<and> list_all (\<lambda>i. PidRunning (env i) pid) [0..<n]"
    by (simp add: waited_def list_all_iff)
next
  assume "\<not> PidRunning (env n) pid \<and> list_all (\<lambda>i. PidRunning (env i) pid) [0..<n]"
  then show "WaitForPid env pid 0 = Some n"
    using WaitForPid_first [of env 0 n pid] by (simp add: list_all_iff)
qed

text \<open>
  an alias runs the hooks of the original command. It is the sequence of the ancestors' pre-run hooks from the outermost to
  the nearest, the command, and the post-run hooks from the nearest outwards, stopped at the first error; the hooks of the
  root command are left to the caller.
\<close>

theorem AliasCommandRunE_order:
  "AliasCommandRunE src (ps @ [root]) =
     first_error opt_hook (map preRunE (rev ps) @ [runE src] @ map postRunE ps)"
proof
  fix s
  have m: "first_error (\<lambda>p. opt_hook (h p)) xs s = first_error opt_hook (map h xs) s" for h :: "'a command \<Rightarrow> _" and xs s
    by (induction xs arbitrary: s) (auto split: prod.split option.split)
  show "AliasCommandRunE src (ps @ [root]) s = first_error opt_hook (map preRunE (rev ps) @ [runE src] @ map postRunE ps) s"
    by (simp add: AliasCommandRunE_def Let_def m first_error_append split: prod.split option.split)
qed

text \<open>The ten empty entries that precede the dependencies of a binary.\<close>

lemma ldd_lines_prefix: "ldd_lines resolve ls deps = Inr ds \<Longrightarrow> \<exists>xs. ds = deps @ xs"
proof (induction ls arbitrary: deps)
  case (Cons l ls)
  then obtain deps' where "ldd_lines resolve ls deps' = Inr ds" "\<exists>xs. deps' = deps @ xs"
    by (auto simp: Let_def split: if_splits sum.splits)
  then show ?case using Cons.IH by fastforce
qed simp

lemma GetLinkDeps_padding:
  "GetLinkDeps (Inr out) resolve = Inr ds \<Longrightarrow> take 10 ds = replicate 10 \<lparr>ldName = [], ldPath = [], ldResolved = []\<rparr>"
  by (auto simp: GetLinkDeps_def dest!: ldd_lines_prefix)

text \<open>One entry in a state other than the header counts as a connection, listening sockets included.\<close>

lemma HasActiveTCPConnections_any:
  "l \<in> set ls \<Longrightarrow> \<not> has_prefix l ''  sl'' \<Longrightarrow> HasActiveTCPConnections f (Inr (ls, err)) = Inr True"
proof -
  assume "l \<in> set ls" "\<not> has_prefix l ''  sl''"
  then have "tcp_lines ls" by (induction ls) auto
  then show ?thesis by (simp add: HasActiveTCPConnections_def)
qed

lemma SizeFromPath_sum:
  "\<forall>(p, r)\<in>set es. \<exists>d n. r = Inr (d, n) \<Longrightarrow>
    SizeFromPath es = sum_list (map (\<lambda>(p, r). case r of Inr (d, n) \<Rightarrow> if d then 0 else n | Inl _ \<Rightarrow> 0) es)"
proof -
  assume "\<forall>(p, r)\<in>set es. \<exists>d n. r = Inr (d, n)"
  then have "size_walk es sz = Inr (sz + sum_list (map (\<lambda>(p, r). case r of Inr (d, n) \<Rightarrow> if d then 0 else n | Inl _ \<Rightarrow> 0) es))" for sz
    by (induction es sz rule: size_walk.induct) (auto simp: add.assoc)
  then show ?thesis by (simp add: SizeFromPath_def)
qed

text \<open>An unreadable entry makes the size zero, whatever was counted before.\<close>

lemma SizeFromPath_error: "(p, Inl e) \<in> set es \<Longrightarrow> SizeFromPath es = 0"
proof -
  assume "(p, Inl e) \<in> set es"
  then have "\<exists>e. size_walk es sz = Inl e" for sz
    by (induction es sz rule: size_walk.induct) auto
  then obtain e where "size_walk es 0 = Inl e" by blast
  then show ?thesis by (simp add: SizeFromPath_def)
qed

end
