(* ===== verification/Adapters.thy ===== *)
theory Adapters
  imports Go_Strings
begin

text \<open>
  \<^bold>\<open>pkg/types\<close>: handlers, adapters and health checks. A handler is a Go function value:
  its code pointer (what \<open>reflect.ValueOf(h).Pointer()\<close> returns, the same for every
  closure of one function literal) and the function itself. The call receives the
  context and the options by value, and the state that stands for everything
  reached through pointers (request, response, the host); it returns the exit-code
  function, if any, the error and the new state.
\<close>

section \<open>Handlers and adapters\<close>

record ('ctx, 'opts, 'st, 'code) handler =
  pc :: nat
  call :: "'ctx \<Rightarrow> 'opts \<Rightarrow> 'st \<Rightarrow> ('code option \<times> error) \<times> 'st"

type_synonym ('ctx, 'opts, 'st, 'code) adapter =
  "('ctx, 'opts, 'st, 'code) handler \<Rightarrow> ('ctx, 'opts, 'st, 'code) handler"

type_synonym ('ctx, 'opts, 'st, 'code) middleware = "('ctx, 'opts, 'st, 'code) adapter list"

text \<open>The loop \<open>for i := len(adapters) - 1; i >= 0; i-- { h = adapters[i](h) }\<close>.\<close>

fun adapted_loop :: "'h \<Rightarrow> ('h \<Rightarrow> 'h) list \<Rightarrow> nat \<Rightarrow> 'h" where
  "adapted_loop h adapters 0 = h"
| "adapted_loop h adapters (Suc i) = adapted_loop ((adapters ! i) h) adapters i"

definition adapted :: "'h \<Rightarrow> ('h \<Rightarrow> 'h) list \<Rightarrow> 'h" where
  "adapted h adapters = adapted_loop h adapters (length adapters)"

definition adaptedWithProfiler :: "'h \<Rightarrow> ('h \<Rightarrow> 'h) \<Rightarrow> ('h \<Rightarrow> 'h) list \<Rightarrow> 'h" where
  "adaptedWithProfiler h profiler adapters =
     adapted h (fold (\<lambda>m acc. acc @ [profiler, m]) adapters [] @ [profiler])"

text \<open>
  \<open>Timer\<close> wraps the next handler; \<open>start\<close> and \<open>finish\<close> are the two halves of
  \<open>profiling.StartTimingComponent\<close>, and \<open>timer_pc\<close> is the code pointer of the
  closure \<open>Timer\<close> returns.
\<close>

definition timer_pc :: nat where
  "timer_pc = 1"

definition Timer ::
  "('ctx \<Rightarrow> ('ctx, 'opts, 'st, 'code) handler \<Rightarrow> 'st \<Rightarrow> ('ctx \<times> 'tok) \<times> 'st) \<Rightarrow> ('tok \<Rightarrow> 'st \<Rightarrow> 'st) \<Rightarrow>
   ('ctx, 'opts, 'st, 'code) adapter" where
  "Timer start finish nxt =
     \<lparr>pc = timer_pc,
      call = (\<lambda>ctx opts st.
        if pc nxt \<noteq> timer_pc
        then (let ((ctx', tok), st1) = start ctx nxt st;
                  (r, st2) = call nxt ctx' opts st1
              in (r, finish tok st2))
        else call nxt ctx opts st)\<rparr>"

definition With :: "bool \<Rightarrow> ('h \<Rightarrow> 'h) \<Rightarrow> 'h \<Rightarrow> ('h \<Rightarrow> 'h) list \<Rightarrow> 'h" where
  "With profiling_enabled timer h middleware =
     (if profiling_enabled then adaptedWithProfiler h timer middleware else adapted h middleware)"

section \<open>Health checks\<close>

record component =
  cName :: string
  cData :: string
  cWarnings :: "string list"
  cErrors :: "string list"

text \<open>A check returns a slice of components, \<open>None\<close> for the nil slice.\<close>

type_synonym 'w check = "'w \<Rightarrow> component list option \<times> 'w"

record 'w checks =
  chName :: string
  chList :: "'w check list"

record check_result =
  rName :: string
  rComponents :: "component list"

fun run_checks :: "'w check list \<Rightarrow> component list \<Rightarrow> 'w \<Rightarrow> component list \<times> 'w" where
  "run_checks [] components w = (components, w)"
| "run_checks (check # rest) components w =
     (case check w of
        (None, w') \<Rightarrow> run_checks rest components w'
      | (Some result, w') \<Rightarrow> run_checks rest (components @ result) w')"

definition Checks_Run :: "'w checks \<Rightarrow> 'w \<Rightarrow> check_result \<times> 'w" where
  "Checks_Run c w = (let (components, w') = run_checks (chList c) [] w
     in (\<lparr>rName = chName c, rComponents = components\<rparr>, w'))"

fun checklist_loop :: "'w checks list \<Rightarrow> check_result list \<Rightarrow> 'w \<Rightarrow> check_result list \<times> 'w" where
  "checklist_loop [] results w = (results, w)"
| "checklist_loop (c # cs) results w =
     (let (r, w') = Checks_Run c w in checklist_loop cs (results @ [r]) w')"

definition Checklist_Run :: "'w checks list \<Rightarrow> 'w \<Rightarrow> check_result list \<times> 'w" where
  "Checklist_Run cl w = checklist_loop cl [] w"

section \<open>Lemmas\<close>

lemma adapted_loop_take:
  "i \<le> length adapters \<Longrightarrow> adapted_loop h adapters i = foldr (\<lambda>a h. a h) (take i adapters) h"
  by (induction i arbitrary: h) (auto simp: take_Suc_conv_app_nth)

lemma adapted_foldr: "adapted h adapters = foldr (\<lambda>a h. a h) adapters h"
  by (simp add: adapted_def adapted_loop_take)

lemma adapted_simps [simp]:
  "adapted h [] = h" "adapted h (a # as) = a (adapted h as)"
  "adapted h (as @ bs) = adapted (adapted h bs) as"
  by (simp_all add: adapted_foldr)

lemma interleave_fold:
  "fold (\<lambda>m acc. acc @ [p, m]) ms acc = acc @ concat (map (\<lambda>m. [p, m]) ms)"
  by (induction ms arbitrary: acc) auto

lemma adaptedWithProfiler_foldr:
  "adaptedWithProfiler h p ms = foldr (\<lambda>m h. p (m h)) ms (p h)"
  by (induction ms) (simp_all add: adaptedWithProfiler_def interleave_fold)

lemma run_checks_acc:
  "run_checks cs (xs @ ys) w = (let (r, w') = run_checks cs ys w in (xs @ r, w'))"
proof (induction cs arbitrary: ys w)
  case Nil
  then show ?case by simp
next
  case (Cons c cs)
  then show ?case by (auto split: prod.splits option.splits)
qed

lemma checklist_loop_acc:
  "checklist_loop cl (xs @ ys) w = (let (r, w') = checklist_loop cl ys w in (xs @ r, w'))"
proof (induction cl arbitrary: ys w)
  case Nil
  then show ?case by simp
next
  case (Cons c cl)
  obtain r w' where r: "Checks_Run c w = (r, w')" by (cases "Checks_Run c w")
  show ?case using Cons.IH[of "ys @ [r]" w'] by (simp add: r)
qed

lemma Checklist_Run_Cons:
  "Checklist_Run (c # cl) w =
      (let (comps, w1) = run_checks (chList c) [] w; (rest, w2) = Checklist_Run cl w1
       in (\<lparr>rName = chName c, rComponents = comps\<rparr> # rest, w2))"
proof -
  obtain comps w1 where r: "run_checks (chList c) [] w = (comps, w1)"
    by (cases "run_checks (chList c) [] w")
  show ?thesis
    using checklist_loop_acc[of cl "[\<lparr>rName = chName c, rComponents = comps\<rparr>]" "[]" w1]
    by (simp add: Checklist_Run_def Checks_Run_def r)
qed

lemma Checklist_Run_names: "map rName (fst (Checklist_Run cl w)) = map chName cl"
proof (induction cl arbitrary: w)
  case Nil
  then show ?case by (simp add: Checklist_Run_def)
next
  case (Cons c cl)
  obtain comps w1 where r: "run_checks (chList c) [] w = (comps, w1)"
    by (cases "run_checks (chList c) [] w")
  obtain rest w2 where c: "Checklist_Run cl w1 = (rest, w2)" by (cases "Checklist_Run cl w1")
  from Cons.IH[of w1] c show ?case by (simp add: Checklist_Run_Cons r)
qed

lemma run_checks_Cons:
  "run_checks (chk # chks) [] w =
      (let (r, w1) = chk w; (rs, w2) = run_checks chks [] w1
       in ((case r of None \<Rightarrow> [] | Some xs \<Rightarrow> xs) @ rs, w2))"
proof -
  obtain r w1 where r: "chk w = (r, w1)" by (cases "chk w")
  show ?thesis using run_checks_acc[of chks "case r of None \<Rightarrow> [] | Some xs \<Rightarrow> xs" "[]" w1]
    by (cases r) (simp_all add: r)
qed

section \<open>Properties\<close>

text \<open>
  C6: The middleware chain: \<open>Handler.With\<close> without profiling applies the adapters so that
  the first one listed is the outermost, and chaining two middlewares is the chain of
  their concatenation; with profiling, the timer wraps every adapter and the handler.
\<close>

theorem With_order:
  "With False t h (as @ bs) = With False t (With False t h bs) as
   \<and> With False t h (a # as) = a (With False t h as)
   \<and> With True t h [] = t h
   \<and> With True t h (a # as) = t (a (With True t h as))"
  by (simp add: With_def adaptedWithProfiler_foldr)

text \<open>
  An adapter that returns without calling the next handler shields everything behind
  it: if the adapter's answer does not depend on the handler it wraps, neither the
  adapters listed after it nor the final handler can change what the request does.
\<close>

theorem With_short_circuit:
  assumes "\<And>h1 h2. a h1 = a h2"
  shows "With False t h (as @ a # bs) = With False t h' (as @ a # cs)"
proof -
  have "a (adapted h bs) = a (adapted h' cs)" by (rule assms)
  then show ?thesis by (simp add: With_def)
qed

definition reject_all :: "(unit, unit, nat, nat) adapter" where
  "reject_all nxt = \<lparr>pc = 7, call = (\<lambda>_ _ st. ((None, Some (Status InvalidArgument ''missing type'')), st))\<rparr>"

definition count_call :: "(unit, unit, nat, nat) adapter" where
  "count_call nxt = \<lparr>pc = 8, call = (\<lambda>ctx opts st. call nxt ctx opts (Suc st))\<rparr>"

definition final_ok :: "(unit, unit, nat, nat) handler" where
  "final_ok = \<lparr>pc = 9, call = (\<lambda>_ _ st. ((Some 0, None), st))\<rparr>"

theorem With_short_circuit_witness:
  "call (With False count_call final_ok [count_call, reject_all, count_call]) () () 0 =
   call (With False count_call final_ok [count_call, reject_all]) () () 0"
  using With_short_circuit[of reject_all count_call final_ok "[count_call]" "[count_call]" final_ok "[]"]
  by (simp add: reject_all_def)

text \<open>
  A health check run returns one result per entry of the checklist, in order and with its
  name, each holding the concatenation of what its checks reported, nil results
  contributing nothing: no check is dropped and none is reported twice.
\<close>

theorem Checklist_Run_results:
  "Checklist_Run [] w = ([], w)
   \<and> Checklist_Run (c # cl) w =
      (let (comps, w1) = run_checks (chList c) [] w; (rest, w2) = Checklist_Run cl w1
       in (\<lparr>rName = chName c, rComponents = comps\<rparr> # rest, w2))
   \<and> map rName (fst (Checklist_Run cl w)) = map chName cl
   \<and> run_checks (chk # chks) [] w =
      (let (r, w1) = chk w; (rs, w2) = run_checks chks [] w1
       in ((case r of None \<Rightarrow> [] | Some xs \<Rightarrow> xs) @ rs, w2))"
  by (intro conjI) (simp add: Checklist_Run_def, rule Checklist_Run_Cons, rule Checklist_Run_names,
      rule run_checks_Cons)

end
