(* ===== verification/Gpu_Pool.thy ===== *)
theory Gpu_Pool
  imports Process_Tree Utils Adapters
begin

text \<open>
  \<^bold>\<open>internal/cedana/gpu\<close>: the pool of GPU controllers (\<open>controller.go\<close>) and the two managers on top of it (\<open>manager_simple.go\<close>,
  \<open>manager_pool.go\<close>). A controller is a process that serves one attached process; the pool is a
  \<open>sync.Map\<close> from its ID. The booking of a controller is a file lock: \<open>Booked\<close> is whether this daemon holds it, and what
  \<open>TryLock\<close> answers is a parameter, a function of that. The termination mutex is a flag; an operation that would
  wait for it returns \<open>None\<close>.
\<close>

section \<open>State\<close>

datatype controllerStatus = CONTROLLER_STALE | CONTROLLER_FREE | CONTROLLER_BUSY

record controller =
  cID :: string
  ctlPID :: u32
  ParentPID :: u32
  Address :: string
  AttachedPID :: u32
  ShmSize :: u64
  ShmName :: string
  cUID :: u32
  cGID :: u32
  Version :: string
  Booked :: bool
  Termination :: bool
  syncFails :: nat
  ClientConn :: bool

record info_resp =
  iAttachedPID :: u32
  iShmSize :: u64
  iShmName :: string
  iVersion :: string
  iPID :: u32

record gpu_state =
  ctrls :: "(string, controller) smap"
  spawned :: nat
  starts :: "(string list \<times> string list) list"
  killed :: "u32 list"
  cleaned :: "string list"

record gpu_env =
  gProcs :: proc_env
  gSockDir :: string
  gReadDir :: "goerr + string list"
  gStatSock :: "string \<Rightarrow> goerr + u32 \<times> u32"
  gDial :: "string \<Rightarrow> error"
  gShutdown :: "string \<Rightarrow> bool"
  gInfo :: "string \<Rightarrow> goerr + info_resp"
  gStderr :: "string \<Rightarrow> string"
  gTryLock :: "string \<Rightarrow> bool \<Rightarrow> bool"
  gUid :: u32
  gGid :: u32
  gSelf :: u32
  gShmSize :: u64
  gDebug :: bool
  gLogDir :: string
  gMkdir :: error
  gChmod :: error
  gChown :: error
  gOsEnv :: "string list"
  gConfigEnv :: "string list"
  gUuid :: "nat \<Rightarrow> string"
  gStart :: "string \<Rightarrow> goerr + u32"
  gAttach :: "string \<Rightarrow> u32 \<Rightarrow> error"
  gHealth :: "string \<Rightarrow> component list option \<times> error"
  gFreeze :: "string \<Rightarrow> error"
  gUnfreeze :: "string \<Rightarrow> error"
  gDump :: "string \<Rightarrow> string \<Rightarrow> bool \<Rightarrow> bool \<Rightarrow> error"
  gRestore :: "string \<Rightarrow> string \<Rightarrow> bool \<Rightarrow> error"

definition MAX_SYNC_FAILURES :: nat where
  "MAX_SYNC_FAILURES = 2"

text \<open>The pool is keyed by the ID of the controller: the ID with which a controller was made is the key of its entry.\<close>

definition set_ctl :: "controller \<Rightarrow> gpu_state \<Rightarrow> gpu_state" where
  "set_ctl c st = st\<lparr>ctrls := AList.update (cID c) c (ctrls st)\<rparr>"

section \<open>Controllers\<close>

definition ctl_Status :: "gpu_env \<Rightarrow> controller \<Rightarrow> controllerStatus \<times> string" where
  "ctl_Status env c =
     (if syncFails c < MAX_SYNC_FAILURES \<and> PidRunning (gProcs env) (ctlPID c) then
        (if AttachedPID c = 0 then
           (if ShmSize c = gShmSize env \<and> cUID c = gUid env \<and> cGID c = gGid env
            then (CONTROLLER_FREE, ''controller free and compatible'')
            else if ShmSize c \<noteq> gShmSize env
            then (CONTROLLER_STALE, ''controller shm size mismatch (expected '' @ itoa (unat (gShmSize env)) @ '', got '' @ itoa (unat (ShmSize c)) @ '')'')
            else (CONTROLLER_STALE, ''controller credentials mismatch (expected '' @ itoa (unat (gUid env)) @ '':'' @ itoa (unat (gGid env)) @
              '', got '' @ itoa (unat (cUID c)) @ '':'' @ itoa (unat (cGID c)) @ '')''))
         else if PidRunning (gProcs env) (AttachedPID c) then (CONTROLLER_BUSY, ''attached process is running'')
         else (CONTROLLER_STALE, ''attached process not running''))
      else (CONTROLLER_STALE, ''controller process not running''))"

definition ctl_Book :: "gpu_env \<Rightarrow> controller \<Rightarrow> bool \<times> controller" where
  "ctl_Book env c =
     (if \<not> gTryLock env (cID c) (Booked c) then (False, c)
      else if fst (ctl_Status env c) \<noteq> CONTROLLER_FREE then (False, c\<lparr>Booked := False\<rparr>)
      else (True, c\<lparr>Booked := True\<rparr>))"

text \<open>\<open>WaitForInfo\<close> is \<open>Info\<close> with a deadline; only its errors are shortened.\<close>

definition WaitForInfo :: "gpu_env \<Rightarrow> string \<Rightarrow> goerr + info_resp" where
  "WaitForInfo env ident = (case gInfo env ident of
       Inl e \<Rightarrow> Inl (the (GRPCErrorShort (Some e) [gStderr env ident]))
     | Inr r \<Rightarrow> Inr r)"

definition ctl_Sync :: "gpu_env \<Rightarrow> bool \<Rightarrow> controller \<Rightarrow> error \<times> controller" where
  "ctl_Sync env wait c =
     (if Address c = [] then (Some (Errorf ''controller address is not set''), c)
      else (case (if \<not> ClientConn c \<or> gShutdown env (cID c) then gDial env (Address c) else None) of
          Some e \<Rightarrow> (Some (Wrapf ''failed to create GPU controller client'' (the (GRPCErrorShort (Some e) [gStderr env (cID c)]))), c)
        | None \<Rightarrow>
          (let c1 = c\<lparr>ClientConn := True\<rparr> in
           case (if wait then WaitForInfo env (cID c) else gInfo env (cID c)) of
             Inl e \<Rightarrow> (Some e, c1)
           | Inr r \<Rightarrow>
             (None, c1\<lparr>AttachedPID := (if iAttachedPID r \<noteq> 0 then iAttachedPID r else AttachedPID c),
                ShmSize := iShmSize r, ShmName := iShmName r, Version := iVersion r, ctlPID := iPID r\<rparr>))))"

text \<open>A remote call needs the client that \<open>Sync\<close> connects; without it the embedded interface is nil.\<close>

definition rpc :: "controller \<Rightarrow> error \<Rightarrow> error" where
  "rpc c err = (if ClientConn c then err else Some (Panic ''nil pointer dereference''))"

definition ctl_Attach :: "gpu_env \<Rightarrow> u32 \<Rightarrow> controller \<Rightarrow> error \<times> controller" where
  "ctl_Attach env pid c =
     (case rpc c (gAttach env (cID c) pid) of
        Some (Panic p) \<Rightarrow> (Some (Panic p), c)
      | Some e \<Rightarrow> (GRPCErrorShort (Some e) [gStderr env (cID c)], c)
      | None \<Rightarrow> (None, c\<lparr>AttachedPID := pid\<rparr>))"

definition WaitForHealthCheck :: "gpu_env \<Rightarrow> string \<Rightarrow> component list option \<times> error" where
  "WaitForHealthCheck env ident =
     (case gHealth env ident of (resp, err) \<Rightarrow>
        (case resp of Some (x # xs) \<Rightarrow> Some (x # xs) | _ \<Rightarrow> None, GRPCErrorShort err [gStderr env ident]))"

definition EnsureLogDir :: "gpu_env \<Rightarrow> string \<Rightarrow> error \<times> string" where
  "EnsureLogDir env ident =
     (let dir = gLogDir env @ ''/cedana-gpu.'' @ ident in
      case gMkdir env of Some e \<Rightarrow> (Some e, []) | None \<Rightarrow>
      (case gChmod env of Some e \<Rightarrow> (Some e, []) | None \<Rightarrow> (gChown env, dir)))"

section \<open>The pool\<close>

definition pool_Get :: "string \<Rightarrow> gpu_state \<Rightarrow> controller option" where
  "pool_Get ident st = map_of (ctrls st) ident"

definition pool_Find :: "u32 \<Rightarrow> gpu_state \<Rightarrow> controller option" where
  "pool_Find pid st = map_option snd (List.find (\<lambda>(k, c). AttachedPID c = pid) (ctrls st))"

fun list_loop :: "gpu_env \<Rightarrow> controller list \<Rightarrow> controller list \<times> controller list \<times> (controller \<times> string) list" where
  "list_loop env [] = ([], [], [])"
| "list_loop env (c # cs) =
     (case list_loop env cs of (free, busy, stale) \<Rightarrow>
      if Booked c then (free, c # busy, stale)
      else (case ctl_Status env c of
          (CONTROLLER_FREE, r) \<Rightarrow> (c # free, busy, stale)
        | (CONTROLLER_BUSY, r) \<Rightarrow> (free, c # busy, stale)
        | (CONTROLLER_STALE, r) \<Rightarrow> (free, busy, (c, r) # stale)))"

definition pool_List :: "gpu_env \<Rightarrow> gpu_state \<Rightarrow> controller list \<times> controller list \<times> (controller \<times> string) list" where
  "pool_List env st = list_loop env (map snd (ctrls st))"

text \<open>
  The socket pattern, \<open>cedana-gpu-controller-(.*).sock\<close> unanchored: the leftmost prefix, then the longest group that is followed by
  any character and \<open>sock\<close>. The group does not cross a line break.
\<close>

definition greedy_group :: "string \<Rightarrow> string option" where
  "greedy_group r =
     (case List.find (\<lambda>k. has_prefix (drop (Suc k) r) ''sock'' \<and> Suc k \<le> length r) (rev [0..<length (takeWhile (\<lambda>c. c \<noteq> CHR 0x0A) r)]) of
        None \<Rightarrow> None | Some k \<Rightarrow> Some (take k r))"

fun socket_id :: "string \<Rightarrow> string option" where
  "socket_id s =
     (case (if has_prefix s ''cedana-gpu-controller-'' then greedy_group (drop 22 s) else None) of
        Some g \<Rightarrow> Some g
      | None \<Rightarrow> (case s of [] \<Rightarrow> None | _ # r \<Rightarrow> socket_id r))"

declare socket_id.simps [simp del]

definition new_controller :: "string \<Rightarrow> controller" where
  "new_controller ident = \<lparr>cID = ident, ctlPID = 0, ParentPID = 0, Address = [], AttachedPID = 0, ShmSize = 0, ShmName = [],
     cUID = 0, cGID = 0, Version = [], Booked = False, Termination = False, syncFails = 0, ClientConn = False\<rparr>"

definition sock_address :: "gpu_env \<Rightarrow> string \<Rightarrow> string" where
  "sock_address env ident = ''unix://'' @ gSockDir env @ ''/cedana-gpu-controller-'' @ ident @ ''.sock''"

definition sock_path :: "gpu_env \<Rightarrow> string \<Rightarrow> string" where
  "sock_path env ident = gSockDir env @ ''/cedana-gpu-controller-'' @ ident @ ''.sock''"

definition sync_entry :: "gpu_env \<Rightarrow> string \<Rightarrow> gpu_state \<Rightarrow> gpu_state" where
  "sync_entry env name st =
     (case socket_id name of
        None \<Rightarrow> st
      | Some ident \<Rightarrow>
        if ident = [] then st
        else (case (case pool_Get ident st of
              Some c \<Rightarrow> Some c
            | None \<Rightarrow>
              (case gStatSock env (sock_path env ident) of
                 Inl _ \<Rightarrow> None
               | Inr (u, g) \<Rightarrow> Some ((new_controller ident)\<lparr>Address := sock_address env ident, cUID := u, cGID := g\<rparr>))) of
            None \<Rightarrow> st
          | Some c \<Rightarrow>
            if Booked c then st
            else (case ctl_Sync env False c of
                (None, c') \<Rightarrow> set_ctl (c'\<lparr>syncFails := 0\<rparr>) st
              | (Some _, c') \<Rightarrow> set_ctl (c'\<lparr>syncFails := Suc (syncFails c')\<rparr>) st)))"

definition pool_Sync :: "gpu_env \<Rightarrow> gpu_state \<Rightarrow> error \<times> gpu_state" where
  "pool_Sync env st =
     (case gReadDir env of
        Inl e \<Rightarrow> (Some (Wrapf ''failed to read GPU sock directory'' e), st)
      | Inr names \<Rightarrow> (None, fold (sync_entry env) names st))"

text \<open>The candidates are the controllers listed as free; booking changes the controller in the pool.\<close>

fun book_loop :: "gpu_env \<Rightarrow> controller list \<Rightarrow> gpu_state \<Rightarrow> string option \<times> gpu_state" where
  "book_loop env [] st = (None, st)"
| "book_loop env (c # cs) st =
     (case pool_Get (cID c) st of
        None \<Rightarrow> book_loop env cs st
      | Some c' \<Rightarrow>
        (case ctl_Book env c' of
           (True, c'') \<Rightarrow> (Some (cID c), set_ctl c'' st)
         | (False, c'') \<Rightarrow> book_loop env cs (set_ctl c'' st)))"

definition pool_Book :: "gpu_env \<Rightarrow> gpu_state \<Rightarrow> string option \<times> gpu_state" where
  "pool_Book env st = (case pool_List env st of (free, _, _) \<Rightarrow> book_loop env free st)"

text \<open>
  Terminating: the signal goes to the controller's process, the files are removed, and the controller
  leaves the pool. A controller whose process was never started gets no signal.
\<close>

definition pool_Terminate :: "string \<Rightarrow> gpu_state \<Rightarrow> gpu_state option" where
  "pool_Terminate ident st =
     (case pool_Get ident st of
        None \<Rightarrow> Some st
      | Some c \<Rightarrow>
        if Termination c then None
        else Some (st\<lparr>ctrls := AList.delete ident (ctrls st), cleaned := cleaned st @ [ident],
               killed := (if ctlPID c = 0 then killed st else killed st @ [ctlPID c])\<rparr>))"

definition spawn_cmd :: "gpu_env \<Rightarrow> string \<Rightarrow> string \<Rightarrow> string option \<Rightarrow> string list \<Rightarrow> string list \<times> string list" where
  "spawn_cmd env binary ident logDir extra =
     ([binary, ident, ''--sock-dir'', gSockDir env] @ (case logDir of None \<Rightarrow> [] | Some d \<Rightarrow> [''--log-dir'', d]),
      gOsEnv env @ gConfigEnv env @ extra)"

text \<open>The deferred \<open>Terminate\<close> of a failed start finds the controller it stored, whose mutex is free.\<close>

definition spawn_failed :: "string \<Rightarrow> goerr \<Rightarrow> gpu_state \<Rightarrow> (goerr + string) \<times> gpu_state" where
  "spawn_failed ident e st = (Inl e, case pool_Terminate ident st of None \<Rightarrow> st | Some st' \<Rightarrow> st')"

definition pool_Spawn :: "gpu_env \<Rightarrow> string \<Rightarrow> string list \<Rightarrow> gpu_state \<Rightarrow> (goerr + string) \<times> gpu_state" where
  "pool_Spawn env binary extra st =
     (let ident = gUuid env (spawned st);
          st1 = st\<lparr>spawned := Suc (spawned st)\<rparr>;
          wantLog = Getenv extra ''CEDANA_GPU_HEALTH_CHECK'' [] \<noteq> ''1'' \<and> gLogDir env \<noteq> []
      in case (if wantLog then fst (EnsureLogDir env ident) else None) of
           Some e \<Rightarrow> (Inl (Wrapf ''failed to create GPU controller log directory'' e), st1)
         | None \<Rightarrow>
           (let cmd = spawn_cmd env binary ident (if wantLog then Some (snd (EnsureLogDir env ident)) else None) extra in
            if \<not> gTryLock env ident False
            then (Inl (Errorf ''failed to lock GPU controller booking''), st1\<lparr>cleaned := cleaned st1 @ [ident]\<rparr>)
            else
              (let c = (new_controller ident)\<lparr>Address := sock_address env ident, cUID := gUid env, cGID := gGid env, Booked := True\<rparr>;
                   st2 = (set_ctl c st1)\<lparr>starts := starts st1 @ [cmd]\<rparr>
               in case gStart env ident of
                    Inl e \<Rightarrow> spawn_failed ident (Wrapf ''failed to start GPU controller'' (the (GRPCErrorShort (Some e) [gStderr env ident]))) st2
                  | Inr pid \<Rightarrow>
                    (case ctl_Sync env True (c\<lparr>ctlPID := pid, ParentPID := gSelf env\<rparr>) of
                       (Some e, c') \<Rightarrow> spawn_failed ident (Wrapf ''failed to connect to GPU controller'' e) (set_ctl c' st2)
                     | (None, c') \<Rightarrow> (Inr ident, set_ctl c' st2)))))"

text \<open>A health check runs on a controller of its own, which the deferred \<open>Terminate\<close> removes.\<close>

definition status_component :: "string \<Rightarrow> string list \<Rightarrow> component" where
  "status_component d errs = \<lparr>cName = ''status'', cData = d, cWarnings = [], cErrors = errs\<rparr>"

definition pool_Check :: "gpu_env \<Rightarrow> string \<Rightarrow> gpu_state \<Rightarrow> (goerr + component list) \<times> gpu_state option" where
  "pool_Check env binary st =
     (case pool_Spawn env binary [''CEDANA_GPU_SHM_SIZE='' @ itoa 8388608, ''CEDANA_GPU_HEALTH_CHECK='' @ itoa 1] st of
        (Inl e, st') \<Rightarrow> (Inr [status_component ''failed'' [err_text e]], Some st')
      | (Inr ident, st') \<Rightarrow>
        (case WaitForHealthCheck env ident of
           (None, Some e) \<Rightarrow> (Inr [status_component ''failed'' [''Failed health check: '' @ err_text e]], pool_Terminate ident st')
         | (comps, _) \<Rightarrow>
             (Inr (status_component ''available'' [] # (case comps of None \<Rightarrow> [] | Some cs \<Rightarrow> cs)), pool_Terminate ident st')))"

section \<open>ManagerSimple\<close>

text \<open>The GPU plugin: whether it is installed, its binaries, and whether a binary can be found.\<close>

record gpu_plugin =
  installed :: bool
  binaries :: "string list"
  statBinary :: "string \<Rightarrow> error"

definition simple_Attach :: "gpu_env \<Rightarrow> gpu_plugin \<Rightarrow> gpu_state \<Rightarrow> (goerr + string) \<times> gpu_state" where
  "simple_Attach env p st =
     (if \<not> installed p then (Inl (Errorf ''Please install the GPU plugin to use GPU support''), st)
      else (case binaries p of
          [] \<Rightarrow> (Inl (Panic ''index out of range''), st)
        | binary # _ \<Rightarrow>
          (case statBinary p binary of
             Some e \<Rightarrow> (Inl e, st)
           | None \<Rightarrow>
             (case pool_Book env st of
                (Some ident, st') \<Rightarrow> (Inr ident, st')
              | (None, st') \<Rightarrow> pool_Spawn env binary [] st'))))"

text \<open>
  The goroutine of \<open>Attach\<close>, once the context is done, the channel is closed (both \<open>None\<close>) or a PID has arrived.
  The PID is stored before the controller is told about it. A controller that was terminated in between has no client any
  more, so telling it panics.
\<close>

definition attach_done :: "gpu_env \<Rightarrow> string \<Rightarrow> u32 option \<Rightarrow> gpu_state \<Rightarrow> (error \<times> gpu_state) option" where
  "attach_done env ident recv st =
     (case recv of
        None \<Rightarrow> map_option (Pair None) (pool_Terminate ident st)
      | Some pid \<Rightarrow>
        (case pool_Get ident st of
           None \<Rightarrow> Some (Some (Panic ''nil pointer dereference''), st)
         | Some c \<Rightarrow>
           (case ctl_Attach env pid (c\<lparr>AttachedPID := pid\<rparr>) of
              (Some (Panic p), c') \<Rightarrow> Some (Some (Panic p), set_ctl c' st)
            | (Some _, c') \<Rightarrow> map_option (Pair None) (pool_Terminate ident (set_ctl c' st))
            | (None, c') \<Rightarrow> Some (None, set_ctl (c'\<lparr>Booked := False\<rparr>) st))))"

definition simple_Detach :: "gpu_env \<Rightarrow> u32 \<Rightarrow> gpu_state \<Rightarrow> (error \<times> gpu_state) option" where
  "simple_Detach env pid st =
     (case pool_Find pid st of
        None \<Rightarrow> Some (Some (Errorf (''no GPU controller found attached to PID '' @ itoa (unat pid))), st)
      | Some c \<Rightarrow>
        if \<not> gTryLock env (cID c) (Booked c)
        then Some (Some (Errorf (''GPU controller attached to PID '' @ itoa (unat pid) @ '' is busy'')), st)
        else map_option (\<lambda>st'. (None, st')) (pool_Terminate (cID c) (set_ctl (c\<lparr>Booked := True\<rparr>) st)))"

definition simple_IsAttached :: "u32 \<Rightarrow> gpu_state \<Rightarrow> bool" where
  "simple_IsAttached pid st \<longleftrightarrow> pool_Find pid st \<noteq> None"

definition simple_GetID :: "u32 \<Rightarrow> gpu_state \<Rightarrow> string" where
  "simple_GetID pid st = (case pool_Find pid st of None \<Rightarrow> [] | Some c \<Rightarrow> cID c)"

definition simple_Freeze :: "gpu_env \<Rightarrow> u32 \<Rightarrow> gpu_state \<Rightarrow> error" where
  "simple_Freeze env pid st = (case pool_Find pid st of
       None \<Rightarrow> Some (Errorf (''no GPU controller found attached to PID '' @ itoa (unat pid)))
     | Some c \<Rightarrow> rpc c (gFreeze env (cID c)))"

definition simple_Unfreeze :: "gpu_env \<Rightarrow> u32 \<Rightarrow> gpu_state \<Rightarrow> error" where
  "simple_Unfreeze env pid st = (case pool_Find pid st of
       None \<Rightarrow> Some (Errorf (''no GPU controller found attached to PID '' @ itoa (unat pid)))
     | Some c \<Rightarrow> rpc c (gUnfreeze env (cID c)))"

definition simple_Sync :: "gpu_env \<Rightarrow> gpu_state \<Rightarrow> error \<times> gpu_state" where
  "simple_Sync env st = pool_Sync env st"

definition empty_pool :: gpu_state where
  "empty_pool = \<lparr>ctrls = [], spawned = 0, starts = [], killed = [], cleaned = []\<rparr>"

definition NewSimpleManager :: "gpu_env \<Rightarrow> goerr + gpu_state" where
  "NewSimpleManager env = (case simple_Sync env empty_pool of
       (Some e, _) \<Rightarrow> Inl (Wrapf ''failed to sync GPU controllers'' e)
     | (None, st) \<Rightarrow> Inr st)"

definition simple_Checks :: "gpu_env \<Rightarrow> gpu_plugin \<Rightarrow> gpu_state \<Rightarrow> (goerr + component list) \<times> gpu_state option" where
  "simple_Checks env p st =
     (if \<not> installed p
      then (Inr [status_component ''missing'' [''Please install the GPU plugin to use GPU support.'']], Some st)
      else (case binaries p of
          [] \<Rightarrow> (Inl (Panic ''index out of range''), Some st)
        | binary # _ \<Rightarrow>
          (case statBinary p binary of
             Some e \<Rightarrow> (Inr [status_component ''invalid'' [''Invalid binary: '' @ err_text e @ ''. Try reinstalling plugin.'']], Some st)
           | None \<Rightarrow> pool_Check env binary st)))"

section \<open>ManagerPool\<close>

record pool_mgr =
  poolSize :: nat
  free :: nat
  busy :: nat
  stale :: nat
  gst :: gpu_state

text \<open>Each stale controller that can be locked is terminated; a mutex that is held blocks the whole synchronisation.\<close>

fun clear_stale :: "gpu_env \<Rightarrow> (controller \<times> string) list \<Rightarrow> gpu_state \<Rightarrow> gpu_state option" where
  "clear_stale env [] st = Some st"
| "clear_stale env ((c, reason) # cs) st =
     (if gTryLock env (cID c) (Booked c)
      then Option.bind (pool_Terminate (cID c) (set_ctl (c\<lparr>Booked := True\<rparr>) st)) (clear_stale env cs)
      else clear_stale env cs st)"

fun spawn_more :: "gpu_env \<Rightarrow> string \<Rightarrow> nat \<Rightarrow> gpu_state \<Rightarrow> gpu_state" where
  "spawn_more env binary 0 st = st"
| "spawn_more env binary (Suc n) st =
     (case pool_Spawn env binary [] st of
        (Inl _, st') \<Rightarrow> spawn_more env binary n st'
      | (Inr ident, st') \<Rightarrow>
        (case pool_Get ident st' of
           None \<Rightarrow> spawn_more env binary n st'
         | Some c \<Rightarrow> spawn_more env binary n (set_ctl (c\<lparr>Booked := False\<rparr>) st')))"

fun reduce :: "gpu_env \<Rightarrow> controller list \<Rightarrow> gpu_state \<Rightarrow> gpu_state option" where
  "reduce env [] st = Some st"
| "reduce env (c # cs) st =
     (case ctl_Book env c of
        (True, c') \<Rightarrow> Option.bind (pool_Terminate (cID c) (set_ctl c' st)) (reduce env cs)
      | (False, c') \<Rightarrow> reduce env cs (set_ctl c' st))"

text \<open>
  One synchronisation. A call that finds another one running only waits for it and returns nil, so it is no step of its own; the
  spawns and the terminations of a synchronisation, which the code runs in goroutines on different controllers, come one after the other here.
\<close>

definition pm_Sync :: "gpu_env \<Rightarrow> string \<Rightarrow> pool_mgr \<Rightarrow> (error \<times> pool_mgr) option" where
  "pm_Sync env binary m =
     (case pool_Sync env (gst m) of
        (Some e, st) \<Rightarrow> Some (Some (Wrapf ''failed to sync GPU controllers'' e), m\<lparr>gst := st\<rparr>)
      | (None, st) \<Rightarrow>
        (case pool_List env st of (fr, bs, sl) \<Rightarrow>
         (let m1 = m\<lparr>free := length fr, busy := length bs, stale := length sl, gst := st\<rparr> in
          if gDebug env then Some (None, m1)
          else (case clear_stale env sl st of
              None \<Rightarrow> None
            | Some st1 \<Rightarrow>
              if length fr < poolSize m then Some (None, m1\<lparr>gst := spawn_more env binary (poolSize m - length fr) st1\<rparr>)
              else if poolSize m < length fr
              then map_option (\<lambda>st2. (None, m1\<lparr>gst := st2\<rparr>)) (reduce env (drop (poolSize m) fr) st1)
              else Some (None, m1\<lparr>gst := st1\<rparr>)))))"

text \<open>
  The shutdown: the target is zero, and the manager synchronises until no free and no stale controller was listed or the time
  is up. The environment of each round and the state of the clock are functions of the round.
\<close>

partial_function (option) shutdown_loop ::
    "(nat \<Rightarrow> bool) \<Rightarrow> (nat \<Rightarrow> gpu_env) \<Rightarrow> string \<Rightarrow> nat \<Rightarrow> pool_mgr \<Rightarrow> (bool \<times> pool_mgr) option" where
  "shutdown_loop timeUp env binary i m =
     (if timeUp i then Some (False, m)
      else (case pm_Sync (env i) binary (m\<lparr>poolSize := 0\<rparr>) of
          None \<Rightarrow> None
        | Some (e, m') \<Rightarrow>
            if (free m' = 0 \<and> stale m' = 0) \<or> gDebug (env i) then Some (True, m')
            else shutdown_loop timeUp env binary (Suc i) m'))"

definition NewPoolManager :: "gpu_env \<Rightarrow> string \<Rightarrow> nat \<Rightarrow> (goerr + pool_mgr) option" where
  "NewPoolManager env binary n =
     (case NewSimpleManager env of
        Inl e \<Rightarrow> Some (Inl e)
      | Inr st \<Rightarrow>
        (case pm_Sync env binary \<lparr>poolSize = n, free = 0, busy = 0, stale = 0, gst = st\<rparr> of
           None \<Rightarrow> None
         | Some (Some e, _) \<Rightarrow> Some (Inl (Wrapf ''failed to sync GPU controllers'' e))
         | Some (None, m) \<Rightarrow> Some (Inr m)))"

end
