(* ===== verification/Gpu_Pool_Props.thy ===== *)
theory Gpu_Pool_Props
  imports Gpu_Pool
begin

text \<open>
  What the GPU pool guarantees: a synchronisation leaves busy controllers alone and reaches the target size;
  booking hands a controller to one caller if the file lock excludes the daemon itself and to two if it does not.
\<close>

section \<open>The invariant and the list\<close>

definition pool_ok :: "gpu_state \<Rightarrow> bool" where
  "pool_ok st \<longleftrightarrow> sm_ok (ctrls st) \<and> list_all (\<lambda>(k, c). cID c = k) (ctrls st)"

definition is_free :: "gpu_env \<Rightarrow> controller \<Rightarrow> bool" where
  "is_free env c \<longleftrightarrow> \<not> Booked c \<and> fst (ctl_Status env c) = CONTROLLER_FREE"

definition is_stale :: "gpu_env \<Rightarrow> controller \<Rightarrow> bool" where
  "is_stale env c \<longleftrightarrow> \<not> Booked c \<and> fst (ctl_Status env c) = CONTROLLER_STALE"

abbreviation controllers :: "gpu_state \<Rightarrow> controller list" where
  "controllers st \<equiv> map snd (ctrls st)"

lemma list_loop_filter:
  "list_loop env cs = (filter (is_free env) cs, filter (\<lambda>c. \<not> is_free env c \<and> \<not> is_stale env c) cs,
     map (\<lambda>c. (c, snd (ctl_Status env c))) (filter (is_stale env) cs))"
proof (induction cs)
  case (Cons c cs)
  obtain s r where "ctl_Status env c = (s, r)" by (cases "ctl_Status env c")
  then show ?case using Cons by (cases s) (simp_all add: is_free_def is_stale_def)
qed simp

lemma pool_List_filter:
  "pool_List env st = (filter (is_free env) (controllers st), filter (\<lambda>c. \<not> is_free env c \<and> \<not> is_stale env c) (controllers st),
     map (\<lambda>c. (c, snd (ctl_Status env c))) (filter (is_stale env) (controllers st)))"
  by (simp add: pool_List_def list_loop_filter)

lemma ctl_Status_Booked [simp]: "ctl_Status env (c\<lparr>Booked := b\<rparr>) = ctl_Status env c"
  by (simp add: ctl_Status_def)

lemma pool_ok_ids: "pool_ok st \<Longrightarrow> map cID (controllers st) = map fst (ctrls st)"
  by (auto simp: pool_ok_def list_all_iff intro: map_cong)

lemma pool_ok_distinct: "pool_ok st \<Longrightarrow> distinct (map cID (controllers st))"
  by (simp only: pool_ok_ids) (simp add: pool_ok_def)

lemma pool_ok_Get: "pool_ok st \<Longrightarrow> c \<in> set (controllers st) \<Longrightarrow> pool_Get (cID c) st = Some c"
proof -
  assume ok: "pool_ok st" and "c \<in> set (controllers st)"
  then obtain k where k: "(k, c) \<in> set (ctrls st)" by auto
  then have "cID c = k" using ok by (auto simp: pool_ok_def list_all_iff)
  then show ?thesis using k ok by (simp add: pool_Get_def pool_ok_def)
qed

lemma Get_cID: "pool_ok st \<Longrightarrow> pool_Get k st = Some c \<Longrightarrow> cID c = k"
  by (auto simp: pool_ok_def pool_Get_def list_all_iff dest: map_of_SomeD)

lemma set_ctl_Get: "pool_Get k (set_ctl c st) = (if k = cID c then Some c else pool_Get k st)"
  by (simp add: pool_Get_def set_ctl_def update_conv')

lemma AList_update_keys: "list_all (\<lambda>(k, c). P k c) al \<Longrightarrow> P k v \<Longrightarrow> list_all (\<lambda>(k, c). P k c) (AList.update k v al)"
  by (induction al) auto

lemma set_ctl_ok: "pool_ok st \<Longrightarrow> pool_ok (set_ctl c st)"
  by (auto simp: pool_ok_def set_ctl_def distinct_update intro: AList_update_keys)

lemma pool_ok_fields [simp]:
  "pool_ok (st\<lparr>spawned := n\<rparr>) = pool_ok st" "pool_ok (st\<lparr>starts := x\<rparr>) = pool_ok st"
  "pool_ok (st\<lparr>cleaned := y\<rparr>) = pool_ok st" "pool_ok (st\<lparr>killed := z\<rparr>) = pool_ok st"
  by (simp_all add: pool_ok_def)

lemma delete_ok: "pool_ok st \<Longrightarrow> pool_ok (st\<lparr>ctrls := AList.delete k (ctrls st)\<rparr>)"
  using distinct_delete [of "ctrls st" k] by (auto simp: pool_ok_def list_all_iff) (auto simp: AList.delete_eq)

lemma Terminate_ok: "pool_Terminate k st = Some st' \<Longrightarrow> pool_ok st \<Longrightarrow> pool_ok st'"
  using delete_ok [of st k] by (auto simp: pool_Terminate_def pool_ok_def split: option.splits if_splits)

section \<open>Operations keep the invariant\<close>

lemma ctl_Sync_cID: "ctl_Sync env w c = (e, c') \<Longrightarrow> cID c' = cID c"
  by (auto simp: ctl_Sync_def Let_def split: option.splits sum.splits if_splits)

lemma sync_entry_ok: "pool_ok st \<Longrightarrow> pool_ok (sync_entry env name st)"
  by (auto simp: sync_entry_def set_ctl_ok split: option.split sum.split prod.split)

lemma pool_Sync_ok: "pool_Sync env st = (e, st') \<Longrightarrow> pool_ok st \<Longrightarrow> pool_ok st'"
proof -
  assume s: "pool_Sync env st = (e, st')" and ok: "pool_ok st"
  have "pool_ok (fold (sync_entry env) names st)" for names
    using ok by (induction names arbitrary: st) (simp_all add: sync_entry_ok)
  then show ?thesis using s ok by (auto simp: pool_Sync_def split: sum.splits)
qed

lemma spawn_failed_ok: "spawn_failed k e st = (r, st') \<Longrightarrow> pool_ok st \<Longrightarrow> pool_ok st'"
  by (auto simp: spawn_failed_def Terminate_ok split: option.splits)

lemma pool_Spawn_ok: "pool_Spawn env binary extra st = (r, st') \<Longrightarrow> pool_ok st \<Longrightarrow> pool_ok st'"
  unfolding pool_Spawn_def Let_def
  by (auto simp: set_ctl_ok split: option.splits if_splits sum.splits prod.splits elim!: spawn_failed_ok)

lemma spawn_more_ok: "pool_ok st \<Longrightarrow> pool_ok (spawn_more env binary n st)"
proof (induction n arbitrary: st)
  case (Suc n)
  obtain r st' where sp: "pool_Spawn env binary [] st = (r, st')" by (metis surj_pair)
  have "pool_ok st'" by (rule pool_Spawn_ok [OF sp Suc.prems])
  then show ?case using Suc.IH sp by (auto simp: set_ctl_ok split: sum.split option.split)
qed simp

lemma clear_stale_ok: "clear_stale env cs st = Some st' \<Longrightarrow> pool_ok st \<Longrightarrow> pool_ok st'"
  by (induction env cs st rule: clear_stale.induct)
    (auto simp: set_ctl_ok split: if_splits bind_splits dest: Terminate_ok)

lemma reduce_ok: "reduce env cs st = Some st' \<Longrightarrow> pool_ok st \<Longrightarrow> pool_ok st'"
proof (induction env cs st rule: reduce.induct)
  case (2 env c cs st)
  obtain b c' where b: "ctl_Book env c = (b, c')" by (cases "ctl_Book env c")
  show ?case
    using 2 b by (cases b) (auto simp: set_ctl_ok split: bind_splits dest: Terminate_ok [OF _ set_ctl_ok])
qed simp

section \<open>Busy controllers are left alone\<close>

lemma Terminate_Get: "pool_Terminate k st = Some st' \<Longrightarrow> k' \<noteq> k \<Longrightarrow> pool_Get k' st' = pool_Get k' st"
  by (auto simp: pool_Terminate_def pool_Get_def delete_conv' split: option.splits if_splits)

lemma clear_stale_Get:
  "clear_stale env cs st = Some st' \<Longrightarrow> k \<notin> cID ` fst ` set cs \<Longrightarrow> pool_Get k st' = pool_Get k st"
  by (induction env cs st rule: clear_stale.induct)
    (auto simp: set_ctl_Get split: if_splits bind_splits dest: Terminate_Get)

lemma ctl_Book_cID: "ctl_Book env c = (b, c') \<Longrightarrow> cID c' = cID c"
  by (auto simp: ctl_Book_def split: if_splits)

lemma reduce_Get:
  "reduce env cs st = Some st' \<Longrightarrow> k \<notin> cID ` set cs \<Longrightarrow> pool_Get k st' = pool_Get k st"
proof (induction env cs st rule: reduce.induct)
  case (2 env c cs st)
  obtain b c' where b: "ctl_Book env c = (b, c')" by (cases "ctl_Book env c")
  have k: "cID c' = cID c" "k \<noteq> cID c" using ctl_Book_cID [OF b] "2.prems"(2) by auto
  show ?case
    using 2 b k by (cases b) (auto simp: set_ctl_Get split: bind_splits dest!: Terminate_Get [of "cID c" "set_ctl c' st" _ k])
qed simp

lemma spawn_failed_Get: "spawn_failed k e st = (r, st') \<Longrightarrow> k' \<noteq> k \<Longrightarrow> pool_Get k' st' = pool_Get k' st"
  by (auto simp: spawn_failed_def split: option.splits dest: Terminate_Get)

lemma Get_fields [simp]:
  "pool_Get k (st\<lparr>spawned := n\<rparr>) = pool_Get k st" "pool_Get k (st\<lparr>starts := x\<rparr>) = pool_Get k st"
  "pool_Get k (st\<lparr>cleaned := y\<rparr>) = pool_Get k st"
  by (simp_all add: pool_Get_def)

lemma pool_Spawn_Get:
  assumes "pool_Spawn env binary extra st = (r, st')" and "k \<noteq> gUuid env (spawned st)"
  shows "pool_Get k st' = pool_Get k st"
proof -
  have n: "cID (new_controller i) = i" for i by (simp add: new_controller_def)
  show ?thesis
    using assms
    unfolding pool_Spawn_def Let_def
    by (auto simp: set_ctl_Get n split: option.splits if_splits sum.splits prod.splits dest!: spawn_failed_Get ctl_Sync_cID)
qed

lemma pool_Spawn_id: "pool_Spawn env binary extra st = (Inr i, st') \<Longrightarrow> i = gUuid env (spawned st)"
  unfolding pool_Spawn_def Let_def spawn_failed_def
  by (auto split: option.splits if_splits sum.splits prod.splits)

lemma spawn_more_Get:
  assumes "\<And>n. k \<noteq> gUuid env n" and "pool_ok st"
  shows "pool_Get k (spawn_more env binary n st) = pool_Get k st"
  using assms(2)
proof (induction n arbitrary: st)
  case (Suc n)
  obtain r st' where sp: "pool_Spawn env binary [] st = (r, st')" by (metis surj_pair)
  have ok: "pool_ok st'" by (rule pool_Spawn_ok [OF sp Suc.prems])
  have g: "pool_Get k st' = pool_Get k st" by (rule pool_Spawn_Get [OF sp assms(1)])
  have "pool_Get k (set_ctl (c\<lparr>Booked := False\<rparr>) st') = pool_Get k st" if "r = Inr i" "pool_Get i st' = Some c" for i c
    using g Get_cID [OF ok that(2)] pool_Spawn_id [of env binary "[]" st i st'] sp that(1) assms(1) by (auto simp: set_ctl_Get)
  then show ?case using Suc.IH sp ok g by (auto simp: set_ctl_ok split: sum.split option.split)
qed simp

lemma distinct_filter_disjoint:
  "distinct (map f xs) \<Longrightarrow> x \<in> set xs \<Longrightarrow> \<not> P x \<Longrightarrow> f x \<notin> f ` set (filter P xs)"
  by (auto simp: distinct_map inj_on_def)

lemma sync_entry_booked:
  assumes "pool_ok st" and "pool_Get k st = Some c" and "Booked c"
  shows "pool_Get k (sync_entry env name st) = Some c"
proof -
  have "cID c' = i" if "ctl_Sync env False x = (e, c')" "pool_Get i st = Some x" for i x e c'
    using ctl_Sync_cID [OF that(1)] Get_cID [OF assms(1) that(2)] by simp
  moreover have "cID c' = i" if "ctl_Sync env False ((new_controller i)\<lparr>Address := a, cUID := u, cGID := g\<rparr>) = (e, c')" for i a u g e c'
    using ctl_Sync_cID [OF that] by (simp add: new_controller_def)
  ultimately show ?thesis
    using assms(2,3) by (auto simp: sync_entry_def set_ctl_Get split: option.split sum.split prod.split)
qed

lemma pool_Sync_booked:
  assumes "pool_Sync env st = (e, st')" and "pool_ok st" and "pool_Get k st = Some c" and "Booked c"
  shows "pool_Get k st' = Some c"
proof -
  have "pool_Get k (fold (sync_entry env) names st) = Some c" for names
    using assms(2,3) by (induction names arbitrary: st) (simp_all add: sync_entry_ok sync_entry_booked [OF _ _ assms(4)])
  then show ?thesis using assms by (auto simp: pool_Sync_def split: sum.splits)
qed

lemma pm_Sync_keeps:
  assumes ok: "pool_ok (gst m)" and sync: "pool_Sync env (gst m) = (None, st)" and ret: "pm_Sync env binary m = Some (e, m')"
    and g: "pool_Get k st = Some c" and busy: "Booked c \<or> fst (ctl_Status env c) = CONTROLLER_BUSY"
    and fresh: "\<And>n. gUuid env n \<noteq> k"
  shows "pool_Get k (gst m') = Some c"
proof -
  have okst: "pool_ok st" by (rule pool_Sync_ok [OF sync ok])
  have k: "cID c = k" by (rule Get_cID [OF okst g])
  have c: "c \<in> set (controllers st)" using g by (force simp: pool_Get_def dest: map_of_SomeD)
  note d = pool_ok_distinct [OF okst]
  let ?fr = "filter (is_free env) (controllers st)"
  let ?sl = "map (\<lambda>c. (c, snd (ctl_Status env c))) (filter (is_stale env) (controllers st))"
  have "\<not> is_free env c" "\<not> is_stale env c" using busy by (auto simp: is_free_def is_stale_def)
  then have nf: "k \<notin> cID ` set ?fr" and ns: "k \<notin> cID ` fst ` set ?sl"
    using distinct_filter_disjoint [OF d c, of "is_free env"] distinct_filter_disjoint [OF d c, of "is_stale env"] k
    by (simp_all add: image_image)
  have nd: "k \<notin> cID ` set (drop n ?fr)" for n using nf set_drop_subset by fastforce
  have cl: "pool_Get k st1 = Some c" "pool_ok st1" if "clear_stale env ?sl st = Some st1" for st1
    using clear_stale_Get [OF that ns] g clear_stale_ok [OF that okst] by auto
  show ?thesis
    using ret sync g cl spawn_more_Get [of k env] fresh reduce_Get [OF _ nd]
    by (fastforce simp: pm_Sync_def pool_List_filter Let_def split: option.splits if_splits)
qed

text \<open>
  C23: a synchronisation leaves controllers in use alone. If a synchronisation of the pool manager returns, then
  a controller that this daemon had booked before it is in the pool as it was; and a controller that, after the refresh from the sockets, runs,
  has an attached process that runs and has failed fewer than the allowed number of refreshes in a row is in the pool as the refresh left it,
  whatever the synchronisation spawned, cleared or reduced. The IDs of new controllers are assumed to be new.
\<close>

theorem pm_Sync_keeps_busy:
  assumes ok: "pool_ok (gst m)" and sync: "pool_Sync env (gst m) = (None, st)" and ret: "pm_Sync env binary m = Some (e, m')"
    and fresh: "\<forall>n. gUuid env n \<noteq> k"
  shows "(\<forall>c. pool_Get k (gst m) = Some c \<and> Booked c \<longrightarrow> pool_Get k (gst m') = Some c)
    \<and> (\<forall>c. pool_Get k st = Some c \<and> syncFails c < MAX_SYNC_FAILURES \<and> PidRunning (gProcs env) (ctlPID c)
         \<and> AttachedPID c \<noteq> 0 \<and> PidRunning (gProcs env) (AttachedPID c) \<longrightarrow> pool_Get k (gst m') = Some c)"
proof (intro conjI allI impI)
  fix c assume c: "pool_Get k (gst m) = Some c \<and> Booked c"
  then have "pool_Get k st = Some c" using pool_Sync_booked [OF sync ok] by blast
  then show "pool_Get k (gst m') = Some c" using pm_Sync_keeps [OF ok sync ret] c fresh by blast
next
  fix c assume c: "pool_Get k st = Some c \<and> syncFails c < MAX_SYNC_FAILURES \<and> PidRunning (gProcs env) (ctlPID c)
      \<and> AttachedPID c \<noteq> 0 \<and> PidRunning (gProcs env) (AttachedPID c)"
  then have "fst (ctl_Status env c) = CONTROLLER_BUSY" by (simp add: ctl_Status_def)
  then show "pool_Get k (gst m') = Some c" using pm_Sync_keeps [OF ok sync ret] c fresh by blast
qed

section \<open>The target size\<close>

text \<open>A machine on which everything the pool asks for works: locks are free, and a started controller is running and compatible.\<close>

definition healthy :: "gpu_env \<Rightarrow> bool" where
  "healthy env \<longleftrightarrow> (\<forall>i. gTryLock env i False) \<and> gMkdir env = None \<and> gChmod env = None \<and> gChown env = None
     \<and> (\<forall>i. gDial env i = None) \<and> (\<forall>i. \<exists>pid. gStart env i = Inr pid)
     \<and> (\<forall>i. \<exists>r. gInfo env i = Inr r \<and> iAttachedPID r = 0 \<and> iShmSize r = gShmSize env \<and> PidRunning (gProcs env) (iPID r))"

abbreviation free_list :: "gpu_env \<Rightarrow> gpu_state \<Rightarrow> controller list" where
  "free_list env st \<equiv> filter (is_free env) (controllers st)"

lemma delete_controllers:
  assumes "pool_ok st"
  shows "map snd (AList.delete k (ctrls st)) = filter (\<lambda>c. cID c \<noteq> k) (controllers st)"
proof -
  have "list_all (\<lambda>(k, c). cID c = k) al \<Longrightarrow> map snd (AList.delete k al) = filter (\<lambda>c. cID c \<noteq> k) (map snd al)" for al
    by (induction al) auto
  then show ?thesis using assms unfolding pool_ok_def by blast
qed

lemma filter_swap: "filter P (filter Q xs) = filter Q (filter P xs)"
  by (induction xs) simp_all

lemma filter_ids:
  "filter (\<lambda>x. f x \<notin> A) (filter (\<lambda>x. f x \<noteq> b) xs) = filter (\<lambda>x. f x \<notin> insert b A) xs"
  by (induction xs) auto

lemma Terminate_booked:
  assumes ok: "pool_ok st" and t: "pool_Terminate (cID c) (set_ctl (c\<lparr>Booked := True\<rparr>) st) = Some st'"
  shows "free_list env st' = filter (\<lambda>x. cID x \<noteq> cID c) (free_list env st)"
proof -
  let ?c = "c\<lparr>Booked := True\<rparr>"
  have "pool_Get (cID c) (set_ctl ?c st) = Some ?c" by (simp add: set_ctl_Get)
  then have "ctrls st' = AList.delete (cID c) (ctrls (set_ctl ?c st))"
    using t by (auto simp: pool_Terminate_def split: if_splits)
  then have "controllers st' = filter (\<lambda>x. cID x \<noteq> cID c) (controllers st)"
    using delete_controllers [OF ok] by (simp add: set_ctl_def delete_update_same)
  then show ?thesis using filter_swap by metis
qed

lemma clear_stale_free:
  assumes "healthy env"
  shows "clear_stale env cs st = Some st' \<Longrightarrow> pool_ok st \<Longrightarrow> list_all (\<lambda>(c, r). \<not> Booked c) cs
    \<Longrightarrow> free_list env st' = filter (\<lambda>x. cID x \<notin> cID ` fst ` set cs) (free_list env st)"
proof (induction cs arbitrary: st)
  case (Cons p cs)
  obtain c r where p: "p = (c, r)" by (cases p)
  have "gTryLock env (cID c) False" using assms by (simp add: healthy_def)
  then obtain st1 where t: "pool_Terminate (cID c) (set_ctl (c\<lparr>Booked := True\<rparr>) st) = Some st1" "clear_stale env cs st1 = Some st'"
    using Cons.prems p by (auto split: bind_splits)
  have "pool_ok st1" by (rule Terminate_ok [OF t(1) set_ctl_ok [OF Cons.prems(2)]])
  then have "free_list env st' = filter (\<lambda>x. cID x \<notin> cID ` fst ` set cs) (free_list env st1)"
    by (rule Cons.IH [OF t(2)]) (use Cons.prems(3) in simp)
  also have "\<dots> = filter (\<lambda>x. cID x \<notin> cID ` fst ` set (p # cs)) (free_list env st)"
    unfolding Terminate_booked [OF Cons.prems(2) t(1)] filter_ids by (simp add: p)
  finally show ?case .
qed simp

lemma reduce_free:
  assumes "healthy env"
  shows "reduce env cs st = Some st' \<Longrightarrow> pool_ok st \<Longrightarrow> list_all (is_free env) cs
    \<Longrightarrow> free_list env st' = filter (\<lambda>x. cID x \<notin> cID ` set cs) (free_list env st)"
proof (induction cs arbitrary: st)
  case (Cons c cs)
  have "gTryLock env (cID c) False" using assms by (simp add: healthy_def)
  moreover have "is_free env c" using Cons.prems(3) by simp
  ultimately have b: "ctl_Book env c = (True, c\<lparr>Booked := True\<rparr>)"
    by (simp add: ctl_Book_def is_free_def)
  then have "Option.bind (pool_Terminate (cID c) (set_ctl (c\<lparr>Booked := True\<rparr>) st)) (reduce env cs) = Some st'"
    using Cons.prems(1) by simp
  then obtain st1 where t: "pool_Terminate (cID c) (set_ctl (c\<lparr>Booked := True\<rparr>) st) = Some st1" "reduce env cs st1 = Some st'"
    by (auto simp: bind_eq_Some_conv)
  have "pool_ok st1" by (rule Terminate_ok [OF t(1) set_ctl_ok [OF Cons.prems(2)]])
  then have "free_list env st' = filter (\<lambda>x. cID x \<notin> cID ` set cs) (free_list env st1)"
    by (rule Cons.IH [OF t(2)]) (use Cons.prems(3) in simp)
  also have "\<dots> = filter (\<lambda>x. cID x \<notin> cID ` set (c # cs)) (free_list env st)"
    unfolding Terminate_booked [OF Cons.prems(2) t(1)] filter_ids by simp
  finally show ?case .
qed simp

lemma update_fresh: "map_of al k = None \<Longrightarrow> AList.update k v al = al @ [(k, v)]"
  by (induction al) (auto split: if_splits)

lemma update_last: "map_of al k = None \<Longrightarrow> AList.update k v (al @ [(k, w)]) = al @ [(k, v)]"
  by (induction al) (auto split: if_splits)

lemma healthy_info:
  assumes "healthy env"
  obtains r where "gInfo env i = Inr r" "iAttachedPID r = 0" "iShmSize r = gShmSize env" "PidRunning (gProcs env) (iPID r)"
  using assms unfolding healthy_def by blast

lemma spawn_healthy:
  assumes h: "healthy env" and f: "pool_Get (gUuid env (spawned st)) st = None"
  shows "\<exists>c st'. pool_Spawn env binary extra st = (Inr (gUuid env (spawned st)), st') \<and> cID c = gUuid env (spawned st)
    \<and> ctrls st' = ctrls st @ [(cID c, c)] \<and> is_free env (c\<lparr>Booked := False\<rparr>) \<and> spawned st' = Suc (spawned st)"
proof -
  let ?i = "gUuid env (spawned st)"
  obtain r where r: "gInfo env ?i = Inr r" "iAttachedPID r = 0" "iShmSize r = gShmSize env" "PidRunning (gProcs env) (iPID r)"
    by (rule healthy_info [OF h])
  obtain pid where pid: "gStart env ?i = Inr pid" using h unfolding healthy_def by blast
  have e: "fst (EnsureLogDir env ?i) = None" "gTryLock env ?i False" "gDial env a = None" for a
    using h by (simp_all add: healthy_def EnsureLogDir_def Let_def)
  let ?c = "(new_controller ?i)\<lparr>Address := sock_address env ?i, cUID := gUid env, cGID := gGid env, Booked := True\<rparr>"
  let ?c' = "?c\<lparr>ctlPID := iPID r, ParentPID := gSelf env, ClientConn := True, AttachedPID := 0, ShmSize := iShmSize r,
      ShmName := iShmName r, Version := iVersion r\<rparr>"
  have s: "ctl_Sync env True (?c\<lparr>ctlPID := pid, ParentPID := gSelf env\<rparr>) = (None, ?c')"
    using r e(3) by (simp add: ctl_Sync_def WaitForInfo_def new_controller_def sock_address_def Let_def)
  have fresh: "map_of (ctrls st) ?i = None" using f by (simp add: pool_Get_def)
  have free: "is_free env (?c'\<lparr>Booked := False\<rparr>)"
    using r by (simp add: is_free_def ctl_Status_def new_controller_def MAX_SYNC_FAILURES_def)
  have i: "cID ?c = ?i" "cID ?c' = ?i" by (simp_all add: new_controller_def)
  have u: "ctrls (set_ctl ?c' ((set_ctl ?c (st\<lparr>spawned := Suc (spawned st)\<rparr>))\<lparr>starts := x\<rparr>)) = ctrls st @ [(?i, ?c')]" for x
    unfolding set_ctl_def i by (simp add: update_fresh [OF fresh] update_last [OF fresh])
  have "\<exists>x. pool_Spawn env binary extra st =
      (Inr ?i, set_ctl ?c' ((set_ctl ?c (st\<lparr>spawned := Suc (spawned st)\<rparr>))\<lparr>starts := x\<rparr>))"
    unfolding pool_Spawn_def Let_def using e(1,2) pid s by auto
  then obtain x where x: "pool_Spawn env binary extra st =
      (Inr ?i, set_ctl ?c' ((set_ctl ?c (st\<lparr>spawned := Suc (spawned st)\<rparr>))\<lparr>starts := x\<rparr>))" by blast
  have "spawned (set_ctl ?c' ((set_ctl ?c (st\<lparr>spawned := Suc (spawned st)\<rparr>))\<lparr>starts := x\<rparr>)) = Suc (spawned st)"
    by (simp add: set_ctl_def)
  then show ?thesis using x u free i(2) by metis
qed

lemma spawn_more_free:
  assumes h: "healthy env" and inj: "inj (gUuid env)"
  shows "(\<And>n. spawned st \<le> n \<Longrightarrow> pool_Get (gUuid env n) st = None) \<Longrightarrow>
    length (free_list env (spawn_more env binary k st)) = length (free_list env st) + k"
proof (induction k arbitrary: st)
  case (Suc k)
  let ?i = "gUuid env (spawned st)"
  have f: "pool_Get ?i st = None" using Suc.prems by simp
  obtain c st' where sp: "pool_Spawn env binary [] st = (Inr ?i, st')" and i: "cID c = ?i"
      and cs: "ctrls st' = ctrls st @ [(cID c, c)]" and fr: "is_free env (c\<lparr>Booked := False\<rparr>)" and n: "spawned st' = Suc (spawned st)"
    using spawn_healthy [OF h f, of binary "[]"] by blast
  have fresh: "map_of (ctrls st) ?i = None" using f by (simp add: pool_Get_def)
  have g: "pool_Get ?i st' = Some c" using cs i fresh by (simp add: pool_Get_def map_add_def)
  let ?st = "set_ctl (c\<lparr>Booked := False\<rparr>) st'"
  have cs': "ctrls ?st = ctrls st @ [(?i, c\<lparr>Booked := False\<rparr>)]"
    using cs i update_last [OF fresh] by (simp add: set_ctl_def)
  have "length (free_list env (spawn_more env binary k ?st)) = length (free_list env ?st) + k"
  proof (rule Suc.IH)
    fix m assume "spawned ?st \<le> m"
    then have m: "spawned st < m" using n by (simp add: set_ctl_def)
    then have "gUuid env m \<noteq> ?i" using inj by (metis injD less_irrefl)
    then show "pool_Get (gUuid env m) ?st = None" using Suc.prems [of m] m cs' by (simp add: pool_Get_def map_add_def)
  qed
  then show ?case using sp g cs' fr by simp
qed simp

lemma free_after_clear:
  assumes h: "healthy env" and ok: "pool_ok st"
    and cl: "clear_stale env (map (\<lambda>c. (c, snd (ctl_Status env c))) (filter (is_stale env) (controllers st))) st = Some st1"
  shows "free_list env st1 = free_list env st"
proof -
  let ?sl = "filter (is_stale env) (controllers st)"
  have "free_list env st1 = filter (\<lambda>x. cID x \<notin> cID ` set ?sl) (free_list env st)"
    using clear_stale_free [OF h cl ok] by (simp add: list_all_iff is_stale_def image_image)
  also have "\<dots> = free_list env st"
  proof (rule filter_True, rule ballI)
    fix x assume x: "x \<in> set (free_list env st)"
    then have "x \<in> set (controllers st)" "\<not> is_stale env x" by (auto simp: is_free_def is_stale_def)
    then show "cID x \<notin> cID ` set ?sl" by (rule distinct_filter_disjoint [OF pool_ok_distinct [OF ok]])
  qed
  finally show ?thesis .
qed

lemma filter_drop_ids:
  assumes "distinct (map f xs)"
  shows "filter (\<lambda>x. f x \<notin> f ` set (drop n xs)) xs = take n xs"
proof -
  have "distinct (map f (take n xs) @ map f (drop n xs))" using assms by (simp flip: map_append)
  then have "\<forall>x\<in>set (take n xs). f x \<notin> f ` set (drop n xs)" by auto
  then have "filter (\<lambda>x. f x \<notin> f ` set (drop n xs)) (take n xs) = take n xs" by simp
  moreover have "filter (\<lambda>x. f x \<notin> f ` set (drop n xs)) (drop n xs) = []" by (simp add: filter_empty_conv)
  ultimately show ?thesis by (metis append_take_drop_id filter_append append_Nil2)
qed

text \<open>
  C24: a synchronisation reaches the target. On a machine where locks are free and started controllers come up, the number of
  free controllers after the pool manager's synchronisation is the configured pool size, whether it had to spawn
  controllers, to terminate surplus ones or to do nothing.
\<close>

theorem pm_Sync_target:
  assumes h: "healthy env" and ok: "pool_ok (gst m)" and sync: "pool_Sync env (gst m) = (None, st)" and nd: "\<not> gDebug env"
    and ret: "pm_Sync env binary m = Some (e, m')" and inj: "inj (gUuid env)"
    and fresh: "\<And>n. pool_Get (gUuid env n) st = None"
  shows "length (fst (pool_List env (gst m'))) = poolSize m"
proof -
  have okst: "pool_ok st" by (rule pool_Sync_ok [OF sync ok])
  let ?fr = "free_list env st"
  let ?sl = "map (\<lambda>c. (c, snd (ctl_Status env c))) (filter (is_stale env) (controllers st))"
  obtain st1 where cl: "clear_stale env ?sl st = Some st1"
    using ret sync nd by (auto simp: pm_Sync_def pool_List_filter Let_def split: option.splits)
  have f1: "free_list env st1 = ?fr" by (rule free_after_clear [OF h okst cl])
  have ok1: "pool_ok st1" by (rule clear_stale_ok [OF cl okst])
  have g1: "pool_Get (gUuid env n) st1 = None" for n
  proof -
    have "gUuid env n \<notin> cID ` fst ` set ?sl"
    proof
      assume "gUuid env n \<in> cID ` fst ` set ?sl"
      then obtain c where "c \<in> set (filter (is_stale env) (controllers st))" "cID c = gUuid env n"
        unfolding image_image set_map by (metis (no_types, lifting) fst_conv image_iff)
      then have "c \<in> set (controllers st)" "cID c = gUuid env n" by auto
      then show False using pool_ok_Get [OF okst] fresh [of n] by fastforce
    qed
    then show ?thesis using clear_stale_Get [OF cl] fresh [of n] by simp
  qed
  have pm: "pm_Sync env binary m = (let m1 = m\<lparr>free := length ?fr,
      busy := length (filter (\<lambda>c. \<not> is_free env c \<and> \<not> is_stale env c) (controllers st)), stale := length ?sl, gst := st\<rparr> in
      if length ?fr < poolSize m then Some (None, m1\<lparr>gst := spawn_more env binary (poolSize m - length ?fr) st1\<rparr>)
      else if poolSize m < length ?fr then map_option (\<lambda>st2. (None, m1\<lparr>gst := st2\<rparr>)) (reduce env (drop (poolSize m) ?fr) st1)
      else Some (None, m1\<lparr>gst := st1\<rparr>))"
    using sync nd cl by (simp add: pm_Sync_def pool_List_filter Let_def)
  consider "length ?fr < poolSize m" "gst m' = spawn_more env binary (poolSize m - length ?fr) st1"
    | "length ?fr = poolSize m" "gst m' = st1"
    | st2 where "poolSize m < length ?fr" "reduce env (drop (poolSize m) ?fr) st1 = Some st2" "gst m' = st2"
    using ret unfolding pm Let_def by (auto split: if_splits)
  then show ?thesis
  proof cases
    case 1
    then show ?thesis using spawn_more_free [OF h inj g1, of binary "poolSize m - length ?fr"] f1 by (simp add: pool_List_filter)
  next
    case 2
    then show ?thesis using f1 by (simp add: pool_List_filter)
  next
    case 3
    have "list_all (is_free env) (drop (poolSize m) ?fr)" by (auto simp: list_all_iff dest: in_set_dropD)
    from reduce_free [OF h 3(2) ok1 this]
    have "free_list env st2 = filter (\<lambda>x. cID x \<notin> cID ` set (drop (poolSize m) ?fr)) ?fr" unfolding f1 .
    also have "\<dots> = take (poolSize m) ?fr"
      by (rule filter_drop_ids) (rule distinct_map_filter [OF pool_ok_distinct [OF okst]])
    finally show ?thesis using 3 by (simp add: pool_List_filter)
  qed
qed

section \<open>Witnesses\<close>

text \<open>
  A machine on which everything works, with one free controller and one that serves process 7. The IDs of new controllers
  are \<open>u\<close>, \<open>uu\<close> and so on.
\<close>

definition gpu_machine :: gpu_env where
  "gpu_machine = \<lparr>gProcs = two_procs False, gSockDir = ''/tmp'', gReadDir = Inr [], gStatSock = (\<lambda>_. Inr (0, 0)), gDial = (\<lambda>_. None),
     gShutdown = (\<lambda>_. False), gInfo = (\<lambda>_. Inr \<lparr>iAttachedPID = 0, iShmSize = 8, iShmName = ''s'', iVersion = ''1'', iPID = 1\<rparr>),
     gStderr = (\<lambda>_. []), gTryLock = (\<lambda>_ _. True), gUid = 0, gGid = 0, gSelf = 3, gShmSize = 8, gDebug = False, gLogDir = [],
     gMkdir = None, gChmod = None, gChown = None, gOsEnv = [], gConfigEnv = [], gUuid = (\<lambda>n. replicate (Suc n) (CHR ''u'')),
     gStart = (\<lambda>_. Inr 1), gAttach = (\<lambda>_ _. None), gHealth = (\<lambda>_. (None, None)), gFreeze = (\<lambda>_. None), gUnfreeze = (\<lambda>_. None),
     gDump = (\<lambda>_ _ _ _. None), gRestore = (\<lambda>_ _ _. None)\<rparr>"

definition free_ctl :: controller where
  "free_ctl = (new_controller ''f'')\<lparr>ctlPID := 1, ShmSize := 8\<rparr>"

definition busy_ctl :: controller where
  "busy_ctl = (new_controller ''b'')\<lparr>ctlPID := 1, ShmSize := 8, AttachedPID := 7\<rparr>"

definition small_pool :: gpu_state where
  "small_pool = \<lparr>ctrls = [(''f'', free_ctl), (''b'', busy_ctl)], spawned = 0, starts = [], killed = [], cleaned = []\<rparr>"

definition small_mgr :: "nat \<Rightarrow> pool_mgr" where
  "small_mgr n = \<lparr>poolSize = n, free = 0, busy = 0, stale = 0, gst = small_pool\<rparr>"

lemma two_running [simp]: "PidRunning (two_procs bad) p"
  by (simp add: PidRunning_def two_procs_def)

lemma machine_procs [simp]: "gProcs gpu_machine = two_procs False"
  by (simp add: gpu_machine_def)

lemma machine_status [simp]:
  "fst (ctl_Status gpu_machine free_ctl) = CONTROLLER_FREE" "fst (ctl_Status gpu_machine busy_ctl) = CONTROLLER_BUSY"
  by (simp_all add: ctl_Status_def free_ctl_def busy_ctl_def new_controller_def MAX_SYNC_FAILURES_def gpu_machine_def)

lemma small_classes [simp]:
  "is_free gpu_machine free_ctl" "\<not> is_free gpu_machine busy_ctl" "\<not> is_stale gpu_machine free_ctl" "\<not> is_stale gpu_machine busy_ctl"
  by (simp_all add: is_free_def is_stale_def) (simp add: free_ctl_def new_controller_def)

lemma small_sync: "pool_Sync gpu_machine small_pool = (None, small_pool)"
  by (simp add: pool_Sync_def gpu_machine_def)

lemma small_ok: "pool_ok small_pool"
  by (simp add: pool_ok_def small_pool_def free_ctl_def busy_ctl_def new_controller_def)

lemma machine_healthy: "healthy gpu_machine"
  by (simp add: healthy_def gpu_machine_def)

lemma small_free: "free_list gpu_machine small_pool = [free_ctl]" "filter (is_stale gpu_machine) (controllers small_pool) = []"
  by (simp_all add: small_pool_def)

lemma machine_debug: "\<not> gDebug gpu_machine"
  by (simp add: gpu_machine_def)

lemma small_returns: "\<exists>m'. pm_Sync gpu_machine binary (small_mgr (Suc n)) = Some (None, m')"
  using small_sync machine_debug by (simp add: pm_Sync_def small_mgr_def pool_List_filter small_free Let_def)

theorem pm_Sync_keeps_busy_witness:
  "\<exists>m'. pm_Sync gpu_machine ''gpu'' (small_mgr 2) = Some (None, m') \<and> pool_Get ''b'' (gst m') = Some busy_ctl"
proof -
  obtain m' where r: "pm_Sync gpu_machine ''gpu'' (small_mgr 2) = Some (None, m')"
    using small_returns [of "''gpu''" 1] by (auto simp: numeral_2_eq_2)
  have u: "\<forall>n. gUuid gpu_machine n \<noteq> ''b''" by (simp add: gpu_machine_def)
  have "pool_Get ''b'' small_pool = Some busy_ctl" by (simp add: pool_Get_def small_pool_def)
  then show ?thesis
    using pm_Sync_keeps_busy [OF _ _ r u, of small_pool] small_ok small_sync r
    by (simp add: small_mgr_def) (simp add: busy_ctl_def new_controller_def MAX_SYNC_FAILURES_def)
qed

theorem pm_Sync_target_witness:
  "\<exists>m'. pm_Sync gpu_machine ''gpu'' (small_mgr 2) = Some (None, m') \<and> length (fst (pool_List gpu_machine (gst m'))) = 2"
proof -
  obtain m' where r: "pm_Sync gpu_machine ''gpu'' (small_mgr 2) = Some (None, m')"
    using small_returns [of "''gpu''" 1] by (auto simp: numeral_2_eq_2)
  have u: "gUuid gpu_machine n = replicate (Suc n) (CHR ''u'')" for n by (simp add: gpu_machine_def)
  have inj: "inj (gUuid gpu_machine)" unfolding u inj_def by (metis length_replicate Suc_inject)
  have fresh: "pool_Get (gUuid gpu_machine n) small_pool = None" for n by (simp add: u pool_Get_def small_pool_def)
  show ?thesis
    using pm_Sync_target [OF machine_healthy _ _ machine_debug r inj, of small_pool] fresh small_ok small_sync r by (simp add: small_mgr_def)
qed

end
