(* ===== verification/Gpu_Booking.thy ===== *)
theory Gpu_Booking
  imports Gpu_Pool_Props
begin

text \<open>
  Booking, attaching and detaching GPU controllers: what two callers that race for a controller get, and what the
  attachment of a PID means for the jobs that have none.
\<close>

section \<open>Booking\<close>

lemma update_same: "map_of al k = Some v \<Longrightarrow> AList.update k v al = al"
  by (induction al) (auto split: if_splits)

lemma set_ctl_same: "pool_Get (cID c) st = Some c \<Longrightarrow> set_ctl c st = st"
  by (simp add: set_ctl_def pool_Get_def update_same)

text \<open>What a booking does when every candidate is still there and free, but some (\<open>B\<close>) are held by this daemon.\<close>

lemma book_loop_find:
  assumes "list_all (\<lambda>c. pool_Get (cID c) st = Some (c\<lparr>Booked := B (cID c)\<rparr>) \<and> fst (ctl_Status env c) = CONTROLLER_FREE) cs"
  shows "book_loop env cs st = (case List.find (\<lambda>c. gTryLock env (cID c) (B (cID c))) cs of
      None \<Rightarrow> (None, st) | Some c \<Rightarrow> (Some (cID c), set_ctl (c\<lparr>Booked := True\<rparr>) st))"
  using assms
proof (induction cs)
  case (Cons c cs)
  let ?c = "c\<lparr>Booked := B (cID c)\<rparr>"
  have g: "pool_Get (cID c) st = Some ?c" and f: "fst (ctl_Status env c) = CONTROLLER_FREE" using Cons.prems by auto
  have "set_ctl ?c st = st" by (rule set_ctl_same) (simp add: g)
  then show ?case using Cons g f by (simp add: ctl_Book_def)
qed simp

lemma find_same:
  assumes "List.find P xs = Some x" and "Q x" and "\<And>y. y \<in> set xs \<Longrightarrow> y \<noteq> x \<Longrightarrow> Q y = P y"
  shows "List.find Q xs = Some x"
  using assms
proof (induction xs)
  case (Cons y xs)
  show ?case
  proof (cases "y = x")
    case True
    then show ?thesis using Cons.prems(2) by simp
  next
    case False
    then have "\<not> P y" using Cons.prems(1) by (auto split: if_splits)
    then show ?thesis using Cons False by simp
  qed
qed simp

text \<open>
  C25: who gets a free controller. Two callers that listed the free controllers before either booked one: if the file
  lock lets the same daemon take it again, both get the same controller; if it does not, they get different ones.
\<close>

theorem pool_Book_race:
  assumes ok: "pool_ok st" and lst: "pool_List env st = (fr, bs, sl)" and one: "book_loop env fr st = (Some i, st')"
  shows "(gTryLock env i True \<longrightarrow> fst (book_loop env fr st') = Some i)
    \<and> (\<not> gTryLock env i True \<longrightarrow> fst (book_loop env fr st') \<noteq> Some i)"
proof -
  have fr: "fr = filter (is_free env) (controllers st)" using lst by (simp add: pool_List_filter)
  have mem: "pool_Get (cID c) st = Some c \<and> \<not> Booked c \<and> fst (ctl_Status env c) = CONTROLLER_FREE" if "c \<in> set fr" for c
    using that pool_ok_Get [OF ok] unfolding fr by (auto simp: is_free_def)
  have inj: "c = d" if "c \<in> set fr" "d \<in> set fr" "cID c = cID d" for c d
    using mem [OF that(1)] mem [OF that(2)] that(3) by (metis option.inject)
  have "pool_Get (cID c) st = Some (c\<lparr>Booked := False\<rparr>) \<and> fst (ctl_Status env c) = CONTROLLER_FREE" if "c \<in> set fr" for c
    using mem [OF that] by simp
  then have "book_loop env fr st = (case List.find (\<lambda>c. gTryLock env (cID c) False) fr of
      None \<Rightarrow> (None, st) | Some c \<Rightarrow> (Some (cID c), set_ctl (c\<lparr>Booked := True\<rparr>) st))"
    by (intro book_loop_find [where B = "\<lambda>_. False"]) (simp add: list_all_iff)
  then obtain c where c: "List.find (\<lambda>c. gTryLock env (cID c) False) fr = Some c" "i = cID c" "st' = set_ctl (c\<lparr>Booked := True\<rparr>) st"
    using one by (auto split: option.splits)
  have cin: "c \<in> set fr" using c(1) by (metis find_Some_iff nth_mem)
  have "pool_Get (cID x) st' = Some (x\<lparr>Booked := (cID x = i)\<rparr>) \<and> fst (ctl_Status env x) = CONTROLLER_FREE" if x: "x \<in> set fr" for x
  proof (cases "cID x = i")
    case True
    then have "x = c" using inj [OF x cin] c(2) by simp
    then show ?thesis using mem [OF x] c(2,3) by (simp add: set_ctl_Get)
  next
    case False
    then show ?thesis using mem [OF x] c(2,3) by (simp add: set_ctl_Get)
  qed
  then have two: "book_loop env fr st' = (case List.find (\<lambda>c. gTryLock env (cID c) (cID c = i)) fr of
      None \<Rightarrow> (None, st') | Some c \<Rightarrow> (Some (cID c), set_ctl (c\<lparr>Booked := True\<rparr>) st'))"
    by (intro book_loop_find [where B = "\<lambda>k. k = i"]) (simp add: list_all_iff)
  show ?thesis
  proof (intro conjI impI)
    assume "gTryLock env i True"
    then have "List.find (\<lambda>x. gTryLock env (cID x) (cID x = i)) fr = Some c"
    proof (intro find_same [OF c(1)])
      fix y assume y: "y \<in> set fr" "y \<noteq> c"
      then have "cID y \<noteq> i" using inj [OF y(1) cin] c(2) by blast
      then show "gTryLock env (cID y) (cID y = i) = gTryLock env (cID y) False" by simp
    qed (simp add: c(2))
    then show "fst (book_loop env fr st') = Some i" using two c(2) by simp
  next
    assume n: "\<not> gTryLock env i True"
    show "fst (book_loop env fr st') \<noteq> Some i"
      using two n by (auto split: option.splits simp: find_Some_iff)
  qed
qed

text \<open>The lock of a controller here is the one of the library, which a process that holds it can take again.\<close>

theorem pool_Book_race_witness:
  "\<exists>fr bs sl st'. pool_List gpu_machine small_pool = (fr, bs, sl) \<and> book_loop gpu_machine fr small_pool = (Some ''f'', st')
    \<and> fst (book_loop gpu_machine fr st') = Some ''f''"
proof -
  have l: "pool_List gpu_machine small_pool = ([free_ctl], [busy_ctl], [])" by (simp add: pool_List_filter small_pool_def)
  have f: "cID free_ctl = ''f''" "\<not> Booked free_ctl" by (simp_all add: free_ctl_def new_controller_def)
  have t: "gTryLock gpu_machine i b" for i b by (simp add: gpu_machine_def)
  have "book_loop gpu_machine [free_ctl] small_pool = (Some ''f'', set_ctl (free_ctl\<lparr>Booked := True\<rparr>) small_pool)"
    using pool_ok_Get [OF small_ok, of free_ctl] f by (simp add: small_pool_def t ctl_Book_def)
  then show ?thesis using pool_Book_race [OF small_ok l] l t by auto
qed

end
