(* ===== verification/Config.thy ===== *)
theory Config
  imports Utils
begin

text \<open>
  \<^bold>\<open>pkg/config\<close> and the part of \<^bold>\<open>pkg/utils/reflect.go\<close> it uses: the configuration type, its leaves and
  their tags, the environment variables bound to them, the scan of the command line and the loading of the
  configuration. Reflection works on a description of Go types; the viper library is the record of
  answers of the calls the code makes.
\<close>

section \<open>Types and tags\<close>

datatype gotype = TStruct "(string \<times> (string \<times> string) list \<times> gotype) list" | TPtr gotype | TBasic

definition Tag_Get :: "(string \<times> string) list \<Rightarrow> string \<Rightarrow> string" where
  "Tag_Get tags k = (case map_of tags k of None \<Rightarrow> [] | Some v \<Rightarrow> v)"

definition elem_type :: "gotype \<Rightarrow> gotype" where
  "elem_type t = (case t of TPtr u \<Rightarrow> u | _ \<Rightarrow> t)"

definition field_label :: "string option \<Rightarrow> string \<Rightarrow> (string \<times> string) list \<Rightarrow> string" where
  "field_label tag name tags = (case tag of None \<Rightarrow> name | Some k \<Rightarrow> Tag_Get tags k)"

definition ListFields :: "string option \<Rightarrow> gotype \<Rightarrow> string list" where
  "ListFields tag t = (case elem_type t of
       TStruct fs \<Rightarrow> map (\<lambda>(name, tags, u). field_label tag name tags) fs
     | _ \<Rightarrow> [])"

fun leaves :: "string option \<Rightarrow> gotype \<Rightarrow> string list" where
  "leaves tag (TStruct fs) = concat (map (\<lambda>(name, tags, u).
       (case u of
          TStruct _ \<Rightarrow> map (\<lambda>sub. field_label tag name tags @ ''.'' @ sub) (leaves tag u)
        | _ \<Rightarrow> [field_label tag name tags])) fs)"
| "leaves tag (TPtr t) = []"
| "leaves tag TBasic = []"

definition ListLeaves :: "string option \<Rightarrow> gotype \<Rightarrow> string list" where
  "ListLeaves tag t = leaves tag (elem_type t)"

text \<open>\<open>FieldByName\<close> of a type that is not a struct panics; a missing field makes the whole result empty.\<close>

fun tag_loop :: "gotype \<Rightarrow> string list \<Rightarrow> string \<Rightarrow> string list \<Rightarrow> goerr + string option list" where
  "tag_loop t [] tag vals = Inr (map Some vals)"
| "tag_loop (TStruct fs) (f # rest) tag vals =
     (case map_of fs f of
        None \<Rightarrow> Inr [None]
      | Some (tags, u) \<Rightarrow> tag_loop u rest tag (if Tag_Get tags tag \<noteq> [] then vals @ [Tag_Get tags tag] else vals))"
| "tag_loop t (f # rest) tag vals = Inl (Panic ''reflect: FieldByName of non-struct type'')"

definition GetTag :: "gotype \<Rightarrow> string \<Rightarrow> string \<Rightarrow> goerr + string" where
  "GetTag t field tag =
     (case elem_type t of
        TStruct fs \<Rightarrow>
          (case tag_loop (TStruct fs) (split_on (CHR ''.'') field) tag [] of
             Inl e \<Rightarrow> Inl e
           | Inr vals \<Rightarrow> Inr (if None \<in> set vals then [] else join ''.'' (map the vals)))
      | _ \<Rightarrow> Inr [])"

section \<open>The configuration\<close>

text \<open>A field with its five tags; the first four repeat the key.\<close>

definition fld :: "string \<Rightarrow> string \<Rightarrow> string \<Rightarrow> gotype \<Rightarrow> string \<times> (string \<times> string) list \<times> gotype" where
  "fld name k aliases t = (name, [(''json'', k), (''key'', k), (''yaml'', k), (''mapstructure'', k)] @
     (if aliases = [] then [] else [(''env_aliases'', aliases)]), t)"

definition Slurm :: gotype where
  "Slurm = TStruct [fld ''Unprivileged'' ''unprivileged'' [] TBasic, fld ''DBHost'' ''db_host'' [] TBasic,
     fld ''DBSocket'' ''db_socket'' [] TBasic, fld ''DBPort'' ''db_port'' [] TBasic, fld ''DBName'' ''db_name'' [] TBasic]"

definition Connection :: gotype where
  "Connection = TStruct [fld ''URL'' ''url'' ''CEDANA_URL'' TBasic, fld ''AuthToken'' ''auth_token'' ''CEDANA_AUTH_TOKEN'' TBasic,
     fld ''ClusterID'' ''cluster_id'' ''CEDANA_CLUSTER_ID'' TBasic]"

definition Checkpoint :: gotype where
  "Checkpoint = TStruct [fld ''Dir'' ''dir'' [] TBasic, fld ''Compression'' ''compression'' [] TBasic,
     fld ''Streams'' ''streams'' [] TBasic, fld ''StreamMemoryLimit'' ''stream_memory_limit'' [] TBasic,
     fld ''Async'' ''async'' [] TBasic]"

definition DB :: gotype where
  "DB = TStruct [fld ''Remote'' ''remote'' ''CEDANA_REMOTE'' TBasic, fld ''Path'' ''path'' [] TBasic]"

definition Profiling :: gotype where
  "Profiling = TStruct [fld ''Enabled'' ''enabled'' [] TBasic, fld ''Detailed'' ''detailed'' [] TBasic,
     fld ''Precision'' ''precision'' [] TBasic, fld ''Path'' ''path'' [] TBasic]"

definition Client :: gotype where
  "Client = TStruct [fld ''WaitForReady'' ''wait_for_ready'' ''CEDANA_WAIT_FOR_READY'' TBasic]"

definition CRIU :: gotype where
  "CRIU = TStruct [fld ''BinaryPath'' ''binary_path'' [] TBasic, fld ''LeaveRunning'' ''leave_running'' [] TBasic,
     fld ''ManageCgroups'' ''manage_cgroups'' [] TBasic, fld ''LogLevel'' ''log_level'' [] TBasic]"

definition GPU :: gotype where
  "GPU = TStruct [fld ''PoolSize'' ''pool_size'' [] TBasic, fld ''LogDir'' ''log_dir'' [] TBasic, fld ''SockDir'' ''sock_dir'' [] TBasic,
     fld ''ShmSize'' ''shm_size'' [] TBasic, fld ''DedupEnabled'' ''dedup_enabled'' [] TBasic,
     fld ''TemplatesEnabled'' ''templates_enabled'' [] TBasic, fld ''Debug'' ''debug'' [] TBasic]"

definition Plugins :: gotype where
  "Plugins = TStruct [fld ''BinDir'' ''bin_dir'' [] TBasic, fld ''LibDir'' ''lib_dir'' ''CEDANA_PLUGINS_LIB_DIR'' TBasic,
     fld ''Builds'' ''builds'' ''CEDANA_PLUGINS_BUILD'' TBasic, fld ''LocalSearchPath'' ''local_search_path'' [] TBasic]"

definition AWS :: gotype where
  "AWS = TStruct [fld ''AccessKeyID'' ''access_key_id'' ''AWS_ACCESS_KEY_ID'' TBasic,
     fld ''SecretAccessKey'' ''secret_access_key'' ''AWS_SECRET_ACCESS_KEY'' TBasic,
     fld ''Region'' ''region'' ''AWS_REGION'' TBasic, fld ''Endpoint'' ''endpoint'' ''AWS_ENDPOINT'' TBasic]"

definition Config_type :: gotype where
  "Config_type = TStruct [fld ''Address'' ''address'' [] TBasic, fld ''Protocol'' ''protocol'' [] TBasic,
     fld ''LogLevel'' ''log_level'' [] TBasic, fld ''LogLevelNoServer'' ''log_level_no_server'' [] TBasic,
     fld ''Metrics'' ''metrics'' ''CEDANA_METRICS_ENABLED'' TBasic,
     fld ''Connection'' ''connection'' [] Connection, fld ''Checkpoint'' ''checkpoint'' [] Checkpoint,
     fld ''DB'' ''db'' [] DB, fld ''Profiling'' ''profiling'' [] Profiling, fld ''Client'' ''client'' [] Client,
     fld ''CRIU'' ''criu'' [] CRIU, fld ''GPU'' ''gpu'' [] GPU, fld ''Plugins'' ''plugins'' [] Plugins,
     fld ''Slurm'' ''slurm'' [] Slurm, fld ''AWS'' ''aws'' [] AWS]"

lemmas config_types = Config_type_def Connection_def Checkpoint_def DB_def Profiling_def Client_def CRIU_def GPU_def
  Plugins_def Slurm_def AWS_def

text \<open>The variable of a key, and all the names bound to a field: its key, its variable and its aliases.\<close>

definition to_upper :: "char \<Rightarrow> char" where
  "to_upper c = (if 97 \<le> (of_char c :: nat) \<and> (of_char c :: nat) \<le> 122 then char_of ((of_char c :: nat) - 32) else c)"

definition env_var :: "string \<Rightarrow> string" where
  "env_var tag = ''CEDANA'' @ ''_'' @ map to_upper (map (\<lambda>c. if c = CHR ''.'' then CHR ''_'' else c) tag)"

definition bound_names :: "gotype \<Rightarrow> string \<Rightarrow> goerr + string list" where
  "bound_names t field =
     (case GetTag t field ''json'' of Inl e \<Rightarrow> Inl e
      | Inr tag \<Rightarrow>
        (case GetTag t field ''env_aliases'' of Inl e \<Rightarrow> Inl e
         | Inr aliases \<Rightarrow> Inr ([tag, env_var tag] @ split_on (CHR '','') aliases)))"

definition bindEnvVars :: "gotype \<Rightarrow> (string \<times> (goerr + string list)) list" where
  "bindEnvVars t = map (\<lambda>f. (f, bound_names t f)) (ListLeaves None t)"

section \<open>The command line\<close>

record cfg_args =
  cfgConfig :: string
  cfgDir :: string
  cfgInit :: bool
  cfgMerge :: bool

definition cut_prefix :: "string \<Rightarrow> string \<Rightarrow> string option" where
  "cut_prefix s p = (if has_prefix s p then Some (drop (length p) s) else None)"

definition take_value :: "string \<Rightarrow> string \<Rightarrow> string list \<Rightarrow> string option" where
  "take_value flag arg rest =
     (if arg = ''--'' @ flag \<and> rest \<noteq> [] then Some (hd rest) else cut_prefix arg (''--'' @ flag))"

text \<open>One argument after the other; an argument that takes the next one as its value skips it.\<close>

fun scan_args :: "string list \<Rightarrow> cfg_args \<Rightarrow> cfg_args" where
  "scan_args [] a = a"
| "scan_args (arg # rest) a =
     (let a1 = (case take_value ''config'' arg rest of None \<Rightarrow> a | Some v \<Rightarrow> a\<lparr>cfgConfig := v\<rparr>);
          a2 = (case take_value ''config-dir'' arg rest of None \<Rightarrow> a1 | Some v \<Rightarrow> a1\<lparr>cfgDir := v\<rparr>);
          a3 = (if arg = ''--init-config'' then a2\<lparr>cfgInit := True\<rparr> else a2);
          a4 = (if arg = ''--merge-config'' then a3\<lparr>cfgMerge := True\<rparr> else a3)
      in if arg = ''--config'' \<or> arg = ''--config-dir'' then scan_args (tl rest) a4 else scan_args rest a4)"

text \<open>What the viper calls and the file system answer; \<open>readInConfig\<close> tells a missing file from an invalid one.\<close>

datatype read_result = ReadOk | ConfigFileNotFound | Invalid goerr

record viper =
  readInConfig :: "string \<Rightarrow> read_result"
  mergeConfig :: "string \<Rightarrow> error"
  unmarshalExact :: error
  dirMissing :: "string \<Rightarrow> bool"
  mkdirAll :: "string \<Rightarrow> error"
  safeWriteConfig :: error
  writeConfig :: error

definition config_dir :: "string \<Rightarrow> string \<Rightarrow> string" where
  "config_dir userDir dir = (if dir = [] then userDir else dir)"

definition outdated :: "goerr \<Rightarrow> goerr" where
  "outdated e = Wrapf ''Config file is either outdated or invalid. Please delete or update it'' e"

definition read_step :: "viper \<Rightarrow> string \<Rightarrow> error" where
  "read_step v dir = (case readInConfig v dir of Invalid e \<Rightarrow> Some (outdated e) | _ \<Rightarrow> None)"

definition merge_step :: "viper \<Rightarrow> string \<Rightarrow> error" where
  "merge_step v c = (if c = [] then None else map_option (Wrapf ''Provided config string is invalid'') (mergeConfig v c))"

definition Load :: "viper \<Rightarrow> string \<Rightarrow> string \<Rightarrow> string \<Rightarrow> error" where
  "Load v userDir dir c =
     (case read_step v (config_dir userDir dir) of Some e \<Rightarrow> Some e | None \<Rightarrow>
      (case merge_step v c of Some e \<Rightarrow> Some e | None \<Rightarrow> map_option outdated (unmarshalExact v)))"

definition Init :: "viper \<Rightarrow> string \<Rightarrow> string \<Rightarrow> string \<Rightarrow> bool \<Rightarrow> error" where
  "Init v userDir dir c merge =
     (let d = config_dir userDir dir in
      case (if dirMissing v d then mkdirAll v d else None) of Some e \<Rightarrow> Some e | None \<Rightarrow>
      (case (if merge then read_step v d else None) of Some e \<Rightarrow> Some e | None \<Rightarrow>
       (case merge_step v c of Some e \<Rightarrow> Some e | None \<Rightarrow>
        (case (if safeWriteConfig v = None then None
               else map_option (Wrapf ''Failed to write config file'') (writeConfig v)) of
           Some e \<Rightarrow> Some e
         | None \<Rightarrow> map_option outdated (unmarshalExact v)))))"

text \<open>The package initialiser: the arguments, the directory from the environment, and a panic on error.\<close>

definition config_init :: "viper \<Rightarrow> string \<Rightarrow> string \<Rightarrow> string list \<Rightarrow> error" where
  "config_init v userDir envDir args =
     (let a = scan_args args \<lparr>cfgConfig = [], cfgDir = [], cfgInit = False, cfgMerge = False\<rparr>;
          dir = (if cfgDir a = [] then envDir else cfgDir a);
          err = (if cfgInit a \<or> cfgMerge a then Init v userDir dir (cfgConfig a) (cfgMerge a)
                 else Load v userDir dir (cfgConfig a))
      in case err of None \<Rightarrow> None | Some e \<Rightarrow> Some (Panic ''failed to initialize config''))"

section \<open>Properties\<close>

text \<open>A type whose leaves the two walks agree on: fields with distinct names without dots, and a tag on every field.\<close>

fun tagged :: "string \<Rightarrow> gotype \<Rightarrow> bool" where
  "tagged tag (TStruct fs) \<longleftrightarrow> distinct (map fst fs) \<and>
     list_all (\<lambda>(name, tags, u). CHR ''.'' \<notin> set name \<and> Tag_Get tags tag \<noteq> [] \<and> tagged tag u) fs"
| "tagged tag (TPtr t) = True"
| "tagged tag TBasic = True"

lemma split_dot: "CHR ''.'' \<notin> set name \<Longrightarrow> split_on (CHR ''.'') (name @ ''.'' @ s) = name # split_on (CHR ''.'') s"
  by (induction name) auto

lemma split_no_dot: "CHR ''.'' \<notin> set name \<Longrightarrow> split_on (CHR ''.'') name = [name]"
  by (induction name) auto

definition same_leaf :: "gotype \<Rightarrow> string \<Rightarrow> string \<Rightarrow> string \<Rightarrow> bool" where
  "same_leaf t tag f l \<longleftrightarrow> (\<forall>vals. \<exists>parts. parts \<noteq> [] \<and> join ''.'' parts = l \<and>
     tag_loop t (split_on (CHR ''.'') f) tag vals = Inr (map Some (vals @ parts)))"

lemma same_leaf_field:
  assumes "map_of fs name = Some (tags, u)" and "CHR ''.'' \<notin> set name" and "Tag_Get tags tag \<noteq> []"
  shows "same_leaf (TStruct fs) tag name (Tag_Get tags tag)"
  unfolding same_leaf_def
  by (rule allI, rule exI [of _ "[Tag_Get tags tag]"]) (simp add: split_no_dot assms)

lemma same_leaf_sub:
  assumes "map_of fs name = Some (tags, u)" and "CHR ''.'' \<notin> set name" and "Tag_Get tags tag \<noteq> []" and "same_leaf u tag f l"
  shows "same_leaf (TStruct fs) tag (name @ ''.'' @ f) (Tag_Get tags tag @ ''.'' @ l)"
  unfolding same_leaf_def
proof
  fix vals
  let ?x = "Tag_Get tags tag"
  obtain parts where p: "parts \<noteq> []" "join ''.'' parts = l"
      "tag_loop u (split_on (CHR ''.'') f) tag (vals @ [?x]) = Inr (map Some ((vals @ [?x]) @ parts))"
    using assms(4) unfolding same_leaf_def by blast
  have "join ''.'' (?x # parts) = ?x @ ''.'' @ l" using p(1,2) by (cases parts) auto
  moreover have "tag_loop (TStruct fs) (split_on (CHR ''.'') (name @ ''.'' @ f)) tag vals = Inr (map Some (vals @ ?x # parts))"
    using assms(1-3) p(3) by (simp add: split_dot del: append.simps)
  ultimately show "\<exists>parts. parts \<noteq> [] \<and> join ''.'' parts = ?x @ ''.'' @ l \<and>
      tag_loop (TStruct fs) (split_on (CHR ''.'') (name @ ''.'' @ f)) tag vals = Inr (map Some (vals @ parts))"
    by blast
qed

lemma list_all2_concat_map:
  "(\<And>x. x \<in> set xs \<Longrightarrow> list_all2 P (f x) (g x)) \<Longrightarrow> list_all2 P (concat (map f xs)) (concat (map g xs))"
  by (induction xs) (auto intro: list_all2_appendI)

lemma leaves_same: "tagged tag t \<Longrightarrow> list_all2 (same_leaf t tag) (leaves None t) (leaves (Some tag) t)"
proof (induction "None :: string option" t rule: leaves.induct)
  case (1 fs)
  show ?case
    unfolding leaves.simps
  proof (rule list_all2_concat_map, clarify)
    fix name tags u assume mem: "(name, tags, u) \<in> set fs"
    have m: "map_of fs name = Some (tags, u)" using "1.prems" mem by simp
    have w: "CHR ''.'' \<notin> set name" "Tag_Get tags tag \<noteq> []" "tagged tag u"
      using "1.prems" mem by (auto simp: list_all_iff)
    show "list_all2 (same_leaf (TStruct fs) tag)
        (case u of TStruct _ \<Rightarrow> map (\<lambda>sub. field_label None name tags @ ''.'' @ sub) (leaves None u) | _ \<Rightarrow> [field_label None name tags])
        (case u of TStruct _ \<Rightarrow> map (\<lambda>sub. field_label (Some tag) name tags @ ''.'' @ sub) (leaves (Some tag) u)
           | _ \<Rightarrow> [field_label (Some tag) name tags])"
    proof (cases u)
      case (TStruct gs)
      have "list_all2 (same_leaf u tag) (leaves None u) (leaves (Some tag) u)"
        using "1.hyps" [OF mem refl refl TStruct] w(3) TStruct by simp
      then show ?thesis
        using same_leaf_sub [OF m w(1,2)] TStruct
        by (simp add: field_label_def list_all2_map1 list_all2_map2 list_all2_mono)
    qed (use same_leaf_field [OF m w(1,2)] in \<open>simp_all add: field_label_def\<close>)
  qed
qed simp_all

lemma leaves_GetTag:
  assumes "tagged tag (TStruct fs)"
  shows "map (\<lambda>f. GetTag (TStruct fs) f tag) (ListLeaves None (TStruct fs)) = map Inr (ListLeaves (Some tag) (TStruct fs))"
proof -
  have "GetTag (TStruct fs) f tag = Inr l" if leaf: "same_leaf (TStruct fs) tag f l" for f l
  proof -
    obtain parts where "join ''.'' parts = l"
        "tag_loop (TStruct fs) (split_on (CHR ''.'') f) tag [] = Inr (map Some ([] @ parts))"
      using leaf unfolding same_leaf_def by blast
    then show ?thesis by (simp add: GetTag_def elem_type_def comp_def)
  qed
  then have "list_all2 (\<lambda>f l. GetTag (TStruct fs) f tag = Inr l) (leaves None (TStruct fs)) (leaves (Some tag) (TStruct fs))"
    using leaves_same [OF assms] by (rule list_all2_mono [rotated]) simp
  then have "map (\<lambda>f. GetTag (TStruct fs) f tag) (leaves None (TStruct fs)) = map Inr (leaves (Some tag) (TStruct fs))"
    unfolding list_all2_conv_all_nth by (intro nth_equalityI) auto
  then show ?thesis by (simp add: ListLeaves_def elem_type_def)
qed

text \<open>
  the leaves of the configuration and their tags fit together. For a type whose fields all carry the tag and have
  distinct names without dots, looking up the tag of every leaf gives the list of tagged leaves.
\<close>

theorem ListLeaves_GetTag:
  assumes "tagged tag (TStruct fs)"
  shows "map (\<lambda>f. GetTag (TStruct fs) f tag) (ListLeaves None (TStruct fs)) = map Inr (ListLeaves (Some tag) (TStruct fs))"
  by (rule leaves_GetTag [OF assms])

lemma Config_tagged: "tagged ''json'' Config_type"
  by (simp add: config_types fld_def Tag_Get_def)

theorem ListLeaves_GetTag_witness:
  "map (\<lambda>f. GetTag Config_type f ''json'') (ListLeaves None Config_type) = map Inr (ListLeaves (Some ''json'') Config_type)"
  using ListLeaves_GetTag [of "''json''" "case Config_type of TStruct fs \<Rightarrow> fs | _ \<Rightarrow> []"] Config_tagged
  by (simp add: Config_type_def)

lemma tag_loop_total: "tag_loop t fs tag vals = Inr ws \<Longrightarrow> \<exists>us. tag_loop t fs tag' vals' = Inr us"
  by (induction t fs tag vals arbitrary: vals' rule: tag_loop.induct) (auto split: option.splits)

lemma GetTag_total: "GetTag t f tag = Inr k \<Longrightarrow> \<exists>k'. GetTag t f tag' = Inr k'"
  by (auto simp: GetTag_def split: gotype.splits sum.splits dest: tag_loop_total)
    (metis Inl_Inr_False tag_loop_total)

text \<open>No two leaves of the configuration have the same variable, although dots and underscores of their keys fall together.\<close>

lemma Config_variables: "distinct (map env_var (ListLeaves (Some ''json'') Config_type))"
  by (simp add: config_types fld_def ListLeaves_def elem_type_def field_label_def Tag_Get_def env_var_def to_upper_def)

text \<open>Every leaf of a tagged type is bound to its key, to the variable of its key and to its aliases, without a panic.\<close>

lemma bindEnvVars_keys:
  assumes "tagged ''json'' (TStruct fs)"
  shows "list_all2 (\<lambda>(f, r) key. \<exists>aliases. GetTag (TStruct fs) f ''env_aliases'' = Inr aliases
      \<and> r = Inr ([key, env_var key] @ split_on (CHR '','') aliases))
    (bindEnvVars (TStruct fs)) (ListLeaves (Some ''json'') (TStruct fs))"
proof -
  let ?ls = "ListLeaves None (TStruct fs)" and ?ks = "ListLeaves (Some ''json'') (TStruct fs)"
  note keys = leaves_GetTag [OF assms]
  have len: "length ?ls = length ?ks" using arg_cong [OF keys, of length] by simp
  have "GetTag (TStruct fs) (?ls ! i) ''json'' = Inr (?ks ! i)" if "i < length ?ls" for i
    using arg_cong [OF keys, of "\<lambda>xs. xs ! i"] that len by simp
  then show ?thesis
    unfolding list_all2_conv_all_nth using len GetTag_total by (fastforce simp: bindEnvVars_def bound_names_def)
qed

lemma scan_args_config:
  assumes "list_all (\<lambda>x. \<not> has_prefix x ''--config'') args"
  shows "cfgConfig (scan_args args a) = cfgConfig a \<and> cfgDir (scan_args args a) = cfgDir a"
  using assms
proof (induction args a rule: scan_args.induct)
  case (2 arg rest a)
  have np: "\<not> has_prefix arg ''--config''" using "2.prems" by simp
  then have c: "arg \<noteq> ''--config''" "arg \<noteq> ''--config-dir''" "take_value ''config'' arg rest = None"
    by (auto simp: take_value_def cut_prefix_def has_prefix_def)
  have "\<not> has_prefix arg ''--config-dir''"
  proof
    assume "has_prefix arg ''--config-dir''"
    then have "take (length ''--config'') (take (length ''--config-dir'') arg) = ''--config''"
      unfolding has_prefix_def by simp
    then show False using np by (simp add: has_prefix_def)
  qed
  then have "take_value ''config-dir'' arg rest = None"
    using c(2) by (simp add: take_value_def cut_prefix_def)
  then show ?case using "2.IH" "2.prems" c by (simp add: Let_def)
qed simp


definition some_viper :: viper where
  "some_viper = \<lparr>readInConfig = (\<lambda>_. ConfigFileNotFound), mergeConfig = (\<lambda>s. if s = ''{}'' then None else Some (Errorf ''invalid character'')),
     unmarshalExact = None, dirMissing = (\<lambda>_. False), mkdirAll = (\<lambda>_. None), safeWriteConfig = None, writeConfig = None\<rparr>"


end
