(* ===== verification/Go_Paths.thy ===== *)
theory Go_Paths
  imports Go_Strings
begin

text \<open>
  The functions of \<open>path/filepath\<close> the sources call, on slash-separated paths: \<open>Clean\<close>, \<open>Join\<close>, \<open>Ext\<close> and \<open>Base\<close>, and
  what cleaning says about where a path leads.
\<close>

section \<open>Functions\<close>

definition rooted :: "string \<Rightarrow> bool" where
  "rooted s \<longleftrightarrow> has_prefix s ''/''"

text \<open>The components that remain, read from left to right with the ones kept so far on a stack.\<close>

fun clean_comps :: "bool \<Rightarrow> string list \<Rightarrow> string list \<Rightarrow> string list" where
  "clean_comps root st [] = rev st"
| "clean_comps root st (c # cs) =
     (if c = [] \<or> c = ''.'' then clean_comps root st cs
      else if c = ''..'' then
        (case st of
           [] \<Rightarrow> clean_comps root (if root then [] else [''..'']) cs
         | t # ts \<Rightarrow> clean_comps root (if t = ''..'' then ''..'' # st else ts) cs)
      else clean_comps root (c # st) cs)"

definition comps :: "string \<Rightarrow> string list" where
  "comps s = clean_comps (rooted s) [] (split_on (CHR ''/'') s)"

definition Clean :: "string \<Rightarrow> string" where
  "Clean s =
     (if rooted s then CHR ''/'' # join ''/'' (comps s)
      else if comps s = [] then ''.''
      else join ''/'' (comps s))"

definition Join :: "string list \<Rightarrow> string" where
  "Join es = (case filter (\<lambda>e. e \<noteq> []) es of [] \<Rightarrow> [] | xs \<Rightarrow> Clean (join ''/'' xs))"

definition Base :: "string \<Rightarrow> string" where
  "Base s = last (split_on (CHR ''/'') s)"

definition Ext :: "string \<Rightarrow> string" where
  "Ext s = (case last_index_byte (Base s) (CHR ''.'') of None \<Rightarrow> [] | Some i \<Rightarrow> drop i (Base s))"

section \<open>Substrings and components\<close>

lemma has_prefix_iff: "has_prefix s p \<longleftrightarrow> (\<exists>t. s = p @ t)"
proof
  assume "has_prefix s p"
  then have "s = p @ drop (length p) s" by (metis append_take_drop_id has_prefix_def)
  then show "\<exists>t. s = p @ t" by blast
qed (auto simp: has_prefix_def)

lemma contains_iff: "contains s sub \<longleftrightarrow> (\<exists>a b. s = a @ sub @ b)"
proof (induction s)
  case Nil
  show ?case by (subst contains.simps) (auto simp: has_prefix_iff)
next
  case (Cons c s)
  have "contains (c # s) sub \<longleftrightarrow> has_prefix (c # s) sub \<or> contains s sub" by (subst contains.simps) simp
  also have "\<dots> \<longleftrightarrow> (\<exists>a b. c # s = a @ sub @ b)"
    unfolding has_prefix_iff Cons.IH by (metis append_Cons append_Nil list.exhaust list.inject)
  finally show ?case .
qed

lemma split_on_infix: "x \<in> set (split_on c s) \<Longrightarrow> \<exists>a b. s = a @ x @ b"
proof (induction s arbitrary: x)
  case (Cons d s)
  obtain y ys where y: "split_on c s = y # ys" by (metis list.exhaust split_on_nonempty)
  have hd: "\<exists>b. s = y @ b" using y
  proof (induction s arbitrary: y ys)
    case (Cons e s)
    then show ?case by (auto split: if_splits list.splits)
  qed simp
  show ?case
  proof (cases "d = c")
    case True
    then consider "x = []" | "x \<in> set (split_on c s)" using Cons.prems by auto
    then show ?thesis
    proof cases
      case 1
      then have "d # s = [] @ x @ d # s" by simp
      then show ?thesis by blast
    next
      case 2
      then obtain a b where "s = a @ x @ b" using Cons.IH by blast
      then have "d # s = (d # a) @ x @ b" by simp
      then show ?thesis by blast
    qed
  next
    case False
    then consider "x = d # y" | "x \<in> set ys" using Cons.prems y by auto
    then show ?thesis
    proof cases
      case 1
      obtain b where "s = y @ b" using hd by blast
      then have "d # s = [] @ x @ b" using 1 by simp
      then show ?thesis by blast
    next
      case 2
      then obtain a b where "s = a @ x @ b" using Cons.IH [of x] y by auto
      then have "d # s = (d # a) @ x @ b" by simp
      then show ?thesis by blast
    qed
  qed
qed simp

lemma split_on_mem: "x \<in> set (split_on c s) \<Longrightarrow> c \<notin> set x"
proof (induction s arbitrary: x)
  case (Cons d s)
  obtain y ys where y: "split_on c s = y # ys" by (metis list.exhaust split_on_nonempty)
  then show ?case using Cons.IH Cons.prems by (auto split: if_splits)
qed simp

lemma no_dotdot: "\<not> contains s ''..'' \<Longrightarrow> ''..'' \<notin> set (split_on c s)"
  using split_on_infix contains_iff by metis

section \<open>Cleaning\<close>

definition plain :: "string \<Rightarrow> bool" where
  "plain c \<longleftrightarrow> c \<noteq> [] \<and> c \<noteq> ''.'' \<and> c \<noteq> ''..''"

lemma clean_comps_append_plain:
  "''..'' \<notin> set ys \<Longrightarrow> clean_comps root st (xs @ ys) = clean_comps root st xs @ filter plain ys"
proof (induction root st xs rule: clean_comps.induct)
  case (1 root st)
  have "clean_comps root st ys = rev st @ filter plain ys"
    using 1 by (induction ys arbitrary: st) (auto simp: plain_def)
  then show ?case by simp
next
  case (2 root st c cs)
  then show ?case by (auto split: list.splits)
qed

lemma clean_comps_plain: "list_all plain xs \<Longrightarrow> clean_comps root st xs = rev st @ xs"
  by (induction xs arbitrary: st) (auto simp: plain_def)

lemma clean_comps_rooted: "''..'' \<notin> set st \<Longrightarrow> list_all plain st \<Longrightarrow> list_all plain (clean_comps True st xs)"
  by (induction True st xs rule: clean_comps.induct) (auto simp: plain_def split: list.splits)

lemma clean_comps_mem: "set (clean_comps root st xs) \<subseteq> set st \<union> set xs \<union> {''..''}"
  by (induction root st xs rule: clean_comps.induct) (auto split: list.splits if_splits)

lemma split_on_cat: "split_on c (s @ c # t) = split_on c s @ split_on c t"
proof (induction s)
  case (Cons d s)
  then show ?case by (cases "split_on c s") (auto split: list.splits)
qed simp

lemma rooted_Cons [simp]: "rooted (CHR ''/'' # s)"
  by (simp add: rooted_def has_prefix_def)

lemma join_comps:
  assumes "list_all plain xs" and "\<forall>x\<in>set xs. CHR ''/'' \<notin> set x"
  shows "comps (CHR ''/'' # join ''/'' xs) = xs"
proof (cases "xs = []")
  case True
  then show ?thesis by (simp add: comps_def)
next
  case False
  then have "split_on (CHR ''/'') (join ''/'' xs) = xs" by (rule split_on_join) (use assms in auto)
  then show ?thesis using assms(1) by (simp add: comps_def clean_comps_plain)
qed

lemma comps_no_slash: "x \<in> set (comps s) \<Longrightarrow> CHR ''/'' \<notin> set x"
  using clean_comps_mem [of "rooted s" "[]" "split_on (CHR ''/'') s"] split_on_mem [of x "CHR ''/''" s]
  by (auto simp: comps_def)

lemma comps_Clean: "rooted s \<Longrightarrow> comps (Clean s) = comps s"
proof -
  assume r: "rooted s"
  have "list_all plain (comps s)" using clean_comps_rooted [of "[]"] r by (simp add: comps_def)
  then show ?thesis using join_comps [of "comps s"] comps_no_slash r by (auto simp: Clean_def)
qed

text \<open>Joining a rooted directory and a relative or absolute name without \<open>..\<close> stays below the directory.\<close>

lemma comps_Join:
  assumes "rooted dir" and "\<not> contains name ''..''"
  shows "comps (Join [dir, name]) = comps dir @ filter plain (split_on (CHR ''/'') name)"
proof -
  have d: "dir \<noteq> []" using assms(1) by (auto simp: rooted_def has_prefix_def)
  have nd: "''..'' \<notin> set (split_on (CHR ''/'') name)" by (rule no_dotdot [OF assms(2)])
  show ?thesis
  proof (cases "name = []")
    case True
    then show ?thesis using d comps_Clean [OF assms(1)] by (simp add: Join_def plain_def)
  next
    case False
    have r: "rooted (dir @ CHR ''/'' # name)" using assms(1) by (auto simp: rooted_def has_prefix_iff)
    have "comps (Join [dir, name]) = comps (dir @ CHR ''/'' # name)"
      using d False comps_Clean [OF r] by (simp add: Join_def)
    also have "\<dots> = comps dir @ filter plain (split_on (CHR ''/'') name)"
      using r assms(1) nd by (simp add: comps_def split_on_cat clean_comps_append_plain)
    finally show ?thesis .
  qed
qed

definition within :: "string \<Rightarrow> string \<Rightarrow> bool" where
  "within dir path \<longleftrightarrow> rooted path \<and> take (length (comps dir)) (comps path) = comps dir"

lemma Join_within: "rooted dir \<Longrightarrow> \<not> contains name ''..'' \<Longrightarrow> within dir (Join [dir, name])"
proof -
  assume a: "rooted dir" "\<not> contains name ''..''"
  have "dir \<noteq> []" using a(1) by (auto simp: rooted_def has_prefix_def)
  moreover have "rooted (Clean s)" if "rooted s" for s using that by (simp add: Clean_def)
  moreover have "rooted (dir @ CHR ''/'' # name)" using a(1) by (auto simp: rooted_def has_prefix_iff)
  ultimately have "rooted (Join [dir, name])" using a(1) by (simp add: Join_def)
  then show ?thesis using comps_Join [OF a] by (simp add: within_def)
qed

end
