(* ===== verification/Plugins.thy ===== *)
theory Plugins
  imports Features Utils Go_Paths
begin

text \<open>
  \<^bold>\<open>pkg/plugins\<close>: the registry of plugins, what is installed of it, and the two managers that install and remove plugins. The files
  on disk are a map from paths to what \<open>os.Stat\<close> and reading give; the faults of copying and removing, the outputs of the
  plugins' binaries and the answers of the registry service are a record. The goroutines of a manager send numbers, messages and errors
  over unbuffered channels that the caller drains; the model keeps what they send in the order in which it is sent.
\<close>

section \<open>Plugins\<close>

datatype plugin_type = UNIMPLEMENTED | DEPRECATED | EXPERIMENTAL | EXTERNAL | SUPPORTED

datatype plugin_status = UNKNOWN | AVAILABLE | INSTALLED | OUTDATED

record binary =
  bName :: string
  bChecksum :: string
  bInstallDir :: string

record plugin =
  plName :: string
  plType :: plugin_type
  plStatus :: plugin_status
  plVersion :: string
  plAvailableVersion :: string
  plLibraries :: "binary list"
  plBinaries :: "binary list"
  plSize :: int
  plPublishedAt :: int

definition Type_String :: "plugin_type \<Rightarrow> string" where
  "Type_String t = (case t of SUPPORTED \<Rightarrow> ''supported'' | EXPERIMENTAL \<Rightarrow> ''experimental'' | DEPRECATED \<Rightarrow> ''deprecated''
     | UNIMPLEMENTED \<Rightarrow> ''unimplemented'' | EXTERNAL \<Rightarrow> ''-'')"

definition Status_String :: "plugin_status \<Rightarrow> string" where
  "Status_String s = (case s of AVAILABLE \<Rightarrow> ''available'' | INSTALLED \<Rightarrow> ''installed'' | OUTDATED \<Rightarrow> ''outdated'' | UNKNOWN \<Rightarrow> ''unknown'')"

text \<open>Entries of the registry as the code writes them: the fields that are not given are zero.\<close>

definition at_dir :: "string \<Rightarrow> string \<Rightarrow> binary" where
  "at_dir dir name = \<lparr>bName = name, bChecksum = [], bInstallDir = dir\<rparr>"

definition entry :: "string \<Rightarrow> plugin_type \<Rightarrow> binary list \<Rightarrow> binary list \<Rightarrow> plugin" where
  "entry name t libs bins = \<lparr>plName = name, plType = t, plStatus = UNKNOWN, plVersion = [], plAvailableVersion = [],
     plLibraries = libs, plBinaries = bins, plSize = 0, plPublishedAt = 0\<rparr>"

definition Registry :: "plugin list" where
  "Registry = [
     entry ''criu'' EXTERNAL [] [at_dir [] ''criu''],
     entry ''cloud-hypervisor'' SUPPORTED [at_dir [] ''libcedana-cloud-hypervisor.so''] [],
     entry ''criu/cuda'' EXTERNAL [at_dir ''/usr/lib/criu'' ''cuda_plugin.so''] [at_dir ''/usr/local/bin'' ''cuda-checkpoint''],
     entry ''criu/nvidia-dev'' EXTERNAL [at_dir ''/usr/lib/criu'' ''nvidia-dev-plugin.so''] [],
     entry ''criu/infiniband'' EXTERNAL [at_dir ''/usr/lib/criu'' ''infiniband-plugin.so''] [],
     entry ''runc'' SUPPORTED [at_dir [] ''libcedana-runc.so''] [],
     entry ''containerd'' SUPPORTED [at_dir [] ''libcedana-containerd.so''] [],
     entry ''crio'' SUPPORTED [at_dir [] ''libcedana-crio.so''] [],
     entry ''kata'' SUPPORTED [at_dir [] ''libcedana-kata.so''] [],
     entry ''storage/cedana'' SUPPORTED [at_dir [] ''libcedana-storage-cedana.so''] [],
     entry ''storage/s3'' SUPPORTED [at_dir [] ''libcedana-storage-s3.so''] [],
     entry ''storage/gcs'' SUPPORTED [at_dir [] ''libcedana-storage-gcs.so''] [],
     entry ''gpu'' EXTERNAL [at_dir [] ''libcedana-gpu.so''] [at_dir [] ''cedana-gpu-controller''],
     entry ''gpu/tracer'' EXTERNAL [at_dir [] ''libcedana-gpu-tracer.so''] [],
     entry ''streamer'' EXTERNAL [] [at_dir [] ''cedana-image-streamer''],
     entry ''k8s'' SUPPORTED [at_dir [] ''libcedana-k8s.so''] [],
     entry ''containerd/runtime-runc'' EXTERNAL [] [at_dir [] ''cedana-shim-runc-v2''],
     entry ''slurm'' SUPPORTED [at_dir [] ''libcedana-slurm.so''] [],
     entry ''slurm/wlm'' EXTERNAL [at_dir [] ''spank_cedana.so'', at_dir [] ''task_cedana.so'', at_dir [] ''cli_filter_cedana.so'',
        at_dir [] ''job_submit_cedana.so''] [at_dir [] ''cedana-slurm''],
     entry ''slurm/tests'' EXTERNAL [] [at_dir [] ''test-preemption.sh'']]"

section \<open>The machine\<close>

record disk_file =
  fData :: string
  fIsDir :: bool
  fTime :: int

type_synonym disk = "string \<Rightarrow> disk_file option"

datatype 'a http = NoRequest goerr | NoResponse goerr | HttpCode nat string | Decoded "goerr + 'a"

datatype download = DlFailed goerr | DlSaved string | DlBroken string goerr

record plugins_env =
  LibDir :: string
  BinDir :: string
  md5 :: "string \<Rightarrow> string"
  versionSyms :: "string loaded"
  versionOut :: "string \<Rightarrow> string option"
  copyFaults :: "string \<Rightarrow> string \<Rightarrow> copy_env \<times> nat"
  removeErr :: "string \<Rightarrow> error"
  onlineList :: "string list \<Rightarrow> plugin list http"
  downloads :: "string \<Rightarrow> string \<Rightarrow> download"
  downloadDir :: string
  positive :: "string \<Rightarrow> string"
  warning :: "string \<Rightarrow> string"

definition regular :: "disk \<Rightarrow> string \<Rightarrow> bool" where
  "regular fs path \<longleftrightarrow> (case fs path of None \<Rightarrow> False | Some f \<Rightarrow> \<not> fIsDir f)"

section \<open>What is installed\<close>

definition tidy_version :: "string \<Rightarrow> string" where
  "tidy_version v =
     (if v = ''unknown'' then v
      else
        (let v1 = (case index_byte v (CHR 0x0A) of Some i \<Rightarrow> if i > 0 then take i v else v | None \<Rightarrow> v);
             v2 = (case last_index_byte v1 (CHR '' '') of Some i \<Rightarrow> if i > 0 then drop (Suc i) v1 else v1 | None \<Rightarrow> v1)
         in case v2 of [] \<Rightarrow> v2 | c # _ \<Rightarrow> if is_digit c then CHR ''v'' # v2 else v2))"

definition own_version :: "plugins_env \<Rightarrow> plugin \<Rightarrow> string" where
  "own_version env p = tidy_version
     (case plType p of
        SUPPORTED \<Rightarrow> snd (IfAvailable ''version'' (\<lambda>_ sym _. (Returned None, trim_space sym)) [plName p] (versionSyms env) ''unknown'')
      | EXTERNAL \<Rightarrow>
          (case plBinaries p of
             [] \<Rightarrow> ''unknown''
           | b # _ \<Rightarrow>
               if has_suffix (bName b) ''.sh'' then ''unknown''
               else (case versionOut env (bName b) of
                   None \<Rightarrow> ''unknown''
                 | Some out \<Rightarrow> if trim_space out \<noteq> [] then trim_space out else ''unknown''))
      | _ \<Rightarrow> ''unknown'')"

definition parent_of :: "plugin \<Rightarrow> plugin option" where
  "parent_of p = List.find (\<lambda>q. plName q = hd (split_on (CHR ''/'') (plName p))) Registry"

text \<open>A plugin without a version of its own has the version of its parent, which is asked the same way.\<close>

function SyncVersion :: "plugins_env \<Rightarrow> plugin \<Rightarrow> plugin" where
  "SyncVersion env p =
     (let version = own_version env p in
      p\<lparr>plVersion :=
        (if version = ''unknown'' \<and> contains (plName p) ''/''
         then (case parent_of p of None \<Rightarrow> version | Some parent \<Rightarrow> plVersion (SyncVersion env parent))
         else version)\<rparr>)"
  by pat_completeness auto

definition file_path :: "string \<Rightarrow> binary \<Rightarrow> string" where
  "file_path dir b = (if bInstallDir b = [] then Join [dir, bName b] else Join [bInstallDir b, bName b])"

text \<open>The loop over the files of a plugin: how many were found, their total size, and the files with the checksums of those found.\<close>

fun sync_files :: "plugins_env \<Rightarrow> disk \<Rightarrow> string \<Rightarrow> binary list \<Rightarrow> nat \<times> int \<times> binary list" where
  "sync_files env fs dir [] = (0, 0, [])"
| "sync_files env fs dir (b # bs) =
     (case sync_files env fs dir bs of (found, sz, bs') \<Rightarrow>
      (case fs (file_path dir b) of
         None \<Rightarrow> (found, sz, b # bs')
       | Some f \<Rightarrow> if fIsDir f then (found, sz, b # bs')
           else (Suc found, int (length (fData f)) + sz, b\<lparr>bChecksum := md5 env (fData f)\<rparr> # bs')))"

definition Checksum :: "plugin \<Rightarrow> string" where
  "Checksum p = concat (map bChecksum (plLibraries p)) @ concat (map bChecksum (plBinaries p))"

definition BinaryPaths :: "plugins_env \<Rightarrow> plugin \<Rightarrow> string list" where
  "BinaryPaths env p = map (file_path (BinDir env)) (plBinaries p)"

definition LibraryPaths :: "plugins_env \<Rightarrow> plugin \<Rightarrow> string list" where
  "LibraryPaths env p = map (file_path (LibDir env)) (plLibraries p)"

definition IsInstalled :: "plugin option \<Rightarrow> bool" where
  "IsInstalled p = (case p of None \<Rightarrow> False | Some p \<Rightarrow> plStatus p = INSTALLED \<or> plStatus p = OUTDATED)"

lemma split_on_no_slash: "CHR ''/'' \<notin> set s \<Longrightarrow> \<not> contains s ''/''"
  by (auto simp: contains_iff)

lemma parent_no_slash: "parent_of p = Some q \<Longrightarrow> \<not> contains (plName q) ''/''"
proof -
  assume "parent_of p = Some q"
  then have "plName q = hd (split_on (CHR ''/'') (plName p))" by (auto simp: parent_of_def find_Some_iff)
  then have "plName q \<in> set (split_on (CHR ''/'') (plName p))" using split_on_nonempty by (metis list.set_sel(1))
  then show ?thesis using split_on_mem split_on_no_slash by blast
qed

termination SyncVersion
  by (relation "measure (\<lambda>(env, p). if contains (plName p) ''/'' then 1 else 0)") (use parent_no_slash in \<open>auto split: if_splits\<close>)

declare SyncVersion.simps [simp del]

definition SyncInstalled :: "plugins_env \<Rightarrow> disk \<Rightarrow> plugin \<Rightarrow> plugin" where
  "SyncInstalled env fs p =
     (case sync_files env fs (LibDir env) (plLibraries p) of (foundL, sizeL, libs) \<Rightarrow>
      (let p1 = p\<lparr>plLibraries := libs\<rparr> in
       if foundL < length (plLibraries p) then p1
       else (case sync_files env fs (BinDir env) (plBinaries p) of (foundB, sizeB, bins) \<Rightarrow>
          (let p2 = p1\<lparr>plBinaries := bins\<rparr> in
           if foundB < length (plBinaries p) then p2
           else SyncVersion env (p2\<lparr>plStatus := INSTALLED, plSize := sizeL + sizeB\<rparr>)))))"

section \<open>Loading\<close>

datatype lib_stat = LibMissing | LibUnreadable | LibDirectory | LibFile "goerr + unit"

text \<open>The result of \<open>os.Stat\<close> is used whenever the error is not the one that says that the file does not exist.\<close>

fun load_libs :: "(string \<Rightarrow> lib_stat) \<Rightarrow> string \<Rightarrow> plugin \<Rightarrow> binary list \<Rightarrow> string list \<Rightarrow> goerr + string list" where
  "load_libs stat lib t [] loaded = Inr loaded"
| "load_libs stat lib t (b # bs) loaded =
     (case stat (Join [lib, bName b]) of
        LibMissing \<Rightarrow> load_libs stat lib t bs loaded
      | LibUnreadable \<Rightarrow> Inl (Panic ''nil pointer dereference'')
      | LibDirectory \<Rightarrow> load_libs stat lib t bs loaded
      | LibFile (Inl e) \<Rightarrow> load_libs stat lib t bs loaded
      | LibFile (Inr _) \<Rightarrow> load_libs stat lib t bs (List.insert (plName t) loaded))"

fun load_registry :: "(string \<Rightarrow> lib_stat) \<Rightarrow> string \<Rightarrow> plugin list \<Rightarrow> string list \<Rightarrow> goerr + string list" where
  "load_registry stat lib [] loaded = Inr loaded"
| "load_registry stat lib (t # ts) loaded =
     (if plType t \<noteq> SUPPORTED \<and> plType t \<noteq> EXPERIMENTAL then load_registry stat lib ts loaded
      else (case load_libs stat lib t (plLibraries t) loaded of
          Inl e \<Rightarrow> Inl e
        | Inr loaded' \<Rightarrow> load_registry stat lib ts loaded'))"

definition loadPlugins :: "(string \<Rightarrow> lib_stat) \<Rightarrow> bool \<Rightarrow> string \<Rightarrow> string list \<Rightarrow> goerr + string list" where
  "loadPlugins stat lib_missing lib args =
     (if lib_missing then Inr []
      else if length args > 1 \<and> has_prefix (args ! 1) ''plugin'' then Inr []
      else load_registry stat lib Registry [])"

section \<open>The local manager\<close>

record local_manager =
  searchPath :: string
  srcDir :: "(string, string) smap"

definition NewLocalManager :: "string \<Rightarrow> string \<Rightarrow> local_manager" where
  "NewLocalManager path wd = \<lparr>searchPath = path @ '':'' @ wd, srcDir = []\<rparr>"

definition lm_Get :: "plugins_env \<Rightarrow> disk \<Rightarrow> string \<Rightarrow> plugin option" where
  "lm_Get env fs name = map_option (SyncInstalled env fs) (List.find (\<lambda>p. plName p = name) Registry)"

definition lm_IsInstalled :: "plugins_env \<Rightarrow> disk \<Rightarrow> string \<Rightarrow> bool" where
  "lm_IsInstalled env fs name = IsInstalled (lm_Get env fs name)"

definition name_only :: "string \<Rightarrow> string" where
  "name_only name = hd (split_on (CHR ''@'') (trim_space name))"

text \<open>The search for the files of a plugin: for each, the first directory of the search path that has it.\<close>

record searched =
  sFound :: nat
  sDir :: string
  sSize :: int
  sTime :: int
  sSum :: string

definition search_dir :: "local_manager \<Rightarrow> disk \<Rightarrow> binary \<Rightarrow> string option" where
  "search_dir m fs b = List.find (\<lambda>path. regular fs (Join [path, bName b])) (split_on (CHR '':'') (searchPath m))"

definition search_step :: "plugins_env \<Rightarrow> local_manager \<Rightarrow> disk \<Rightarrow> binary \<Rightarrow> searched \<Rightarrow> searched" where
  "search_step env m fs b s =
     (case search_dir m fs b of
        None \<Rightarrow> s
      | Some path \<Rightarrow>
        (let f = the (fs (Join [path, bName b]))
         in \<lparr>sFound = Suc (sFound s), sDir = path, sSize = sSize s + int (length (fData f)), sTime = fTime f, sSum = sSum s @ md5 env (fData f)\<rparr>))"

definition search :: "plugins_env \<Rightarrow> local_manager \<Rightarrow> disk \<Rightarrow> binary list \<Rightarrow> searched" where
  "search env m fs bs = fold (search_step env m fs) bs \<lparr>sFound = 0, sDir = [], sSize = 0, sTime = 0, sSum = []\<rparr>"

definition latest_entry :: "plugins_env \<Rightarrow> disk \<Rightarrow> plugin \<Rightarrow> local_manager \<Rightarrow> plugin \<times> local_manager" where
  "latest_entry env fs p m =
     (let files = plLibraries p @ plBinaries p; s = search env m fs files in
      if sFound s = length files then
        (let p1 = p\<lparr>plAvailableVersion := ''local''\<rparr>;
             p2 = (case plStatus p1 of
                 UNKNOWN \<Rightarrow> p1\<lparr>plStatus := AVAILABLE\<rparr>
               | AVAILABLE \<Rightarrow> p1
               | _ \<Rightarrow> if Checksum p1 \<noteq> sSum s then p1\<lparr>plStatus := OUTDATED\<rparr>
                   else p1\<lparr>plStatus := INSTALLED, plVersion := plAvailableVersion p1\<rparr>);
             p3 = (if plSize p2 = 0 then p2\<lparr>plSize := sSize s\<rparr> else p2)
         in (p3\<lparr>plPublishedAt := sTime s\<rparr>, m\<lparr>srcDir := AList.update (plName p) (sDir s) (srcDir m)\<rparr>))
      else (p, m))"

fun list_registry :: "plugins_env \<Rightarrow> disk \<Rightarrow> bool \<Rightarrow> string list \<Rightarrow> plugin list \<Rightarrow> local_manager \<Rightarrow> plugin list \<times> local_manager" where
  "list_registry env fs latest names [] m = ([], m)"
| "list_registry env fs latest names (p # ps) m =
     (if plType p = UNIMPLEMENTED \<or> (names \<noteq> [] \<and> plName p \<notin> set names) then list_registry env fs latest names ps m
      else
        (let q = SyncInstalled env fs p; (q', m') = (if latest then latest_entry env fs q m else (q, m)) in
         case list_registry env fs latest names ps m' of (qs, m'') \<Rightarrow> (q' # qs, m'')))"

definition lm_List :: "plugins_env \<Rightarrow> disk \<Rightarrow> bool \<Rightarrow> string list \<Rightarrow> local_manager \<Rightarrow> plugin list \<times> local_manager" where
  "lm_List env fs latest filt m = list_registry env fs latest (map name_only filt) Registry m"

text \<open>\<open>availableSet[plugin.Name] = &plugin\<close> for each plugin of a list, then a lookup.\<close>

definition by_name :: "plugin list \<Rightarrow> string \<Rightarrow> plugin option" where
  "by_name ps name = List.find (\<lambda>p. plName p = name) (rev ps)"

datatype plugin_event = Counted | Msg string | Failed goerr

section \<open>Installing\<close>

text \<open>\<open>utils.CopyFile\<close> with its effect on the disk: a failure after the destination was created leaves an unfinished file.\<close>

definition copy_file :: "plugins_env \<Rightarrow> string \<Rightarrow> string \<Rightarrow> disk \<Rightarrow> error \<times> disk" where
  "copy_file env src dest fs =
     (case fs src of
        None \<Rightarrow> (Some (Wrapf ''Could not open source file'' (Errorf ''no such file or directory'')), fs)
      | Some f \<Rightarrow>
        (case copyFaults env src dest of (ce, n) \<Rightarrow>
         (case CopyFile ce of
            None \<Rightarrow> (None, fs(dest \<mapsto> f))
          | Some e \<Rightarrow> (Some e, if cpOpen ce \<noteq> None \<or> cpCreate ce \<noteq> None then fs
                else fs(dest \<mapsto> f\<lparr>fData := (if cpStat ce \<noteq> None \<or> cpChmod ce \<noteq> None then [] else take n (fData f))\<rparr>)))))"

definition remove_file :: "plugins_env \<Rightarrow> string \<Rightarrow> disk \<Rightarrow> error \<times> disk" where
  "remove_file env dest fs =
     (case fs dest of
        None \<Rightarrow> (Some (Errorf ''no such file or directory''), fs)
      | Some _ \<Rightarrow> (case removeErr env dest of Some e \<Rightarrow> (Some e, fs) | None \<Rightarrow> (None, fs(dest := None))))"

text \<open>The loop over the libraries, and the same loop over the binaries; both leave the loop at the first error.\<close>

fun install_files :: "plugins_env \<Rightarrow> string \<Rightarrow> string \<Rightarrow> string \<Rightarrow> binary list \<Rightarrow> error \<Rightarrow> disk \<Rightarrow> error \<times> disk" where
  "install_files env name src dir [] err fs = (err, fs)"
| "install_files env name src dir (b # bs) err fs =
     (if \<not> regular fs (Join [src, bName b]) then (Some (Errorf ''No local plugin found''), fs)
      else (case copy_file env (Join [src, bName b]) (file_path dir b) (snd (remove_file env (file_path dir b) fs)) of
          (Some e, fs') \<Rightarrow> (Some (Wrapf (''Failed to install '' @ name) e), fs')
        | (None, fs') \<Rightarrow> install_files env name src dir bs err fs'))"

definition install_plugin :: "plugins_env \<Rightarrow> local_manager \<Rightarrow> string \<Rightarrow> plugin \<Rightarrow> disk \<Rightarrow> error \<times> disk" where
  "install_plugin env m name p fs =
     (let src = (case map_of (srcDir m) name of None \<Rightarrow> [] | Some d \<Rightarrow> d) in
      case install_files env name src (LibDir env) (plLibraries p) None fs of
        (err, fs1) \<Rightarrow> install_files env name src (BinDir env) (plBinaries p) err fs1)"

fun install_loop :: "plugins_env \<Rightarrow> local_manager \<Rightarrow> plugin list \<Rightarrow> string list \<Rightarrow> disk \<Rightarrow> plugin_event list \<times> disk" where
  "install_loop env m ps [] fs = ([], fs)"
| "install_loop env m ps (n # ns) fs =
     (if trim_space n = [] then install_loop env m ps ns fs
      else
        (let name = name_only n in
         case by_name ps name of
           None \<Rightarrow> (case install_loop env m ps ns fs of (evs, fs') \<Rightarrow> (Failed (Errorf (''Plugin '' @ name @ '' is not available'')) # evs, fs'))
         | Some p \<Rightarrow>
           if plStatus p = INSTALLED
           then (case install_loop env m ps ns fs of (evs, fs') \<Rightarrow> (Msg (''Plugin '' @ name @ '' is already installed'') # evs, fs'))
           else
             (let start = Msg ((if plStatus p = AVAILABLE then ''Installing plugin '' else ''Updating plugin '') @ name @ ''...'') in
              case install_plugin env m name p fs of
                (Some e, fs1) \<Rightarrow> (case install_loop env m ps ns fs1 of (evs, fs') \<Rightarrow> (start # Failed e # evs, fs'))
              | (None, fs1) \<Rightarrow>
                (case install_loop env m ps ns fs1 of (evs, fs') \<Rightarrow>
                  (start # Msg (if plStatus p = AVAILABLE then positive env (''Installed plugin '' @ name) else warning env (''Updated plugin '' @ name))
                     # Counted # evs, fs')))))"

definition lm_Install :: "plugins_env \<Rightarrow> string list \<Rightarrow> local_manager \<Rightarrow> disk \<Rightarrow> plugin_event list \<times> local_manager \<times> disk" where
  "lm_Install env names m fs =
     (case lm_List env fs True names m of (ps, m') \<Rightarrow> (case install_loop env m' ps names fs of (evs, fs') \<Rightarrow> (evs, m', fs')))"

section \<open>Removing\<close>

fun remove_files :: "plugins_env \<Rightarrow> string \<Rightarrow> string \<Rightarrow> binary list \<Rightarrow> error \<Rightarrow> disk \<Rightarrow> error \<times> disk" where
  "remove_files env name dir [] err fs = (err, fs)"
| "remove_files env name dir (b # bs) err fs =
     (case remove_file env (file_path dir b) fs of
        (Some e, fs') \<Rightarrow> (Some (Wrapf (''Failed to remove '' @ name) e), fs')
      | (None, fs') \<Rightarrow> remove_files env name dir bs err fs')"

text \<open>\<open>err\<close> is declared before the loop over the names, and no turn of the loop resets it.\<close>

fun remove_loop :: "plugins_env \<Rightarrow> plugin list \<Rightarrow> string list \<Rightarrow> error \<Rightarrow> disk \<Rightarrow> plugin_event list \<times> disk" where
  "remove_loop env ps [] err fs = ([], fs)"
| "remove_loop env ps (n # ns) err fs =
     (let name = trim_space n in
      if name = [] then remove_loop env ps ns err fs
      else (case by_name ps name of
          None \<Rightarrow> (case remove_loop env ps ns err fs of (evs, fs') \<Rightarrow> (Failed (Errorf (''Plugin '' @ name @ '' is not available'')) # evs, fs'))
        | Some p \<Rightarrow>
          if plStatus p \<noteq> INSTALLED
          then (case remove_loop env ps ns err fs of (evs, fs') \<Rightarrow> (Failed (Errorf (''Plugin '' @ name @ '' is not installed'')) # evs, fs'))
          else (case remove_files env name (LibDir env) (plLibraries p) err fs of (err1, fs1) \<Rightarrow>
               (case remove_files env name (BinDir env) (plBinaries p) err1 fs1 of
                  (Some e, fs2) \<Rightarrow>
                    (case remove_loop env ps ns (Some e) fs2 of (evs, fs') \<Rightarrow> (Msg (''Removing '' @ name @ ''...'') # Failed e # evs, fs'))
                | (None, fs2) \<Rightarrow>
                    (case remove_loop env ps ns None fs2 of (evs, fs') \<Rightarrow>
                      (Msg (''Removing '' @ name @ ''...'') # Msg (warning env (''Removed '' @ name)) # Counted # evs, fs'))))))"

definition lm_Remove :: "plugins_env \<Rightarrow> string list \<Rightarrow> local_manager \<Rightarrow> disk \<Rightarrow> plugin_event list \<times> local_manager \<times> disk" where
  "lm_Remove env names m fs =
     (case lm_List env fs False [] m of (ps, m') \<Rightarrow> (case remove_loop env ps names None fs of (evs, fs') \<Rightarrow> (evs, m', fs')))"

section \<open>The propagator's manager\<close>

definition online_update :: "plugin \<Rightarrow> plugin \<Rightarrow> plugin" where
  "online_update new p =
     (if plName p \<noteq> plName new then p
      else
        (let p1 = p\<lparr>plAvailableVersion := plAvailableVersion new, plSize := plSize new, plPublishedAt := plPublishedAt new\<rparr> in
         case plStatus p1 of
           UNKNOWN \<Rightarrow> p1\<lparr>plStatus := AVAILABLE\<rparr>
         | AVAILABLE \<Rightarrow> p1
         | _ \<Rightarrow> p1\<lparr>plStatus := (if Checksum p1 \<noteq> Checksum new then OUTDATED else INSTALLED)\<rparr>))"

definition wanted_names :: "string list \<Rightarrow> plugin list \<Rightarrow> string list" where
  "wanted_names filt ps =
     (if filt = [] then map plName (filter (\<lambda>p. plAvailableVersion p \<noteq> ''local'') ps)
      else filter (\<lambda>n. list_ex (\<lambda>p. plName p = hd (split_on (CHR ''@'') n) \<and> plAvailableVersion p \<noteq> ''local'') ps) filt)"

text \<open>Only an answer that cannot be decoded is an error; a request that fails is printed and the local list is used.\<close>

definition prop_List :: "plugins_env \<Rightarrow> disk \<Rightarrow> bool \<Rightarrow> string list \<Rightarrow> local_manager \<Rightarrow> (goerr + plugin list) \<times> local_manager" where
  "prop_List env fs latest filt m =
     (case lm_List env fs latest filt m of (ps, m') \<Rightarrow>
      (if \<not> latest then (Inr ps, m')
       else (let names = wanted_names filt ps in
         if names = [] then (Inr ps, m')
         else (case onlineList env names of
             Decoded (Inl e) \<Rightarrow> (Inl e, m')
           | Decoded (Inr os) \<Rightarrow> (Inr (map (\<lambda>p. fold online_update os p) ps), m')
           | _ \<Rightarrow> (Inr ps, m')))))"

text \<open>
  Downloading one file: the file is opened for writing, so it exists as soon as the server answered; a copy that breaks off leaves what
  had arrived. The files of a plugin are downloaded in turn until one fails.
\<close>

definition downloadBinary :: "plugins_env \<Rightarrow> string \<Rightarrow> string \<Rightarrow> disk \<Rightarrow> error \<times> disk" where
  "downloadBinary env binary version fs =
     (let path = Join [downloadDir env, binary];
          save = (\<lambda>d. fs(path \<mapsto> \<lparr>fData = d @ drop (length d) (case fs path of None \<Rightarrow> [] | Some f \<Rightarrow> fData f), fIsDir = False, fTime = 0\<rparr>))
      in case downloads env binary (if version = [] then ''latest'' else version) of
           DlFailed e \<Rightarrow> (Some (Wrapf (''Failed to download '' @ binary) e), fs)
         | DlSaved d \<Rightarrow> (None, save d)
         | DlBroken d e \<Rightarrow> (Some (Wrapf (''Failed to save '' @ binary) e), save d))"

fun download_files :: "plugins_env \<Rightarrow> string \<Rightarrow> binary list \<Rightarrow> disk \<Rightarrow> error \<times> disk" where
  "download_files env version [] fs = (None, fs)"
| "download_files env version (b # bs) fs =
     (case downloadBinary env (bName b) version fs of
        (Some e, fs') \<Rightarrow> (Some e, fs')
      | (None, fs') \<Rightarrow> download_files env version bs fs')"

definition download_plugin :: "plugins_env \<Rightarrow> string \<Rightarrow> plugin \<Rightarrow> disk \<Rightarrow> plugin_event list \<times> disk" where
  "download_plugin env name p fs =
     (let label = name @ '' ('' @ plAvailableVersion p @ '')'' in
      case download_files env (plAvailableVersion p) (plBinaries p @ plLibraries p) fs of
        (Some e, fs') \<Rightarrow> ([Msg (''Downloading plugin '' @ label @ ''...''), Msg (err_text e), Msg (''Will try a local version of '' @ name @ '' if available'')], fs')
      | (None, fs') \<Rightarrow> ([Msg (''Downloading plugin '' @ label @ ''...''), Msg (''Downloaded plugin '' @ label)], fs'))"

text \<open>The loop that starts the downloads: what is sent, the plugins to install, and the disk once all downloads have ended.\<close>

fun download_loop :: "plugins_env \<Rightarrow> plugin list \<Rightarrow> string list \<Rightarrow> disk \<Rightarrow> plugin_event list \<times> string list \<times> disk" where
  "download_loop env ps [] fs = ([], [], fs)"
| "download_loop env ps (n # ns) fs =
     (let name = hd (split_on (CHR ''@'') n) in
      case by_name (filter (\<lambda>p. plStatus p \<noteq> UNKNOWN) ps) name of
        None \<Rightarrow> (case download_loop env ps ns fs of (evs, todo, fs') \<Rightarrow> (Failed (Errorf (''Plugin '' @ name @ '' is not available'')) # evs, todo, fs'))
      | Some p \<Rightarrow>
        if plStatus p = INSTALLED
        then (case download_loop env ps ns fs of (evs, todo, fs') \<Rightarrow> (Msg (''Plugin '' @ name @ '' is already installed'') # evs, todo, fs'))
        else if plAvailableVersion p = ''local''
        then (case download_loop env ps ns fs of (evs, todo, fs') \<Rightarrow> (evs, name # todo, fs'))
        else (case download_plugin env name p fs of (evs1, fs1) \<Rightarrow>
             (case download_loop env ps ns fs1 of (evs, todo, fs') \<Rightarrow> (evs1 @ evs, name # todo, fs'))))"

text \<open>The error of \<open>List\<close> is sent before the channel has been returned to anyone who could receive it: the call does not return.\<close>

definition prop_Install :: "plugins_env \<Rightarrow> string list \<Rightarrow> local_manager \<Rightarrow> disk \<Rightarrow> (plugin_event list \<times> local_manager \<times> disk) option" where
  "prop_Install env names m fs =
     (case prop_List env fs True names m of
        (Inl e, _) \<Rightarrow> None
      | (Inr ps, m1) \<Rightarrow>
        (case download_loop env ps names fs of (evs1, todo, fs1) \<Rightarrow>
         (case lm_Install env todo (m1\<lparr>searchPath := searchPath m1 @ '':'' @ downloadDir env\<rparr>) fs1 of
            (evs2, m2, fs2) \<Rightarrow> Some (evs1 @ evs2, m2, fs2))))"

section \<open>What being installed means\<close>

lemma SyncVersion_fields [simp]:
  "plStatus (SyncVersion env p) = plStatus p" "plName (SyncVersion env p) = plName p"
  "plLibraries (SyncVersion env p) = plLibraries p" "plBinaries (SyncVersion env p) = plBinaries p"
  by (simp_all add: SyncVersion.simps Let_def)

lemma sync_files_found: "fst (sync_files env fs dir bs) = length (filter (\<lambda>b. regular fs (file_path dir b)) bs)"
  by (induction bs) (auto simp: regular_def split: prod.splits option.splits)

lemma sync_files_paths: "map (file_path dir') (snd (snd (sync_files env fs dir bs))) = map (file_path dir') bs"
  "map bName (snd (snd (sync_files env fs dir bs))) = map bName bs"
  by (induction bs) (auto simp: file_path_def split: prod.splits option.splits)

lemma sync_files_missing:
  "fst (sync_files env fs dir bs) < length bs \<longleftrightarrow> \<not> list_all (\<lambda>b. regular fs (file_path dir b)) bs"
  unfolding sync_files_found by (induction bs) (auto simp: less_Suc_eq_le)

lemma SyncInstalled_status:
  "plStatus p = UNKNOWN \<Longrightarrow> plStatus (SyncInstalled env fs p) =
     (if list_all (regular fs) (LibraryPaths env p @ BinaryPaths env p) then INSTALLED else UNKNOWN)"
  using sync_files_missing [of env fs "LibDir env" "plLibraries p"] sync_files_missing [of env fs "BinDir env" "plBinaries p"]
  by (auto simp: SyncInstalled_def LibraryPaths_def BinaryPaths_def list_all_iff Let_def split: prod.splits)

lemma SyncInstalled_paths [simp]:
  "LibraryPaths env (SyncInstalled env fs p) = LibraryPaths env p" "BinaryPaths env (SyncInstalled env fs p) = BinaryPaths env p"
  "plName (SyncInstalled env fs p) = plName p"
  using sync_files_paths(1) [of "LibDir env" env fs "LibDir env" "plLibraries p"]
    sync_files_paths(1) [of "BinDir env" env fs "BinDir env" "plBinaries p"]
  by (auto simp: SyncInstalled_def LibraryPaths_def BinaryPaths_def Let_def split: prod.splits)

lemma SyncInstalled_names [simp]:
  "map bName (plLibraries (SyncInstalled env fs p)) = map bName (plLibraries p)"
  "map bName (plBinaries (SyncInstalled env fs p)) = map bName (plBinaries p)"
  using sync_files_paths(2) [of env fs "LibDir env" "plLibraries p"] sync_files_paths(2) [of env fs "BinDir env" "plBinaries p"]
  by (auto simp: SyncInstalled_def Let_def split: prod.splits)

lemma Registry_names: "distinct (map plName Registry)"
  by (simp add: Registry_def entry_def)

lemma Registry_entry: "p \<in> set Registry \<Longrightarrow> plStatus p = UNKNOWN \<and> plType p \<noteq> UNIMPLEMENTED"
  by (auto simp: Registry_def entry_def)

lemma find_Registry: "p \<in> set Registry \<Longrightarrow> List.find (\<lambda>q. plName q = plName p) Registry = Some p"
proof -
  have "distinct (map plName ps) \<Longrightarrow> p \<in> set ps \<Longrightarrow> List.find (\<lambda>q. plName q = plName p) ps = Some p" for ps
    by (induction ps) auto
  then show "p \<in> set Registry \<Longrightarrow> ?thesis" using Registry_names by blast
qed

lemma lm_IsInstalled_paths:
  assumes "p \<in> set Registry"
  shows "lm_IsInstalled env fs (plName p) \<longleftrightarrow> list_all (regular fs) (LibraryPaths env p @ BinaryPaths env p)"
  using SyncInstalled_status [of p env fs] Registry_entry [OF assms]
  by (simp add: lm_IsInstalled_def lm_Get_def find_Registry [OF assms] IsInstalled_def)

section \<open>The list of plugins\<close>

lemma latest_entry_fields [simp]:
  "plName (fst (latest_entry env fs p m)) = plName p"
  "plLibraries (fst (latest_entry env fs p m)) = plLibraries p"
  "plBinaries (fst (latest_entry env fs p m)) = plBinaries p"
  by (auto simp: latest_entry_def Let_def split: plugin_status.splits)

lemma list_registry_member:
  "q \<in> set (fst (list_registry env fs latest names ps m)) \<Longrightarrow>
   \<exists>p\<in>set ps. plName q = plName p \<and> LibraryPaths env q = LibraryPaths env p \<and> BinaryPaths env q = BinaryPaths env p
     \<and> map bName (plLibraries q) = map bName (plLibraries p) \<and> map bName (plBinaries q) = map bName (plBinaries p)"
proof (induction ps arbitrary: m)
  case (Cons p ps)
  show ?case
  proof (cases "plType p = UNIMPLEMENTED \<or> (names \<noteq> [] \<and> plName p \<notin> set names)")
    case True
    then show ?thesis using Cons.IH [of m] Cons.prems by auto
  next
    case False
    let ?q = "SyncInstalled env fs p"
    let ?e = "if latest then latest_entry env fs ?q m else (?q, m)"
    have e: "plName (fst ?e) = plName p" "LibraryPaths env (fst ?e) = LibraryPaths env p" "BinaryPaths env (fst ?e) = BinaryPaths env p"
      "map bName (plLibraries (fst ?e)) = map bName (plLibraries p)" "map bName (plBinaries (fst ?e)) = map bName (plBinaries p)"
      using SyncInstalled_paths [of env fs p] by (auto simp: LibraryPaths_def BinaryPaths_def)
    have "q = fst ?e \<or> q \<in> set (fst (list_registry env fs latest names ps (snd ?e)))"
      using Cons.prems False by (auto simp: Let_def split: prod.splits)
    then show ?thesis using Cons.IH [of "snd ?e"] e by auto
  qed
qed simp

lemma by_name_Some: "by_name ps n = Some p \<Longrightarrow> p \<in> set ps \<and> plName p = n"
  by (auto simp: by_name_def find_Some_iff) (metis nth_mem set_rev length_rev)

section \<open>Installing and removing\<close>

lemma remove_file_regular: "dest \<noteq> path \<Longrightarrow> snd (remove_file env dest fs) path = fs path"
  by (auto simp: remove_file_def split: option.splits)

lemma install_step:
  assumes "regular fs src" and "copy_file env src dest (snd (remove_file env dest fs)) = (None, fs')"
  shows "regular fs' dest" and "regular fs path \<Longrightarrow> regular fs' path"
proof -
  let ?r = "snd (remove_file env dest fs)"
  obtain f where f: "?r src = Some f" "fs' = ?r(dest \<mapsto> f)"
    using assms(2) by (auto simp: copy_file_def split: option.splits prod.splits if_splits)
  have "\<not> fIsDir f" using assms(1) f(1) by (auto simp: regular_def remove_file_def split: option.splits if_splits)
  then show d: "regular fs' dest" using f(2) by (simp add: regular_def)
  show "regular fs' path" if "regular fs path"
    using that d f(2) remove_file_regular [of dest path env fs] by (cases "path = dest") (auto simp: regular_def)
qed

lemma install_files_ok:
  assumes "install_files env name src dir bs err fs = (None, fs')"
  shows "err = None" and "list_all (\<lambda>b. regular fs' (file_path dir b)) bs" and "\<And>path. regular fs path \<Longrightarrow> regular fs' path"
proof -
  have "err = None \<and> list_all (\<lambda>b. regular fs' (file_path dir b)) bs \<and> (\<forall>path. regular fs path \<longrightarrow> regular fs' path)"
    using assms
  proof (induction env name src dir bs err fs rule: install_files.induct)
    case (2 env name src dir b bs err fs)
    have r: "regular fs (Join [src, bName b])" using 2(2) by (auto split: if_splits)
    then obtain fs1 where c: "copy_file env (Join [src, bName b]) (file_path dir b) (snd (remove_file env (file_path dir b) fs)) = (None, fs1)"
      and rest: "install_files env name src dir bs err fs1 = (None, fs')"
      using 2(2) by (auto split: prod.splits option.splits)
    show ?case
      using "2.IH" [of None fs1] r c rest install_step [OF r c] by auto
  qed simp
  then show "err = None" and "list_all (\<lambda>b. regular fs' (file_path dir b)) bs" and "\<And>path. regular fs path \<Longrightarrow> regular fs' path" by auto
qed

text \<open>
  C38: Installing installs. When the local manager counts a plugin as installed, all its files are in place, so the plugin is from then on
  reported as installed.
\<close>

theorem lm_Install_installs:
  assumes "lm_Install env [n] m fs = (evs, m', fs')" and "Counted \<in> set evs"
  shows "lm_IsInstalled env fs' (name_only n)"
proof -
  obtain ps where l: "lm_List env fs True [n] m = (ps, m')"
    and i: "install_loop env m' ps [n] fs = (evs, fs')"
    using assms(1) by (auto simp: lm_Install_def split: prod.splits)
  obtain p where p: "by_name ps (name_only n) = Some p" and ip: "install_plugin env m' (name_only n) p fs = (None, fs')"
    using i assms(2) by (auto simp: Let_def split: if_splits option.splits prod.splits)
  obtain q where q: "q \<in> set Registry" "plName p = plName q" "LibraryPaths env p = LibraryPaths env q" "BinaryPaths env p = BinaryPaths env q"
    using list_registry_member [of p env fs True "[name_only n]" Registry m] by_name_Some [OF p] l by (auto simp: lm_List_def)
  obtain src fs1 where s: "install_files env (name_only n) src (LibDir env) (plLibraries p) None fs = (None, fs1)"
    "install_files env (name_only n) src (BinDir env) (plBinaries p) None fs1 = (None, fs')"
    using ip install_files_ok(1) by (auto simp: install_plugin_def Let_def split: prod.splits) metis
  have "list_all (regular fs') (LibraryPaths env p @ BinaryPaths env p)"
    using install_files_ok(2) [OF s(1)] install_files_ok(2,3) [OF s(2)] by (auto simp: LibraryPaths_def BinaryPaths_def list_all_iff)
  then show ?thesis using lm_IsInstalled_paths [OF q(1)] q by_name_Some [OF p] by simp
qed

lemma remove_files_disk: "snd (remove_files env name dir bs err fs) = snd (remove_files env name dir bs None fs)"
  by (induction bs arbitrary: fs) (auto split: prod.splits option.splits)

lemma remove_files_sticky: "fst (remove_files env name dir bs (Some e) fs) \<noteq> None"
  by (induction bs arbitrary: fs) (auto split: prod.splits option.splits)

text \<open>
  One failed removal fails all later ones. The removal goes on deleting the files of the remaining plugins exactly as it would have done,
  but none of them is reported as removed any more.
\<close>

theorem remove_error_sticks:
  "Counted \<notin> set (fst (remove_loop env ps names (Some e) fs))
   \<and> snd (remove_loop env ps names (Some e) fs) = snd (remove_loop env ps names None fs)"
proof (induction names arbitrary: e fs)
  case (Cons n ns)
  show ?case
  proof (cases "by_name ps (trim_space n)")
    case None
    then show ?thesis using Cons.IH [of e fs] by (auto simp: Let_def split: prod.splits)
  next
    case (Some p)
    let ?rl = "\<lambda>err. remove_files env (trim_space n) (LibDir env) (plLibraries p) err fs"
    obtain f1 d1 where l': "?rl None = (f1, d1)" by fastforce
    let ?rb = "\<lambda>err. remove_files env (trim_space n) (BinDir env) (plBinaries p) err d1"
    obtain e1 where l: "?rl (Some e) = (Some e1, d1)"
      using remove_files_sticky [of env _ _ _ e fs] remove_files_disk [where err = "Some e"] l' by (metis option.exhaust_sel prod.collapse snd_conv)
    obtain f2 d2 where b': "?rb f1 = (f2, d2)" by fastforce
    obtain e2 where b: "?rb (Some e1) = (Some e2, d2)"
      using remove_files_sticky [of env _ _ _ e1 d1] remove_files_disk [where err = "Some e1" and fs = d1] remove_files_disk [where err = f1 and fs = d1] b'
      by (metis option.exhaust_sel prod.collapse snd_conv)
    have rest: "snd (remove_loop env ps ns (Some e2) d) = snd (remove_loop env ps ns f2 d)" for d
      using Cons.IH [of e2 d] Cons.IH [of "the f2" d] by (cases f2) auto
    show ?thesis
    proof (cases "trim_space n = [] \<or> plStatus p \<noteq> INSTALLED")
      case True
      then show ?thesis using Some Cons.IH [of e fs] by (auto simp: Let_def split: prod.splits)
    next
      case False
      have 1: "remove_loop env ps (n # ns) (Some e) fs =
          (Msg (''Removing '' @ trim_space n @ ''...'') # Failed e2 # fst (remove_loop env ps ns (Some e2) d2),
           snd (remove_loop env ps ns (Some e2) d2))"
        using False Some l b by (simp add: Let_def split: prod.splits)
      have 2: "snd (remove_loop env ps (n # ns) None fs) = snd (remove_loop env ps ns f2 d2)"
        using False Some by (subst remove_loop.simps) (simp add: Let_def l' b' split: prod.splits option.splits)
      show ?thesis unfolding 1 2 using Cons.IH [of e2] rest by simp
    qed
  qed
qed simp

section \<open>Searching and downloading\<close>

lemma Registry_name_only: "p \<in> set Registry \<Longrightarrow> name_only (plName p) = plName p \<and> trim_space (plName p) \<noteq> [] \<and> hd (split_on (CHR ''@'') (plName p)) = plName p"
proof -
  have "list_all (\<lambda>p. name_only (plName p) = plName p \<and> trim_space (plName p) \<noteq> [] \<and> hd (split_on (CHR ''@'') (plName p)) = plName p) Registry"
    by code_simp
  then show "p \<in> set Registry \<Longrightarrow> ?thesis" by (auto simp: list_all_iff)
qed

lemma list_registry_none: "plName p \<notin> plName ` set ps \<Longrightarrow> list_registry env fs latest [plName p] ps m = ([], m)"
  by (induction ps) auto

lemma list_registry_one:
  "p \<in> set ps \<Longrightarrow> distinct (map plName ps) \<Longrightarrow> plType p \<noteq> UNIMPLEMENTED \<Longrightarrow> list_registry env fs True [plName p] ps m =
     ([fst (latest_entry env fs (SyncInstalled env fs p) m)], snd (latest_entry env fs (SyncInstalled env fs p) m))"
proof (induction ps)
  case (Cons q ps)
  show ?case
  proof (cases "q = p")
    case True
    then have "plName p \<notin> plName ` set ps" using Cons.prems by auto
    then have "list_registry env fs True [plName p] ps m' = ([], m')" for m' by (rule list_registry_none)
    then show ?thesis using True Cons.prems by (simp add: Let_def split: prod.splits)
  next
    case False
    then have "p \<in> set ps" "plName q \<noteq> plName p" using Cons.prems by auto
    then show ?thesis using Cons by simp
  qed
qed simp

lemma lm_List_one:
  assumes "p \<in> set Registry"
  shows "lm_List env fs True [plName p] m =
     ([fst (latest_entry env fs (SyncInstalled env fs p) m)], snd (latest_entry env fs (SyncInstalled env fs p) m))"
  using list_registry_one [OF assms Registry_names] Registry_entry [OF assms] Registry_name_only [OF assms] by (simp add: lm_List_def)

lemma search_dir_name: "bName b = bName b' \<Longrightarrow> search_dir m fs b = search_dir m fs b'"
  by (simp add: search_dir_def)

lemma search_found: "sFound (fold (search_step env m fs) bs s) = sFound s + length (filter (\<lambda>b. search_dir m fs b \<noteq> None) bs)"
  by (induction bs arbitrary: s) (auto simp: search_step_def Let_def split: option.splits)

lemma search_last: "bs \<noteq> [] \<Longrightarrow> search_dir m fs (last bs) = Some d \<Longrightarrow> sDir (search env m fs bs) = d"
  by (cases bs rule: rev_cases) (simp_all add: search_def search_step_def Let_def)

lemma names_filter:
  assumes "map bName bs = map bName bs'"
  shows "length (filter (\<lambda>b. search_dir m fs b \<noteq> None) bs) = length (filter (\<lambda>b. search_dir m fs b \<noteq> None) bs')"
proof -
  have "length (filter (\<lambda>b. search_dir m fs b \<noteq> None) cs) =
      length (filter (\<lambda>n. List.find (\<lambda>path. regular fs (Join [path, n])) (split_on (CHR '':'') (searchPath m)) \<noteq> None) (map bName cs))" for cs
    by (induction cs) (auto simp: search_dir_def)
  then show ?thesis using assms by metis
qed

lemma names_last: "map bName bs = map bName bs' \<Longrightarrow> bs \<noteq> [] \<Longrightarrow> bName (last bs) = bName (last bs')"
  by (metis last_map list.map_disc_iff)

text \<open>A plugin that is not installed and whose files are all found is listed as available, from the directory of its last file.\<close>

lemma latest_available:
  assumes p: "p \<in> set Registry" and "\<not> lm_IsInstalled env fs (plName p)"
    and found: "list_all (\<lambda>b. search_dir m fs b \<noteq> None) (plLibraries p @ plBinaries p)"
    and last: "plLibraries p @ plBinaries p \<noteq> []" "search_dir m fs (last (plLibraries p @ plBinaries p)) = Some d"
  shows "plStatus (fst (latest_entry env fs (SyncInstalled env fs p) m)) = AVAILABLE
    \<and> map_of (srcDir (snd (latest_entry env fs (SyncInstalled env fs p) m))) (plName p) = Some d"
proof -
  let ?q = "SyncInstalled env fs p"
  let ?fs = "plLibraries ?q @ plBinaries ?q" and ?gs = "plLibraries p @ plBinaries p"
  have n: "map bName ?fs = map bName ?gs" by simp
  have "length ?fs = length ?gs" using n by (metis length_map)
  moreover have "sFound (search env m fs ?fs) = length ?gs"
    using found names_filter [OF n, of m fs] by (simp add: search_def search_found list_all_iff)
  ultimately have all: "sFound (search env m fs ?fs) = length ?fs" by simp
  have ne: "?fs \<noteq> []" using last(1) \<open>length ?fs = length ?gs\<close> by (metis length_0_conv)
  have d: "sDir (search env m fs ?fs) = d"
    using search_last [OF ne] search_dir_name [OF names_last [OF n ne], of m fs] last(2) by simp
  have "plStatus ?q = UNKNOWN"
    using assms(2) lm_IsInstalled_paths [OF p] SyncInstalled_status [of p env fs] Registry_entry [OF p] by simp
  then show ?thesis using all d by (simp add: latest_entry_def Let_def update_conv)
qed

lemma copy_file_other: "path \<noteq> dest \<Longrightarrow> snd (copy_file env src dest (snd (remove_file env dest fs))) path = fs path"
  by (auto simp: copy_file_def remove_file_def split: option.splits prod.splits)

lemma install_files_missing:
  "l \<in> set bs \<Longrightarrow> \<not> regular fs (Join [src, bName l]) \<Longrightarrow> Join [src, bName l] \<notin> file_path dir ` set bs \<Longrightarrow>
   fst (install_files env name src dir bs err fs) \<noteq> None"
proof (induction bs arbitrary: fs)
  case (Cons b bs)
  obtain e fs' where c: "copy_file env (Join [src, bName b]) (file_path dir b) (snd (remove_file env (file_path dir b) fs)) = (e, fs')"
    by fastforce
  have "\<not> regular fs' (Join [src, bName l])"
    using copy_file_other [of "Join [src, bName l]" "file_path dir b" env "Join [src, bName b]" fs] c Cons.prems by (auto simp: regular_def)
  then show ?case using Cons c by (cases "l = b") (auto split: option.splits)
qed simp

text \<open>
  A plugin spread over the search path cannot be installed. When the files of a plugin are found in different directories, the manager
  lists it as available, but installs all of them from the directory of the last one, so the installation fails.
\<close>

theorem split_search_path:
  assumes p: "p \<in> set Registry" and ni: "\<not> lm_IsInstalled env fs (plName p)"
    and found: "list_all (\<lambda>b. search_dir m fs b \<noteq> None) (plLibraries p @ plBinaries p)"
    and d: "search_dir m fs (last (plLibraries p @ plBinaries p)) = Some d"
    and l: "l \<in> set (plLibraries p)" "\<not> regular fs (Join [d, bName l])" "Join [d, bName l] \<notin> set (LibraryPaths env p)"
  shows "map plStatus (fst (lm_List env fs True [plName p] m)) = [AVAILABLE]
    \<and> Counted \<notin> set (fst (lm_Install env [plName p] m fs)) \<and> (\<exists>e. Failed e \<in> set (fst (lm_Install env [plName p] m fs)))"
proof -
  let ?q = "fst (latest_entry env fs (SyncInstalled env fs p) m)" and ?m = "snd (latest_entry env fs (SyncInstalled env fs p) m)"
  have ne: "plLibraries p @ plBinaries p \<noteq> []" using l(1) by auto
  have s: "plStatus ?q = AVAILABLE" "map_of (srcDir ?m) (plName p) = Some d"
    using latest_available [OF p ni found ne d] by simp_all
  have lib: "map bName (plLibraries ?q) = map bName (plLibraries p)" "map (file_path (LibDir env)) (plLibraries ?q) = LibraryPaths env p"
    using SyncInstalled_paths(1) [of env fs p] by (simp_all add: LibraryPaths_def)
  have "bName l \<in> set (map bName (plLibraries ?q))" unfolding lib(1) using l(1) by simp
  then obtain l' where l': "l' \<in> set (plLibraries ?q)" "bName l' = bName l"
    by (auto simp del: SyncInstalled_names)
  have "file_path (LibDir env) ` set (plLibraries ?q) = set (LibraryPaths env p)" using lib(2) by (metis list.set_map)
  then have "fst (install_files env (plName p) d (LibDir env) (plLibraries ?q) None fs) \<noteq> None"
    using install_files_missing [OF l'(1)] l l'(2) by simp
  then obtain e1 fs1 where i1: "install_files env (plName p) d (LibDir env) (plLibraries ?q) None fs = (Some e1, fs1)"
    by (metis option.exhaust prod.collapse)
  have "fst (install_files env (plName p) d (BinDir env) (plBinaries ?q) (Some e1) fs1) \<noteq> None"
    using install_files_ok(1) by (metis option.distinct(1) prod.collapse)
  then obtain e fs' where "install_files env (plName p) d (BinDir env) (plBinaries ?q) (Some e1) fs1 = (Some e, fs')"
    by (metis option.exhaust prod.collapse)
  then have i: "install_plugin env ?m (plName p) ?q fs = (Some e, fs')" using s(2) i1 by (simp add: install_plugin_def)
  have n: "name_only (plName p) = plName p" "trim_space (plName p) \<noteq> []" using Registry_name_only [OF p] by simp_all
  have "lm_Install env [plName p] m fs = ([Msg (''Installing plugin '' @ plName p @ ''...''), Failed e], ?m, fs')"
    using i n s(1) by (simp add: lm_Install_def lm_List_one [OF p] by_name_def Let_def)
  then show ?thesis using s(1) lm_List_one [OF p] by simp
qed

lemma broken_download:
  assumes "downloads env n v = DlBroken d e" and "v \<noteq> []" and "fs (Join [downloadDir env, n]) = None"
  shows "\<exists>e'. downloadBinary env n v fs = (Some e', fs(Join [downloadDir env, n] \<mapsto> \<lparr>fData = d, fIsDir = False, fTime = 0\<rparr>))"
  using assms by (simp add: downloadBinary_def Let_def)

text \<open>
  C39: A broken download of the CRIU plugin is installed. Let the plugin \<open>criu\<close>, whose only file is one binary, be neither installed nor on the search path, let
  the online list offer a version of it, and let the connection end in the middle of the download. The manager announces that it will try a local
  version, but the part that had arrived lies in the download directory, which is then on the search path: this part is copied to the directory of binaries, and
  the plugin is counted as installed.
\<close>

theorem broken_download_installed:
  assumes absent: "\<forall>path\<in>set (split_on (CHR '':'') (searchPath m)). \<not> regular fs (Join [path, ''criu''])"
    and "CHR '':'' \<notin> set (downloadDir env)" and ni: "\<not> regular fs (Join [BinDir env, ''criu''])"
    and dl: "fs (Join [downloadDir env, ''criu'']) = None" "Join [downloadDir env, ''criu''] \<noteq> Join [BinDir env, ''criu'']"
    and online: "onlineList env [''criu''] = Decoded (Inr [x])" "plName x = ''criu''" "plAvailableVersion x = v" "v \<noteq> ''local''" "v \<noteq> []"
    and broken: "downloads env ''criu'' v = DlBroken d e"
    and copies: "\<And>src dest. CopyFile (fst (copyFaults env src dest)) = None"
  shows "\<exists>evs m' fs' f. prop_Install env [''criu''] m fs = Some (evs, m', fs') \<and> Counted \<in> set evs
    \<and> fs' (Join [BinDir env, ''criu'']) = Some f \<and> fData f = d"
proof -
  let ?p = "entry ''criu'' EXTERNAL [] [at_dir [] ''criu'']"
  let ?dl = "Join [downloadDir env, ''criu'']" and ?bin = "Join [BinDir env, ''criu'']"
  let ?f = "\<lparr>fData = d, fIsDir = False, fTime = 0\<rparr>" let ?fs = "fs(?dl \<mapsto> ?f)"
  have p: "?p \<in> set Registry" "plName ?p = ''criu''" by (simp_all add: Registry_def entry_def)
  have q: "SyncInstalled env g ?p = ?p" if "\<not> regular g ?bin" for g
    using that by (auto simp: SyncInstalled_def entry_def at_dir_def file_path_def regular_def split: option.splits)
  have none: "search_dir m fs (at_dir [] ''criu'') = None" using absent by (auto simp: search_dir_def at_dir_def find_None_iff)
  have l0: "lm_List env fs True [''criu''] m = ([?p], m)"
    using lm_List_one [OF p(1), of env fs m] q [OF ni] none p(2) by (simp add: latest_entry_def entry_def search_def search_step_def)
  have pl: "prop_List env fs True [''criu''] m = (Inr [?p\<lparr>plAvailableVersion := v, plSize := plSize x, plPublishedAt := plPublishedAt x, plStatus := AVAILABLE\<rparr>], m)"
    using online by (simp add: prop_List_def l0 wanted_names_def entry_def online_update_def)
  obtain e' where e': "downloadBinary env ''criu'' v fs = (Some e', ?fs)"
    using broken_download [of env "''criu''" v d e fs] broken online(5) dl(1) by blast
  have dlo: "\<exists>evs. download_loop env [?p\<lparr>plAvailableVersion := v, plSize := plSize x, plPublishedAt := plPublishedAt x, plStatus := AVAILABLE\<rparr>] [''criu''] fs = (evs, [''criu''], ?fs)"
    using e' online(4) by (simp add: by_name_def entry_def download_plugin_def at_dir_def Let_def)
  let ?m = "m\<lparr>searchPath := searchPath m @ '':'' @ downloadDir env\<rparr>"
  have dirs: "split_on (CHR '':'') (searchPath ?m) = split_on (CHR '':'') (searchPath m) @ [downloadDir env]"
    using assms(2) split_on_no_sep by (simp add: split_on_cat)
  obtain d' where d': "search_dir ?m ?fs (at_dir [] ''criu'') = Some d'"
    using dirs by (cases "search_dir ?m ?fs (at_dir [] ''criu'')") (auto simp: search_dir_def find_None_iff at_dir_def regular_def)
  then have d'_dl: "Join [d', ''criu''] = ?dl"
    using dirs absent by (auto simp: search_dir_def find_Some_iff at_dir_def regular_def nth_append split: if_splits)
  have ni': "\<not> regular ?fs ?bin" using ni dl(2) by (simp add: regular_def)
  have av: "plStatus (fst (latest_entry env ?fs ?p ?m)) = AVAILABLE" "map_of (srcDir (snd (latest_entry env ?fs ?p ?m))) ''criu'' = Some d'"
    using latest_available [OF p(1), of env ?fs ?m d'] d' ni' q [OF ni'] p(2) lm_IsInstalled_paths [OF p(1), of env ?fs]
    by (simp_all add: entry_def LibraryPaths_def BinaryPaths_def file_path_def at_dir_def)
  have bins: "plBinaries (fst (latest_entry env ?fs ?p ?m)) = [at_dir [] ''criu'']" "plLibraries (fst (latest_entry env ?fs ?p ?m)) = []"
    "plName (fst (latest_entry env ?fs ?p ?m)) = ''criu''"
    by (simp_all add: entry_def)
  have rm: "snd (remove_file env ?bin ?fs) ?dl = Some ?f" using dl(2) remove_file_regular [of ?bin ?dl env ?fs] by simp
  then have ip: "\<exists>fs'. install_plugin env (snd (latest_entry env ?fs ?p ?m)) ''criu'' (fst (latest_entry env ?fs ?p ?m)) ?fs = (None, fs') \<and> fs' ?bin = Some ?f"
    using av(2) bins copies [of ?dl ?bin] d'_dl
    by (auto simp: install_plugin_def file_path_def at_dir_def regular_def copy_file_def split: prod.splits)
  have n: "name_only ''criu'' = ''criu''" "trim_space ''criu'' \<noteq> []" using Registry_name_only [OF p(1)] p(2) by auto
  have l1: "lm_List env ?fs True [''criu''] ?m = ([fst (latest_entry env ?fs ?p ?m)], snd (latest_entry env ?fs ?p ?m))"
    using lm_List_one [OF p(1), of env ?fs ?m] q [OF ni'] p(2) by simp
  obtain evs1 where "download_loop env [?p\<lparr>plAvailableVersion := v, plSize := plSize x, plPublishedAt := plPublishedAt x, plStatus := AVAILABLE\<rparr>] [''criu''] fs = (evs1, [''criu''], ?fs)"
    using dlo by blast
  then show ?thesis
    using ip av(1) bins n pl l1 by (auto simp: prop_Install_def lm_Install_def by_name_def Let_def)
qed

section \<open>Witnesses\<close>

definition small_machine :: plugins_env where
  "small_machine = \<lparr>LibDir = ''/l'', BinDir = ''/b'', md5 = (\<lambda>d. d), versionSyms = [], versionOut = (\<lambda>_. None),
     copyFaults = (\<lambda>_ _. (\<lparr>cpOpen = None, cpCreate = None, cpStat = None, cpChmod = None, cpCopy = None\<rparr>, 0)), removeErr = (\<lambda>_. None),
     onlineList = (\<lambda>_. Decoded (Inr [entry ''criu'' EXTERNAL [] []\<lparr>plAvailableVersion := ''v4''\<rparr>])),
     downloads = (\<lambda>_ _. DlBroken ''ELF'' (Errorf ''unexpected EOF'')), downloadDir = ''/d'', positive = (\<lambda>s. s), warning = (\<lambda>s. s)\<rparr>"

definition at_path :: "string list \<Rightarrow> disk" where
  "at_path ps path = (if path \<in> set ps then Some \<lparr>fData = ''ELF'', fIsDir = False, fTime = 0\<rparr> else None)"

theorem lm_Install_installs_witness:
  "lm_IsInstalled small_machine (snd (snd (lm_Install small_machine [''criu''] (NewLocalManager ''/s'' ''/w'') (at_path [''/w/criu''])))) ''criu''"
proof -
  have "Counted \<in> set (fst (lm_Install small_machine [''criu''] (NewLocalManager ''/s'' ''/w'') (at_path [''/w/criu''])))" by code_simp
  moreover have "name_only ''criu'' = ''criu''" by code_simp
  ultimately show ?thesis
    using lm_Install_installs [of small_machine "''criu''" "NewLocalManager ''/s'' ''/w''" "at_path [''/w/criu'']"] by (metis prod.collapse)
qed

theorem split_search_path_witness:
  "map plStatus (fst (lm_List small_machine (at_path [''/s/libcedana-gpu.so'', ''/w/cedana-gpu-controller'']) True [''gpu''] (NewLocalManager ''/s'' ''/w''))) = [AVAILABLE]"
proof -
  let ?p = "entry ''gpu'' EXTERNAL [at_dir [] ''libcedana-gpu.so''] [at_dir [] ''cedana-gpu-controller'']"
  let ?fs = "at_path [''/s/libcedana-gpu.so'', ''/w/cedana-gpu-controller'']" and ?m = "NewLocalManager ''/s'' ''/w''"
  have r: "?p \<in> set Registry" by (simp add: Registry_def)
  have h: "\<not> lm_IsInstalled small_machine ?fs (plName ?p)"
    "list_all (\<lambda>b. search_dir ?m ?fs b \<noteq> None) (plLibraries ?p @ plBinaries ?p)"
    "search_dir ?m ?fs (last (plLibraries ?p @ plBinaries ?p)) = Some ''/w''"
    "\<not> regular ?fs (Join [''/w'', bName (at_dir [] ''libcedana-gpu.so'')])"
    "Join [''/w'', bName (at_dir [] ''libcedana-gpu.so'')] \<notin> set (LibraryPaths small_machine ?p)"
    by code_simp+
  show ?thesis using split_search_path [OF r h(1-3) _ h(4,5)] by (simp add: entry_def)
qed

theorem broken_download_installed_witness:
  "\<exists>evs m' fs' f. prop_Install small_machine [''criu''] (NewLocalManager ''/s'' ''/w'') (\<lambda>_. None) = Some (evs, m', fs') \<and> Counted \<in> set evs
    \<and> fs' (Join [''/b'', ''criu'']) = Some f \<and> fData f = ''ELF''"
proof -
  have j: "Join [''/d'', ''criu''] \<noteq> Join [''/b'', ''criu'']" by code_simp
  show ?thesis
    using broken_download_installed [of "NewLocalManager ''/s'' ''/w''" "\<lambda>_. None" small_machine "entry ''criu'' EXTERNAL [] []\<lparr>plAvailableVersion := ''v4''\<rparr>" "''v4''" "''ELF''" "Errorf ''unexpected EOF''"] j
    by (simp add: small_machine_def regular_def CopyFile_def entry_def)
qed

end
