(* ===== verification/Criu_Notify.thy ===== *)
theory Criu_Notify
  imports Go_Strings
begin

text \<open>
  \<^bold>\<open>pkg/criu/notify*.go\<close>: the \<open>Notify\<close> interface through which CRIU calls back into the
  daemon, its implementation by optional function fields (\<open>NotifyCallback\<close>) and by a
  list of registered callbacks (\<open>NotifyCallbackMulti\<close>). A hook is a function on a state
  type \<open>'s\<close> that stands for everything the callbacks may read or write; CRIU's options are a
  type parameter \<open>'o\<close>. The contexts passed along carry cancellation, and the timing
  calls only fill the profiling tree: neither is part of this state.
\<close>

section \<open>The interface\<close>

type_synonym 's hook = "'s \<Rightarrow> error \<times> 's"
type_synonym 's files_hook = "'s \<Rightarrow> (string list \<times> error) \<times> 's"

record ('o, 's) notify =
  Initialize :: "int \<Rightarrow> 's hook"
  InitializeDump :: "'o \<Rightarrow> 's hook"
  InitializeRestore :: "'o \<Rightarrow> 's hook"
  FinalizeDump :: "'o \<Rightarrow> error \<Rightarrow> 's hook"
  FinalizeRestore :: "'o \<Rightarrow> error \<Rightarrow> 's hook"
  PreDump :: "'o \<Rightarrow> 's hook"
  PostDump :: "'o \<Rightarrow> 's hook"
  PreRestore :: "'o \<Rightarrow> 's hook"
  PostRestore :: "int \<Rightarrow> 's hook"
  NetworkLock :: "'s hook"
  NetworkUnlock :: "'s hook"
  SetupNamespaces :: "int \<Rightarrow> 's hook"
  PostSetupNamespaces :: "'s hook"
  SkipNamespaces :: "int \<Rightarrow> 's hook"
  PreResume :: "'s hook"
  PostResume :: "'s hook"
  OrphanPtsMaster :: "int \<Rightarrow> 's hook"
  QueryExtFiles :: "'s files_hook"

text \<open>The struct with one optional function per hook; \<open>None\<close> is a nil function.\<close>

record ('o, 's) notify_callback =
  InitializeFunc :: "(int \<Rightarrow> 's hook) option"
  InitializeDumpFunc :: "('o \<Rightarrow> 's hook) option"
  InitializeRestoreFunc :: "('o \<Rightarrow> 's hook) option"
  FinalizeDumpFunc :: "('o \<Rightarrow> error \<Rightarrow> 's hook) option"
  FinalizeRestoreFunc :: "('o \<Rightarrow> error \<Rightarrow> 's hook) option"
  PreDumpFunc :: "('o \<Rightarrow> 's hook) option"
  PostDumpFunc :: "('o \<Rightarrow> 's hook) option"
  PreRestoreFunc :: "('o \<Rightarrow> 's hook) option"
  PostRestoreFunc :: "(int \<Rightarrow> 's hook) option"
  NetworkLockFunc :: "('s hook) option"
  NetworkUnlockFunc :: "('s hook) option"
  SetupNamespacesFunc :: "(int \<Rightarrow> 's hook) option"
  PostSetupNamespacesFunc :: "('s hook) option"
  SkipNamespacesFunc :: "(int \<Rightarrow> 's hook) option"
  PreResumeFunc :: "('s hook) option"
  PostResumeFunc :: "('s hook) option"
  OrphanPtsMasterFunc :: "(int \<Rightarrow> 's hook) option"
  QueryExtFilesFunc :: "'s files_hook option"
  cbName :: string

section \<open>NotifyCallback\<close>

text \<open>
  The common body of the methods: a nil function succeeds without touching the state, and
  an error is wrapped with the name of the hook. A panic passes through.
\<close>

definition unless_panic :: "(goerr \<Rightarrow> goerr) \<Rightarrow> goerr \<Rightarrow> goerr" where
  "unless_panic f e = (case e of Panic m \<Rightarrow> Panic m | _ \<Rightarrow> f e)"

definition call_hook :: "string \<Rightarrow> 's hook option \<Rightarrow> 's hook" where
  "call_hook msg f s = (case f of
       None \<Rightarrow> (None, s)
     | Some g \<Rightarrow> (case g s of (Some e, s') \<Rightarrow> (Some (unless_panic (Wrapf msg) e), s') | (None, s') \<Rightarrow> (None, s')))"

definition cb_Initialize :: "('o, 's) notify_callback \<Rightarrow> int \<Rightarrow> 's hook" where
  "cb_Initialize n pid = call_hook ''initialize callback'' (map_option (\<lambda>f. f pid) (InitializeFunc n))"

definition cb_InitializeDump :: "('o, 's) notify_callback \<Rightarrow> 'o \<Rightarrow> 's hook" where
  "cb_InitializeDump n opts = call_hook ''initialize dump callback'' (map_option (\<lambda>f. f opts) (InitializeDumpFunc n))"

definition cb_InitializeRestore :: "('o, 's) notify_callback \<Rightarrow> 'o \<Rightarrow> 's hook" where
  "cb_InitializeRestore n opts = call_hook ''initialize restore callback'' (map_option (\<lambda>f. f opts) (InitializeRestoreFunc n))"

definition cb_FinalizeDump :: "('o, 's) notify_callback \<Rightarrow> 'o \<Rightarrow> error \<Rightarrow> 's hook" where
  "cb_FinalizeDump n opts err = call_hook ''finalize dump callback'' (map_option (\<lambda>f. f opts err) (FinalizeDumpFunc n))"

definition cb_FinalizeRestore :: "('o, 's) notify_callback \<Rightarrow> 'o \<Rightarrow> error \<Rightarrow> 's hook" where
  "cb_FinalizeRestore n opts err = call_hook ''finalize restore callback'' (map_option (\<lambda>f. f opts err) (FinalizeRestoreFunc n))"

definition cb_PreDump :: "('o, 's) notify_callback \<Rightarrow> 'o \<Rightarrow> 's hook" where
  "cb_PreDump n opts = call_hook ''pre-dump callback'' (map_option (\<lambda>f. f opts) (PreDumpFunc n))"

definition cb_PostDump :: "('o, 's) notify_callback \<Rightarrow> 'o \<Rightarrow> 's hook" where
  "cb_PostDump n opts = call_hook ''post-dump callback'' (map_option (\<lambda>f. f opts) (PostDumpFunc n))"

definition cb_PreRestore :: "('o, 's) notify_callback \<Rightarrow> 'o \<Rightarrow> 's hook" where
  "cb_PreRestore n opts = call_hook ''pre-restore callback'' (map_option (\<lambda>f. f opts) (PreRestoreFunc n))"

definition cb_PostRestore :: "('o, 's) notify_callback \<Rightarrow> int \<Rightarrow> 's hook" where
  "cb_PostRestore n pid = call_hook ''post-restore callback'' (map_option (\<lambda>f. f pid) (PostRestoreFunc n))"

definition cb_NetworkLock :: "('o, 's) notify_callback \<Rightarrow> 's hook" where
  "cb_NetworkLock n = call_hook ''network-lock callback'' (NetworkLockFunc n)"

definition cb_NetworkUnlock :: "('o, 's) notify_callback \<Rightarrow> 's hook" where
  "cb_NetworkUnlock n = call_hook ''network-unlock callback'' (NetworkUnlockFunc n)"

definition cb_SetupNamespaces :: "('o, 's) notify_callback \<Rightarrow> int \<Rightarrow> 's hook" where
  "cb_SetupNamespaces n pid = call_hook ''setup-namespaces callback'' (map_option (\<lambda>f. f pid) (SetupNamespacesFunc n))"

definition cb_PostSetupNamespaces :: "('o, 's) notify_callback \<Rightarrow> 's hook" where
  "cb_PostSetupNamespaces n = call_hook ''post-setup-namespaces callback'' (PostSetupNamespacesFunc n)"

definition cb_SkipNamespaces :: "('o, 's) notify_callback \<Rightarrow> int \<Rightarrow> 's hook" where
  "cb_SkipNamespaces n pid = call_hook ''skip-namespaces callback'' (map_option (\<lambda>f. f pid) (SkipNamespacesFunc n))"

definition cb_PreResume :: "('o, 's) notify_callback \<Rightarrow> 's hook" where
  "cb_PreResume n = call_hook ''pre-resume callback'' (PreResumeFunc n)"

definition cb_PostResume :: "('o, 's) notify_callback \<Rightarrow> 's hook" where
  "cb_PostResume n = call_hook ''post-resume callback'' (PostResumeFunc n)"

definition cb_OrphanPtsMaster :: "('o, 's) notify_callback \<Rightarrow> int \<Rightarrow> 's hook" where
  "cb_OrphanPtsMaster n pid = call_hook ''orphan-pts-master callback'' (map_option (\<lambda>f. f pid) (OrphanPtsMasterFunc n))"

definition cb_QueryExtFiles :: "('o, 's) notify_callback \<Rightarrow> 's files_hook" where
  "cb_QueryExtFiles n s = (case QueryExtFilesFunc n of
       None \<Rightarrow> (([], None), s)
     | Some g \<Rightarrow> (case g s of
         ((_, Some e), s') \<Rightarrow> (([], Some (unless_panic (Wrapf ''query-ext-files callback'') e)), s')
       | ((external, None), s') \<Rightarrow> ((external, None), s')))"

text \<open>The method set of \<open>NotifyCallback\<close>, as a value of the interface.\<close>

definition notify_of_callback :: "('o, 's) notify_callback \<Rightarrow> ('o, 's) notify" where
  "notify_of_callback n = \<lparr>
     Initialize = cb_Initialize n,
     InitializeDump = cb_InitializeDump n,
     InitializeRestore = cb_InitializeRestore n,
     FinalizeDump = cb_FinalizeDump n,
     FinalizeRestore = cb_FinalizeRestore n,
     PreDump = cb_PreDump n,
     PostDump = cb_PostDump n,
     PreRestore = cb_PreRestore n,
     PostRestore = cb_PostRestore n,
     NetworkLock = cb_NetworkLock n,
     NetworkUnlock = cb_NetworkUnlock n,
     SetupNamespaces = cb_SetupNamespaces n,
     PostSetupNamespaces = cb_PostSetupNamespaces n,
     SkipNamespaces = cb_SkipNamespaces n,
     PreResume = cb_PreResume n,
     PostResume = cb_PostResume n,
     OrphanPtsMaster = cb_OrphanPtsMaster n,
     QueryExtFiles = cb_QueryExtFiles n\<rparr>"

section \<open>NotifyCallbackMulti\<close>

record ('o, 's) notify_multi =
  callbacks :: "('o, 's) notify list"

definition multi_Include :: "('o, 's) notify_callback option \<Rightarrow> ('o, 's) notify_multi \<Rightarrow> ('o, 's) notify_multi" where
  "multi_Include nfy n = (case nfy of
       None \<Rightarrow> n
     | Some cb \<Rightarrow> n\<lparr>callbacks := callbacks n @ [notify_of_callback cb]\<rparr>)"

definition multi_IncludeMulti :: "('o, 's) notify_multi option \<Rightarrow> ('o, 's) notify_multi \<Rightarrow> ('o, 's) notify_multi" where
  "multi_IncludeMulti nfy n = (case nfy of
       None \<Rightarrow> n
     | Some m \<Rightarrow> n\<lparr>callbacks := callbacks n @ callbacks m\<rparr>)"

text \<open>
  The common loop: from the last registered callback to the first, returning at the
  first error.
\<close>

definition multi_each :: "(('o, 's) notify \<Rightarrow> 's hook) \<Rightarrow> ('o, 's) notify_multi \<Rightarrow> 's hook" where
  "multi_each f n = first_error f (rev (callbacks n))"

definition multi_Initialize :: "('o, 's) notify_multi \<Rightarrow> int \<Rightarrow> 's hook" where
  "multi_Initialize n pid = multi_each (\<lambda>c. Initialize c pid) n"

definition multi_InitializeDump :: "('o, 's) notify_multi \<Rightarrow> 'o \<Rightarrow> 's hook" where
  "multi_InitializeDump n opts = multi_each (\<lambda>c. InitializeDump c opts) n"

definition multi_InitializeRestore :: "('o, 's) notify_multi \<Rightarrow> 'o \<Rightarrow> 's hook" where
  "multi_InitializeRestore n opts = multi_each (\<lambda>c. InitializeRestore c opts) n"

definition multi_FinalizeDump :: "('o, 's) notify_multi \<Rightarrow> 'o \<Rightarrow> error \<Rightarrow> 's hook" where
  "multi_FinalizeDump n opts err = multi_each (\<lambda>c. FinalizeDump c opts err) n"

definition multi_FinalizeRestore :: "('o, 's) notify_multi \<Rightarrow> 'o \<Rightarrow> error \<Rightarrow> 's hook" where
  "multi_FinalizeRestore n opts err = multi_each (\<lambda>c. FinalizeRestore c opts err) n"

definition multi_PreDump :: "('o, 's) notify_multi \<Rightarrow> 'o \<Rightarrow> 's hook" where
  "multi_PreDump n opts = multi_each (\<lambda>c. PreDump c opts) n"

definition multi_PostDump :: "('o, 's) notify_multi \<Rightarrow> 'o \<Rightarrow> 's hook" where
  "multi_PostDump n opts = multi_each (\<lambda>c. PostDump c opts) n"

definition multi_PreRestore :: "('o, 's) notify_multi \<Rightarrow> 'o \<Rightarrow> 's hook" where
  "multi_PreRestore n opts = multi_each (\<lambda>c. PreRestore c opts) n"

definition multi_PostRestore :: "('o, 's) notify_multi \<Rightarrow> int \<Rightarrow> 's hook" where
  "multi_PostRestore n pid = multi_each (\<lambda>c. PostRestore c pid) n"

definition multi_NetworkLock :: "('o, 's) notify_multi \<Rightarrow> 's hook" where
  "multi_NetworkLock n = multi_each (\<lambda>c. NetworkLock c) n"

definition multi_NetworkUnlock :: "('o, 's) notify_multi \<Rightarrow> 's hook" where
  "multi_NetworkUnlock n = multi_each (\<lambda>c. NetworkUnlock c) n"

definition multi_SetupNamespaces :: "('o, 's) notify_multi \<Rightarrow> int \<Rightarrow> 's hook" where
  "multi_SetupNamespaces n pid = multi_each (\<lambda>c. SetupNamespaces c pid) n"

definition multi_PostSetupNamespaces :: "('o, 's) notify_multi \<Rightarrow> 's hook" where
  "multi_PostSetupNamespaces n = multi_each (\<lambda>c. PostSetupNamespaces c) n"

definition multi_SkipNamespaces :: "('o, 's) notify_multi \<Rightarrow> int \<Rightarrow> 's hook" where
  "multi_SkipNamespaces n pid = multi_each (\<lambda>c. SkipNamespaces c pid) n"

definition multi_PreResume :: "('o, 's) notify_multi \<Rightarrow> 's hook" where
  "multi_PreResume n = multi_each (\<lambda>c. PreResume c) n"

definition multi_PostResume :: "('o, 's) notify_multi \<Rightarrow> 's hook" where
  "multi_PostResume n = multi_each (\<lambda>c. PostResume c) n"

definition multi_OrphanPtsMaster :: "('o, 's) notify_multi \<Rightarrow> int \<Rightarrow> 's hook" where
  "multi_OrphanPtsMaster n pid = multi_each (\<lambda>c. OrphanPtsMaster c pid) n"

fun query_files :: "('o, 's) notify list \<Rightarrow> string list \<Rightarrow> 's files_hook" where
  "query_files [] external s = ((external, None), s)"
| "query_files (c # cs) external s = (case QueryExtFiles c s of
       ((_, Some e), s') \<Rightarrow> (([], Some e), s')
     | ((files, None), s') \<Rightarrow> query_files cs (external @ files) s')"

definition multi_QueryExtFiles :: "('o, 's) notify_multi \<Rightarrow> 's files_hook" where
  "multi_QueryExtFiles n = query_files (rev (callbacks n)) []"

text \<open>The method set of \<open>NotifyCallbackMulti\<close>, as a value of the interface.\<close>

definition notify_of_multi :: "('o, 's) notify_multi \<Rightarrow> ('o, 's) notify" where
  "notify_of_multi n = \<lparr>
     Initialize = multi_Initialize n,
     InitializeDump = multi_InitializeDump n,
     InitializeRestore = multi_InitializeRestore n,
     FinalizeDump = multi_FinalizeDump n,
     FinalizeRestore = multi_FinalizeRestore n,
     PreDump = multi_PreDump n,
     PostDump = multi_PostDump n,
     PreRestore = multi_PreRestore n,
     PostRestore = multi_PostRestore n,
     NetworkLock = multi_NetworkLock n,
     NetworkUnlock = multi_NetworkUnlock n,
     SetupNamespaces = multi_SetupNamespaces n,
     PostSetupNamespaces = multi_PostSetupNamespaces n,
     SkipNamespaces = multi_SkipNamespaces n,
     PreResume = multi_PreResume n,
     PostResume = multi_PostResume n,
     OrphanPtsMaster = multi_OrphanPtsMaster n,
     QueryExtFiles = multi_QueryExtFiles n\<rparr>"

lemmas [cedana_simps] =
  cb_Initialize_def cb_InitializeDump_def cb_InitializeRestore_def cb_FinalizeDump_def cb_FinalizeRestore_def cb_PreDump_def cb_PostDump_def cb_PreRestore_def cb_PostRestore_def cb_NetworkLock_def cb_NetworkUnlock_def cb_SetupNamespaces_def cb_PostSetupNamespaces_def cb_SkipNamespaces_def cb_PreResume_def cb_PostResume_def cb_OrphanPtsMaster_def

lemmas multi_defs =
  multi_Initialize_def multi_InitializeDump_def multi_InitializeRestore_def multi_FinalizeDump_def multi_FinalizeRestore_def multi_PreDump_def multi_PostDump_def multi_PreRestore_def multi_PostRestore_def multi_NetworkLock_def multi_NetworkUnlock_def multi_SetupNamespaces_def multi_PostSetupNamespaces_def multi_SkipNamespaces_def multi_PreResume_def multi_PostResume_def multi_OrphanPtsMaster_def multi_each_def

section \<open>Lemmas\<close>

lemma call_hook_None [simp]: "call_hook msg None s = (None, s)"
  by (simp add: call_hook_def)

lemma call_hook_ok: "g s = (None, s') \<Longrightarrow> call_hook msg (Some g) s = (None, s')"
  by (simp add: call_hook_def)

lemma call_hook_err: "g s = (Some e, s') \<Longrightarrow> call_hook msg (Some g) s = (Some (unless_panic (Wrapf msg) e), s')"
  by (simp add: call_hook_def)

lemma call_hook_state [simp]: "snd (call_hook msg (Some g) s) = snd (g s)"
  by (auto simp: call_hook_def split: prod.splits option.splits)

lemma multi_Include_callbacks [simp]:
  "callbacks (multi_Include None n) = callbacks n"
  "callbacks (multi_Include (Some cb) n) = callbacks n @ [notify_of_callback cb]"
  by (simp_all add: multi_Include_def)

lemma first_error_error:
  assumes "first_error f xs s = (Some e, s')"
  shows "\<exists>pre x post t. xs = pre @ x # post \<and> first_error f pre s = (None, t) \<and> f x t = (Some e, s')"
  using assms
proof (induction xs arbitrary: s)
  case Nil
  then show ?case by simp
next
  case (Cons x xs)
  obtain r t where ft: "f x s = (r, t)" by (cases "f x s")
  show ?case
  proof (cases r)
    case None
    with Cons.prems ft have "first_error f xs t = (Some e, s')" by simp
    from Cons.IH[OF this] obtain pre y post u where
      "xs = pre @ y # post" "first_error f pre t = (None, u)" "f y u = (Some e, s')" by blast
    then have "x # xs = (x # pre) @ y # post \<and> first_error f (x # pre) s = (None, u) \<and> f y u = (Some e, s')"
      using None ft by simp
    then show ?thesis by blast
  next
    case (Some a)
    with Cons.prems ft have "x # xs = [] @ x # xs \<and> first_error f [] s = (None, s) \<and> f x s = (Some e, s')"
      by simp
    then show ?thesis by blast
  qed
qed

lemma query_files_acc:
  "query_files cs (xs @ ys) s = (case query_files cs ys s of
      ((fs, Some e), s') \<Rightarrow> (([], Some e), s') | ((fs, None), s') \<Rightarrow> ((xs @ fs, None), s'))"
proof (induction cs arbitrary: ys s)
  case Nil
  then show ?case by simp
next
  case (Cons c cs)
  obtain fs r t where q: "QueryExtFiles c s = ((fs, r), t)" by (metis prod.collapse)
  show ?case
  proof (cases r)
    case None
    then show ?thesis using Cons.IH[of "ys @ fs" t] q by simp
  next
    case (Some e)
    then show ?thesis using q by simp
  qed
qed

section \<open>Properties\<close>

text \<open>
  A hook of the callback list that fails was reached after every callback registered
  later had succeeded, its error is the one returned, and the callbacks
  registered before it are not called: the state returned is the one the failing
  callback left. In particular \<open>FinalizeDump\<close> skips the finalisation of every
  callback registered before the first one that fails.
\<close>

theorem multi_FinalizeDump_stops:
  assumes "multi_FinalizeDump n opts err s = (Some e, s')"
  shows "\<exists>earlier c later t. callbacks n = earlier @ c # later
     \<and> multi_FinalizeDump \<lparr>callbacks = later\<rparr> opts err s = (None, t)
     \<and> FinalizeDump c opts err t = (Some e, s')"
proof -
  from assms obtain pre c post t where *: "rev (callbacks n) = pre @ c # post"
      "first_error (\<lambda>c. FinalizeDump c opts err) pre s = (None, t)" "FinalizeDump c opts err t = (Some e, s')"
    unfolding multi_FinalizeDump_def multi_each_def by (blast dest: first_error_error)
  have "callbacks n = rev post @ c # rev pre" using *(1) by (metis append.assoc append_Cons append_Nil rev.simps(2) rev_append rev_rev_ident)
  with * show ?thesis
    by (intro exI[of _ "rev post"] exI[of _ c] exI[of _ "rev pre"] exI[of _ t])
       (simp add: multi_FinalizeDump_def multi_each_def)
qed

text \<open>Two callbacks that write a log, the one registered last failing to finalise.\<close>

definition silent_callback :: "(unit, nat list) notify_callback" where
  "silent_callback = \<lparr>InitializeFunc = None, InitializeDumpFunc = None, InitializeRestoreFunc = None,
     FinalizeDumpFunc = None, FinalizeRestoreFunc = None, PreDumpFunc = None, PostDumpFunc = None,
     PreRestoreFunc = None, PostRestoreFunc = None, NetworkLockFunc = None, NetworkUnlockFunc = None,
     SetupNamespacesFunc = None, PostSetupNamespacesFunc = None, SkipNamespacesFunc = None,
     PreResumeFunc = None, PostResumeFunc = None, OrphanPtsMasterFunc = None,
     QueryExtFilesFunc = None, cbName = ''''\<rparr>"

definition finalize_logger :: "nat \<Rightarrow> error \<Rightarrow> (unit, nat list) notify_callback" where
  "finalize_logger i e = silent_callback\<lparr>FinalizeDumpFunc := Some (\<lambda>_ _ s. (e, s @ [i]))\<rparr>"

definition two_loggers :: "(unit, nat list) notify_multi" where
  "two_loggers = multi_Include (Some (finalize_logger 2 (Some (Errorf ''x''))))
     (multi_Include (Some (finalize_logger 1 None)) \<lparr>callbacks = []\<rparr>)"

theorem multi_FinalizeDump_stops_witness:
  "multi_FinalizeDump two_loggers () None [] = (Some (Wrapf ''finalize dump callback'' (Errorf ''x'')), [2])
   \<and> (\<exists>earlier c later t. callbacks two_loggers = earlier @ c # later
     \<and> multi_FinalizeDump \<lparr>callbacks = later\<rparr> () None [] = (None, t)
     \<and> FinalizeDump c () None t = (Some (Wrapf ''finalize dump callback'' (Errorf ''x'')), [2]))"
proof -
  have run: "multi_FinalizeDump two_loggers () None [] = (Some (Wrapf ''finalize dump callback'' (Errorf ''x'')), [2])"
    by (simp add: multi_FinalizeDump_def multi_each_def two_loggers_def finalize_logger_def
        multi_Include_def notify_of_callback_def cb_FinalizeDump_def call_hook_def unless_panic_def)
  from multi_FinalizeDump_stops[OF run] run show ?thesis by blast
qed

text \<open>
  The external files reported to CRIU are those of every registered callback, the
  last registered first, none lost; a callback that fails makes the whole query fail.
\<close>

theorem multi_QueryExtFiles_collects:
  "multi_QueryExtFiles \<lparr>callbacks = []\<rparr> s = (([], None), s)
   \<and> multi_QueryExtFiles \<lparr>callbacks = cs @ [c]\<rparr> s =
      (case QueryExtFiles c s of
         ((_, Some e), s') \<Rightarrow> (([], Some e), s')
       | ((files, None), s') \<Rightarrow>
           (case multi_QueryExtFiles \<lparr>callbacks = cs\<rparr> s' of
              ((_, Some e), s'') \<Rightarrow> (([], Some e), s'')
            | ((rest, None), s'') \<Rightarrow> ((files @ rest, None), s'')))"
proof -
  obtain fs r t where q: "QueryExtFiles c s = ((fs, r), t)" by (metis prod.collapse)
  show ?thesis using query_files_acc[of "rev cs" fs "[]" t]
    by (cases r) (simp_all add: multi_QueryExtFiles_def q)
qed

end
