(* ===== verification/Criu_Swrk.thy ===== *)
theory Criu_Swrk
  imports Criu_Notify
begin

text \<open>
  \<^bold>\<open>pkg/criu/criu.go\<close>: the driver that starts \<open>criu swrk\<close>, exchanges protobuf messages with
  it over a socket pair, dispatches CRIU's notifications to the \<open>Notify\<close> hooks and cleans
  up. The operating system's answers are a record (\<open>swrk_env\<close>), and what CRIU answers is
  a list of exchanges, one per message the driver sends; when the list is
  exhausted the peer has closed the socket, which reads as EOF.
\<close>

section \<open>Messages\<close>

text \<open>The options message of CRIU's RPC protocol: the fields the daemon reads or sets.\<close>

record criu_opts =
  ImagesDir :: "string option"
  ImagesDirFd :: "int option"
  Stream :: "bool option"
  LeaveRunning :: "bool option"
  Pid :: "int option"
  NotifyScripts :: "bool option"
  Unprivileged :: "bool option"
  TcpEstablished :: "bool option"
  ExtUnixSk :: "bool option"
  ShellJob :: "bool option"
  AutoExtMnt :: "bool option"
  ExtMasters :: "bool option"
  EvasiveDevices :: "bool option"
  RstSibling :: "bool option"
  ManageCgroups :: "bool option"
  ManageCgroupsMode :: "int option"
  External :: "string list"
  LogFile :: "string option"
  LogLevel :: "int option"
  LogToStderr :: "bool option"
  GhostLimit :: "u32 option"
  InheritFd :: "(string \<times> int) list"
  LsmProfile :: "string option"
  LsmMountContext :: "string option"

definition empty_opts :: criu_opts where
  "empty_opts = \<lparr>ImagesDir = None, ImagesDirFd = None, Stream = None, LeaveRunning = None, Pid = None,
     NotifyScripts = None, Unprivileged = None, TcpEstablished = None, ExtUnixSk = None, ShellJob = None,
     AutoExtMnt = None, ExtMasters = None, EvasiveDevices = None, RstSibling = None,
     ManageCgroups = None, ManageCgroupsMode = None, External = [], LogFile = None, LogLevel = None,
     LogToStderr = None, GhostLimit = None, InheritFd = [], LsmProfile = None, LsmMountContext = None\<rparr>"

datatype req_type = DUMP | RESTORE | PRE_DUMP | PAGE_SERVER | PAGE_SERVER_CHLD | VERSION | NOTIFY
  | OtherType nat

record criu_req =
  qType :: req_type
  qNotifySuccess :: bool
  qOpts :: "criu_opts option"
  qFeatures :: "string list option"

record criu_version =
  MajorNumber :: int
  MinorNumber :: int
  Sublevel :: int
  Gitid :: string

record criu_resp =
  pType :: req_type
  pSuccess :: bool
  pCrErrmsg :: string
  pCrErrno :: int
  pScript :: string
  pNotifyPid :: int
  pVersion :: criu_version
  pDump :: "string option"
  pRestore :: "string option"
  pPs :: "int \<times> int"

text \<open>
  One exchange: the outcome of marshalling, of each attempt to write (whether all bytes went out, and
  the error), of the read, of unmarshalling, and of parsing the control messages (per
  message, the descriptors it carries).
\<close>

record exchange =
  xMarshalErr :: error
  xWrite :: "nat \<Rightarrow> bool \<times> error"
  xReadErr :: error
  xTrunc :: bool
  xResp :: "goerr + criu_resp"
  xScm :: "goerr + (goerr + int list) list"

section \<open>The driver's state\<close>

record 's swrk =
  swrkCmd :: "int option"
  osLocks :: nat
  openFds :: int
  unreaped :: "int list"
  sent :: "criu_req list"
  host :: 's

record swrk_env =
  socketpairErr :: error
  fileConnErr :: error
  startErr :: error
  startPid :: int
  isRoot :: bool
  skCloseErr :: error
  waitErr :: error
  waitIsEchild :: bool

text \<open>
  \<open>openFds\<close> counts the descriptors the driver has opened or received and not closed: the socket pair opens two,
  \<open>net.FileConn\<close> duplicates the client end, and the deferred calls close \<open>cln\<close> and, once
  it has been wrapped, \<open>srv\<close>. \<open>unreaped\<close> are the children that were started and not waited for; a wait that fails
  with \<open>ECHILD\<close> means that somebody else has reaped the child.
\<close>

definition Prepare :: "swrk_env \<Rightarrow> 's swrk \<Rightarrow> error \<times> 's swrk" where
  "Prepare env c =
     (case socketpairErr env of Some e \<Rightarrow> (Some e, c) | None \<Rightarrow>
     (let c1 = c\<lparr>openFds := openFds c + 2\<rparr> in
      case fileConnErr env of Some e \<Rightarrow> (Some e, c1\<lparr>openFds := openFds c1 - 1\<rparr>) | None \<Rightarrow>
      (let c2 = c1\<lparr>openFds := openFds c1 + 1, osLocks := Suc (osLocks c1)\<rparr> in
       (case startErr env of
          Some e \<Rightarrow> (Some e, c2\<lparr>osLocks := osLocks c2 - 1, openFds := openFds c2 - 1 - 2\<rparr>)
        | None \<Rightarrow> (None, c2\<lparr>swrkCmd := Some (startPid env), unreaped := startPid env # unreaped c2, openFds := openFds c2 - 2\<rparr>)))))"

definition Cleanup :: "swrk_env \<Rightarrow> 's swrk \<Rightarrow> error \<times> 's swrk" where
  "Cleanup env c =
     (if swrkCmd c \<noteq> None then
        (errors_Join [skCloseErr env,
           (case waitErr env of None \<Rightarrow> None
            | Some e \<Rightarrow> if waitIsEchild env then None else Some (Wrapf ''criu swrk failed'' e))],
         c\<lparr>swrkCmd := None, osLocks := osLocks c - 1, openFds := openFds c - 1,
            unreaped := (if waitErr env = None \<or> waitIsEchild env then remove1 (the (swrkCmd c)) (unreaped c) else unreaped c)\<rparr>)
      else (errors_Join [], c))"

section \<open>One exchange\<close>

text \<open>\<open>for range 5 { write; if err == nil && wrote == len { break }; sleep }\<close>.\<close>

fun write_loop :: "nat \<Rightarrow> nat \<Rightarrow> (nat \<Rightarrow> bool \<times> error) \<Rightarrow> error \<Rightarrow> error" where
  "write_loop 0 i w err = err"
| "write_loop (Suc k) i w err =
     (case w i of (wrote_all, e) \<Rightarrow> if e = None \<and> wrote_all then None else write_loop k (Suc i) w e)"

definition sendAndRecv :: "exchange \<Rightarrow> error" where
  "sendAndRecv x =
     (case write_loop 5 0 (xWrite x) None of
        Some e \<Rightarrow> Some e
      | None \<Rightarrow>
        (case xReadErr x of
           Some e \<Rightarrow> Some e
         | None \<Rightarrow> if xTrunc x then Some (Errorf ''MSG_TRUNC was returned, try providing a larger buffer'')
             else None))"

text \<open>The descriptors that came with a message. Once the message has been read they are open in this process, whatever is done with it.\<close>

definition received :: "exchange \<Rightarrow> int" where
  "received x =
     (if write_loop 5 0 (xWrite x) None \<noteq> None \<or> xReadErr x \<noteq> None then 0
      else (case xScm x of
          Inl _ \<Rightarrow> 0
        | Inr ms \<Rightarrow> int (sum_list (map (\<lambda>m. case m of Inl _ \<Rightarrow> 0 | Inr fds \<Rightarrow> length fds) ms))))"

section \<open>Dispatching notifications\<close>

datatype outcome = Continue error "criu_opts option" | ReturnErr goerr

definition reply_opts :: "string list \<Rightarrow> criu_opts" where
  "reply_opts external = empty_opts\<lparr>ImagesDirFd := Some (-1), External := external\<rparr>"

definition ack :: "'s hook \<Rightarrow> 's \<Rightarrow> outcome \<times> 's" where
  "ack h s = (case h s of (e, s') \<Rightarrow> (Continue e None, s'))"

text \<open>
  The \<open>switch\<close> on the script name. In the \<open>orphan-pts-master\<close> branch the hook's error is
  assigned to the \<open>err\<close> declared in that branch, so the loop's \<open>err\<close> stays nil; a panic of the hook still goes up.
\<close>

definition dispatch :: "(criu_opts, 's) notify \<Rightarrow> criu_opts \<Rightarrow> exchange \<Rightarrow> criu_resp \<Rightarrow> 's \<Rightarrow> outcome \<times> 's" where
  "dispatch nfy opts x resp s =
     (let script = pScript resp in
      if script = ''pre-dump'' then ack (PreDump nfy opts) s
      else if script = ''post-dump'' then ack (PostDump nfy opts) s
      else if script = ''pre-restore'' then ack (PreRestore nfy opts) s
      else if script = ''post-restore'' then ack (PostRestore nfy (pNotifyPid resp)) s
      else if script = ''network-lock'' then ack (NetworkLock nfy) s
      else if script = ''network-unlock'' then ack (NetworkUnlock nfy) s
      else if script = ''setup-namespaces'' then ack (SetupNamespaces nfy (pNotifyPid resp)) s
      else if script = ''post-setup-namespaces'' then ack (PostSetupNamespaces nfy) s
      else if script = ''pre-resume'' then ack (PreResume nfy) s
      else if script = ''post-resume'' then ack (PostResume nfy) s
      else if script = ''skip-namespaces'' then ack (SkipNamespaces nfy (pNotifyPid resp)) s
      else if script = ''query-ext-files'' then
        (case QueryExtFiles nfy s of
           ((_, Some e), s') \<Rightarrow> (Continue (Some e) None, s')
         | ((external, None), s') \<Rightarrow> (Continue None (Some (reply_opts external)), s'))
      else if script = ''orphan-pts-master'' then
        (case xScm x of
           Inl e \<Rightarrow> (ReturnErr e, s)
         | Inr [] \<Rightarrow> (ReturnErr (Panic ''index out of range''), s)
         | Inr (Inl e # _) \<Rightarrow> (ReturnErr e, s)
         | Inr (Inr [] # _) \<Rightarrow> (ReturnErr (Panic ''index out of range''), s)
         | Inr (Inr (fd # _) # _) \<Rightarrow>
             (case OrphanPtsMaster nfy fd s of
                (Some (Panic p), s') \<Rightarrow> (ReturnErr (Panic p), s')
              | (_, s') \<Rightarrow> (Continue None None, s')))
      else (Continue None None, s))"

section \<open>The request loop\<close>

definition op_failed :: "criu_resp \<Rightarrow> goerr" where
  "op_failed resp = Errorf (''operation failed (msg:'' @ pCrErrmsg resp @ '' err:'' @
     (if pCrErrno resp < 0 then ''-'' else []) @ itoa (nat \<bar>pCrErrno resp\<bar>) @ '')'')"

definition ack_req :: "criu_opts option \<Rightarrow> criu_req" where
  "ack_req reply = \<lparr>qType = NOTIFY, qNotifySuccess = True, qOpts = reply, qFeatures = None\<rparr>"

fun swrk_loop :: "(criu_opts, 's) notify option \<Rightarrow> criu_opts \<Rightarrow> criu_req \<Rightarrow> exchange list \<Rightarrow> 's swrk \<Rightarrow>
    (criu_resp option \<times> error) \<times> 's swrk" where
  "swrk_loop nfy opts req [] c = ((None, Some (Errorf ''EOF'')), c\<lparr>sent := sent c @ [req]\<rparr>)"
| "swrk_loop nfy opts req (x # xs) c =
     (case xMarshalErr x of Some e \<Rightarrow> ((None, Some e), c) | None \<Rightarrow>
      (let c1 = c\<lparr>sent := sent c @ [req], openFds := openFds c + received x\<rparr> in
       case sendAndRecv x of Some e \<Rightarrow> ((None, Some e), c1) | None \<Rightarrow>
       (case xResp x of Inl e \<Rightarrow> ((None, Some e), c1) | Inr resp \<Rightarrow>
        (if \<not> pSuccess resp then ((Some resp, Some (op_failed resp)), c1)
         else if pType resp \<noteq> NOTIFY then ((Some resp, None), c1)
         else (case nfy of
             None \<Rightarrow> ((Some resp, Some (Errorf ''unexpected notify'')), c1)
           | Some n \<Rightarrow>
             (case dispatch n opts x resp (host c1) of
                (ReturnErr e, s') \<Rightarrow> ((None, Some e), c1\<lparr>host := s'\<rparr>)
              | (Continue (Some e) _, s') \<Rightarrow> ((Some resp, Some e), c1\<lparr>host := s'\<rparr>)
              | (Continue None reply, s') \<Rightarrow>
                  swrk_loop nfy opts (ack_req reply) xs (c1\<lparr>host := s'\<rparr>)))))))"

text \<open>
  A deferred call that joins its error into the named result. While the goroutine panics the
  named result is still nil, and the panic goes on after the deferred calls; a panic of the deferred call takes its place.
\<close>

definition named_result :: "error \<Rightarrow> error" where
  "named_result e = (case e of Some (Panic _) \<Rightarrow> None | _ \<Rightarrow> e)"

definition join_err :: "error \<Rightarrow> error \<Rightarrow> error" where
  "join_err retErr err =
     (if named_result err \<noteq> err then err
      else if named_result retErr \<noteq> retErr then retErr
      else if err \<noteq> None then errors_Join [retErr, err] else retErr)"

definition run_deferred :: "(error \<Rightarrow> 's hook) \<Rightarrow> (criu_resp option \<times> error) \<times> 's swrk \<Rightarrow>
    (criu_resp option \<times> error) \<times> 's swrk" where
  "run_deferred finalize result =
     (case result of ((resp, retErr), c) \<Rightarrow>
      (case finalize (named_result retErr) (host c) of
         (err, s) \<Rightarrow> ((resp, join_err retErr err), c\<lparr>host := s\<rparr>)))"

text \<open>What runs between \<open>Prepare\<close> and the deferred \<open>Cleanup\<close>.\<close>

definition swrk_body :: "swrk_env \<Rightarrow> req_type \<Rightarrow> criu_opts \<Rightarrow> (criu_opts, 's) notify option \<Rightarrow> criu_req \<Rightarrow>
    exchange list \<Rightarrow> 's swrk \<Rightarrow> (criu_resp option \<times> error) \<times> 's swrk" where
  "swrk_body env reqType opts nfy req xs c =
     (case nfy of None \<Rightarrow> swrk_loop nfy opts req xs c | Some n \<Rightarrow>
      (case Initialize n (startPid env) (host c) of
         (Some e, s1) \<Rightarrow> ((None, Some (unless_panic (Wrapf ''initialize failed'') e)), c\<lparr>host := s1\<rparr>)
       | (None, s1) \<Rightarrow>
         (if reqType = RESTORE then
            (case InitializeRestore n opts s1 of
               (Some e, s2) \<Rightarrow> ((None, Some (unless_panic (Wrapf ''initialize-restore failed'') e)), c\<lparr>host := s2\<rparr>)
             | (None, s2) \<Rightarrow>
               run_deferred (FinalizeRestore n opts) (swrk_loop nfy opts req xs (c\<lparr>host := s2\<rparr>)))
          else if reqType = DUMP then
            (case InitializeDump n opts s1 of
               (Some e, s2) \<Rightarrow> ((None, Some (unless_panic (Wrapf ''initialize-dump failed'') e)), c\<lparr>host := s2\<rparr>)
             | (None, s2) \<Rightarrow>
               run_deferred (FinalizeDump n opts) (swrk_loop nfy opts req xs (c\<lparr>host := s2\<rparr>)))
          else swrk_loop nfy opts req xs (c\<lparr>host := s1\<rparr>))))"

definition set_opts :: "swrk_env \<Rightarrow> bool \<Rightarrow> criu_opts \<Rightarrow> criu_opts" where
  "set_opts env has_nfy opts =
     (let o1 = (if has_nfy then opts\<lparr>NotifyScripts := Some True\<rparr> else opts)
      in if \<not> isRoot env then o1\<lparr>Unprivileged := Some True\<rparr> else o1)"

text \<open>
  \<open>opts\<close> is a pointer: with hooks and no options the first assignment panics; without
  hooks the loop never reads the options.
\<close>

definition doSwrkWithResp :: "swrk_env \<Rightarrow> req_type \<Rightarrow> criu_opts option \<Rightarrow> (criu_opts, 's) notify option \<Rightarrow>
    string list option \<Rightarrow> exchange list \<Rightarrow> 's swrk \<Rightarrow> (criu_resp option \<times> error) \<times> 's swrk" where
  "doSwrkWithResp env reqType opts nfy features xs c =
     (if nfy \<noteq> None \<and> opts = None then ((None, Some (Panic ''nil pointer dereference'')), c)
      else (let opts' = map_option (set_opts env (nfy \<noteq> None)) opts;
                req = \<lparr>qType = reqType, qNotifySuccess = False, qOpts = opts', qFeatures = features\<rparr>
        in case Prepare env c of
             (Some e, c1) \<Rightarrow> ((None, Some e), c1)
           | (None, c1) \<Rightarrow>
             (let ((resp, retErr), c2) =
                    swrk_body env reqType (case opts' of Some p \<Rightarrow> p | None \<Rightarrow> empty_opts) nfy req xs c1;
                  (cerr, c3) = Cleanup env c2
              in ((resp, join_err retErr cerr), c3))))"

definition doSwrk :: "swrk_env \<Rightarrow> req_type \<Rightarrow> criu_opts option \<Rightarrow> (criu_opts, 's) notify option \<Rightarrow>
    exchange list \<Rightarrow> 's swrk \<Rightarrow> (criu_resp option \<times> error) \<times> 's swrk" where
  "doSwrk env reqType opts nfy xs c =
     (case doSwrkWithResp env reqType opts nfy None xs c of
        ((_, Some e), c') \<Rightarrow> ((None, Some e), c')
      | ((None, None), c') \<Rightarrow> ((None, Some (Errorf ''unexpected CRIU RPC response'')), c')
      | ((Some resp, None), c') \<Rightarrow>
          if pType resp \<noteq> reqType then ((None, Some (Errorf ''unexpected CRIU RPC response'')), c')
          else ((Some resp, None), c'))"

definition Criu_Dump :: "swrk_env \<Rightarrow> criu_opts option \<Rightarrow> (criu_opts, 's) notify option \<Rightarrow> exchange list \<Rightarrow>
    's swrk \<Rightarrow> (string option \<times> error) \<times> 's swrk" where
  "Criu_Dump env opts nfy xs c =
     (case doSwrk env DUMP opts nfy xs c of
        ((Some resp, None), c') \<Rightarrow> ((pDump resp, None), c')
      | ((_, e), c') \<Rightarrow> ((None, e), c'))"

definition Criu_Restore :: "swrk_env \<Rightarrow> criu_opts option \<Rightarrow> (criu_opts, 's) notify option \<Rightarrow> exchange list \<Rightarrow>
    's swrk \<Rightarrow> (string option \<times> error) \<times> 's swrk" where
  "Criu_Restore env opts nfy xs c =
     (case doSwrk env RESTORE opts nfy xs c of
        ((Some resp, None), c') \<Rightarrow> ((pRestore resp, None), c')
      | ((_, e), c') \<Rightarrow> ((None, e), c'))"

definition Criu_PreDump :: "swrk_env \<Rightarrow> criu_opts option \<Rightarrow> (criu_opts, 's) notify option \<Rightarrow> exchange list \<Rightarrow>
    's swrk \<Rightarrow> error \<times> 's swrk" where
  "Criu_PreDump env opts nfy xs c = (case doSwrk env PRE_DUMP opts nfy xs c of ((_, e), c') \<Rightarrow> (e, c'))"

definition StartPageServer :: "swrk_env \<Rightarrow> criu_opts option \<Rightarrow> exchange list \<Rightarrow> 's swrk \<Rightarrow> error \<times> 's swrk" where
  "StartPageServer env opts xs c = (case doSwrk env PAGE_SERVER opts None xs c of ((_, e), c') \<Rightarrow> (e, c'))"

definition StartPageServerChld :: "swrk_env \<Rightarrow> criu_opts option \<Rightarrow> exchange list \<Rightarrow> 's swrk \<Rightarrow>
    (int \<times> int \<times> error) \<times> 's swrk" where
  "StartPageServerChld env opts xs c =
     (case doSwrkWithResp env PAGE_SERVER_CHLD opts None None xs c of
        ((_, Some e), c') \<Rightarrow> ((0, 0, Some e), c')
      | ((Some resp, None), c') \<Rightarrow> ((fst (pPs resp), snd (pPs resp), None), c')
      | ((None, None), c') \<Rightarrow> ((0, 0, None), c'))"

section \<open>CRIU's version\<close>

text \<open>The version is computed in \<open>int32\<close>, with wrap-around and truncating remainder.\<close>

definition rem32 :: "int \<Rightarrow> int \<Rightarrow> int" where
  "rem32 a b = sgn a * (\<bar>a\<bar> mod \<bar>b\<bar>)"

definition version_number :: "criu_version \<Rightarrow> int" where
  "version_number v =
     (let a = i32 (MajorNumber v * 10000);
          b = i32 (a + i32 (MinorNumber v * 100));
          d = (if Sublevel v \<noteq> 0 then i32 (b + Sublevel v) else b)
      in if Gitid v \<noteq> [] then i32 (i32 (d - rem32 d 100) + 100) else d)"

definition GetCriuVersion :: "swrk_env \<Rightarrow> exchange list \<Rightarrow> 's swrk \<Rightarrow> (int \<times> error) \<times> 's swrk" where
  "GetCriuVersion env xs c =
     (case doSwrkWithResp env VERSION None None None xs c of
        ((_, Some e), c') \<Rightarrow> ((0, Some e), c')
      | ((None, None), c') \<Rightarrow> ((0, Some (Errorf ''unexpected CRIU RPC response'')), c')
      | ((Some resp, None), c') \<Rightarrow>
          if pType resp \<noteq> VERSION then ((0, Some (Errorf ''unexpected CRIU RPC response'')), c')
          else ((version_number (pVersion resp), None), c'))"

definition IsCriuAtLeast :: "swrk_env \<Rightarrow> int \<Rightarrow> exchange list \<Rightarrow> 's swrk \<Rightarrow> (bool \<times> error) \<times> 's swrk" where
  "IsCriuAtLeast env version xs c =
     (case GetCriuVersion env xs c of
        ((_, Some e), c') \<Rightarrow> ((False, Some e), c')
      | ((criuVersion, None), c') \<Rightarrow> ((version \<le> criuVersion, None), c'))"

text \<open>The command line of \<open>criu check\<close>.\<close>

definition Check_args :: "swrk_env \<Rightarrow> string list \<Rightarrow> string list" where
  "Check_args env flags = [''check''] @ flags @ (if \<not> isRoot env then [''--unprivileged''] else [])"

section \<open>What the loop keeps\<close>

text \<open>One turn of the loop either ends it or acknowledges a notification and goes on.\<close>

lemma swrk_loop_Cons_cases:
  obtains (stop) "snd (swrk_loop nfy opts req (x # xs) c) = c"
  | (last) s where "snd (swrk_loop nfy opts req (x # xs) c) = c\<lparr>sent := sent c @ [req], openFds := openFds c + received x, host := s\<rparr>"
      and "s = host c \<or> (\<exists>n resp. nfy = Some n \<and> s = snd (dispatch n opts x resp (host c)))"
  | (ack) n resp reply s where "nfy = Some n" and "xResp x = Inr resp" and "pSuccess resp" and "pType resp = NOTIFY"
      and "dispatch n opts x resp (host c) = (Continue None reply, s)"
      and "swrk_loop nfy opts req (x # xs) c =
        swrk_loop nfy opts (ack_req reply) xs (c\<lparr>sent := sent c @ [req], openFds := openFds c + received x, host := s\<rparr>)"
proof (cases "xMarshalErr x")
  case (Some e)
  then show ?thesis using stop by simp
next
  case nomarshal: None
  let ?c1 = "c\<lparr>sent := sent c @ [req], openFds := openFds c + received x\<rparr>"
  have same: "?c1 = c\<lparr>sent := sent c @ [req], openFds := openFds c + received x, host := host c\<rparr>" by simp
  show ?thesis
  proof (cases "sendAndRecv x = None \<and> (\<exists>resp n. xResp x = Inr resp \<and> pSuccess resp \<and> pType resp = NOTIFY \<and> nfy = Some n)")
    case False
    then have "snd (swrk_loop nfy opts req (x # xs) c) = ?c1"
      using nomarshal by (cases "sendAndRecv x"; cases "xResp x"; cases nfy) (auto simp: Let_def)
    then show ?thesis using last [of "host c"] same by simp
  next
    case True
    then obtain resp n where t: "sendAndRecv x = None" "xResp x = Inr resp" "pSuccess resp" "pType resp = NOTIFY" "nfy = Some n"
      by blast
    obtain o1 s1 where d: "dispatch n opts x resp (host c) = (o1, s1)"
      by (cases "dispatch n opts x resp (host c)")
    show ?thesis
    proof (cases "\<exists>reply. o1 = Continue None reply")
      case True
      then show ?thesis using ack [of n resp _ s1] nomarshal t d by auto
    next
      case False
      then have "snd (swrk_loop nfy opts req (x # xs) c) = c\<lparr>sent := sent c @ [req], openFds := openFds c + received x, host := s1\<rparr>"
        using nomarshal t d by (cases o1) (auto split: option.split)
      moreover have "s1 = snd (dispatch n opts x resp (host c))" using d by simp
      ultimately show ?thesis using last t(5) by blast
    qed
  qed
qed

lemma swrk_loop_frame:
  "swrkCmd (snd (swrk_loop nfy opts req xs c)) = swrkCmd c
   \<and> osLocks (snd (swrk_loop nfy opts req xs c)) = osLocks c
   \<and> unreaped (snd (swrk_loop nfy opts req xs c)) = unreaped c"
proof (induction xs arbitrary: nfy req c)
  case (Cons x xs)
  show ?case
    by (rule swrk_loop_Cons_cases [of nfy opts req x xs c]) (simp_all del: swrk_loop.simps add: Cons.IH)
qed simp

text \<open>The descriptors that are open afterwards: those that were, and those that came with the exchanges that took place.\<close>

definition took_place :: "exchange list \<Rightarrow> nat \<Rightarrow> 's swrk \<Rightarrow> 's swrk \<Rightarrow> bool" where
  "took_place xs k c c' \<longleftrightarrow> k \<le> length xs \<and> (\<exists>ms. sent c' = sent c @ ms \<and> k \<le> length ms \<and> length ms \<le> Suc k)
     \<and> openFds c' = openFds c + sum_list (map received (take k xs))"

lemma took_place_0: "sent c' = sent c \<Longrightarrow> openFds c' = openFds c \<Longrightarrow> took_place xs 0 c c'"
  by (simp add: took_place_def)

lemma swrk_loop_fds: "\<exists>k. took_place xs k c (snd (swrk_loop nfy opts req xs c))"
proof (induction xs arbitrary: req c)
  case Nil
  show ?case by (rule exI [of _ 0]) (simp add: took_place_def)
next
  case (Cons x xs)
  show ?case
  proof (rule swrk_loop_Cons_cases [of nfy opts req x xs c])
    assume "snd (swrk_loop nfy opts req (x # xs) c) = c"
    then show ?thesis by (intro exI [of _ 0]) (simp del: swrk_loop.simps add: took_place_def)
  next
    fix s assume "snd (swrk_loop nfy opts req (x # xs) c) = c\<lparr>sent := sent c @ [req], openFds := openFds c + received x, host := s\<rparr>"
    then show ?thesis by (intro exI [of _ 1]) (simp del: swrk_loop.simps add: took_place_def)
  next
    fix reply s
    assume l: "swrk_loop nfy opts req (x # xs) c =
        swrk_loop nfy opts (ack_req reply) xs (c\<lparr>sent := sent c @ [req], openFds := openFds c + received x, host := s\<rparr>)"
    obtain k where k: "took_place xs k (c\<lparr>sent := sent c @ [req], openFds := openFds c + received x, host := s\<rparr>)
        (snd (swrk_loop nfy opts req (x # xs) c))"
      unfolding l using Cons.IH by blast
    then obtain ms where "sent (snd (swrk_loop nfy opts req (x # xs) c)) = sent c @ req # ms" "k \<le> length ms" "length ms \<le> Suc k"
      by (auto simp: took_place_def simp del: swrk_loop.simps)
    then show ?thesis
      using k by (intro exI [of _ "Suc k"]) (auto simp: took_place_def simp del: swrk_loop.simps intro!: exI [of _ "req # ms"])
  qed
qed

lemma swrk_loop_rel:
  assumes refl: "\<And>s. R s s" and trans: "\<And>s t u. R s t \<Longrightarrow> R t u \<Longrightarrow> R s u"
    and step: "\<And>x resp s. R s (snd (dispatch n opts x resp s))"
  shows "R (host c) (host (snd (swrk_loop (Some n) opts req xs c)))"
proof (induction xs arbitrary: req c)
  case Nil
  show ?case by (simp add: refl)
next
  case (Cons x xs)
  show ?case
  proof (rule swrk_loop_Cons_cases [of "Some n" opts req x xs c])
    fix s assume "snd (swrk_loop (Some n) opts req (x # xs) c) = c\<lparr>sent := sent c @ [req], openFds := openFds c + received x, host := s\<rparr>"
      and "s = host c \<or> (\<exists>n' resp. Some n = Some n' \<and> s = snd (dispatch n' opts x resp (host c)))"
    then show ?thesis using refl step by auto
  next
    fix n' resp reply s
    assume "Some n = Some n'" and d: "dispatch n' opts x resp (host c) = (Continue None reply, s)"
      and l: "swrk_loop (Some n) opts req (x # xs) c =
        swrk_loop (Some n) opts (ack_req reply) xs (c\<lparr>sent := sent c @ [req], openFds := openFds c + received x, host := s\<rparr>)"
    then have "R (host c) s" using step [of "host c" x resp] by simp
    moreover have "R s (host (snd (swrk_loop (Some n) opts req (x # xs) c)))"
      unfolding l using Cons.IH [where c = "c\<lparr>sent := sent c @ [req], openFds := openFds c + received x, host := s\<rparr>"] by simp
    ultimately show ?thesis by (rule trans)
  qed (simp del: swrk_loop.simps add: refl)
qed

lemma run_deferred_frame:
  "swrkCmd (snd (run_deferred f r)) = swrkCmd (snd r) \<and> osLocks (snd (run_deferred f r)) = osLocks (snd r)
   \<and> unreaped (snd (run_deferred f r)) = unreaped (snd r) \<and> openFds (snd (run_deferred f r)) = openFds (snd r)
   \<and> sent (snd (run_deferred f r)) = sent (snd r)"
  by (simp add: run_deferred_def split: prod.split)

lemma swrk_body_frame:
  "swrkCmd (snd (swrk_body env t opts nfy req xs c)) = swrkCmd c
   \<and> osLocks (snd (swrk_body env t opts nfy req xs c)) = osLocks c
   \<and> unreaped (snd (swrk_body env t opts nfy req xs c)) = unreaped c"
  by (simp add: swrk_body_def swrk_loop_frame run_deferred_frame split: prod.split option.split)

lemma swrk_body_fds: "\<exists>k. took_place xs k c (snd (swrk_body env t opts nfy req xs c))"
proof -
  have l: "\<exists>k. took_place xs k c (snd (swrk_loop nfy opts req xs (c\<lparr>host := s\<rparr>)))" for s
    using swrk_loop_fds [of xs "c\<lparr>host := s\<rparr>" nfy opts req] by (simp add: took_place_def)
  then have d: "\<exists>k. took_place xs k c (snd (run_deferred f (swrk_loop nfy opts req xs (c\<lparr>host := s\<rparr>))))" for f s
    by (simp add: took_place_def run_deferred_frame)
  have z: "\<exists>k. took_place xs k c (c\<lparr>host := s\<rparr>)" for s by (rule exI [of _ 0]) (simp add: took_place_0)
  show ?thesis using swrk_loop_fds [of xs c nfy opts req] l d z by (auto simp: swrk_body_def split: prod.split option.split)
qed

section \<open>Observing the hooks\<close>

text \<open>
  A specification device: \<open>logged n\<close> behaves as \<open>n\<close> and appends an event for every hook
  it runs to a log kept beside the state.
\<close>

datatype event = EvInitialize bool | EvInitDump bool | EvInitRestore bool | EvHook string bool
  | EvFinalizeDump error bool | EvFinalizeRestore error bool

definition log_hook :: "(bool \<Rightarrow> event) \<Rightarrow> 's hook \<Rightarrow> ('s \<times> event list) hook" where
  "log_hook ev h = (\<lambda>(s, l). case h s of (e, s') \<Rightarrow> (e, (s', l @ [ev (e = None)])))"

definition logged :: "('o, 's) notify \<Rightarrow> ('o, 's \<times> event list) notify" where
  "logged n = \<lparr>
     Initialize = (\<lambda>p. log_hook EvInitialize (Initialize n p)),
     InitializeDump = (\<lambda>p. log_hook EvInitDump (InitializeDump n p)),
     InitializeRestore = (\<lambda>p. log_hook EvInitRestore (InitializeRestore n p)),
     FinalizeDump = (\<lambda>p err. log_hook (EvFinalizeDump err) (FinalizeDump n p err)),
     FinalizeRestore = (\<lambda>p err. log_hook (EvFinalizeRestore err) (FinalizeRestore n p err)),
     PreDump = (\<lambda>p. log_hook (EvHook ''pre-dump'') (PreDump n p)),
     PostDump = (\<lambda>p. log_hook (EvHook ''post-dump'') (PostDump n p)),
     PreRestore = (\<lambda>p. log_hook (EvHook ''pre-restore'') (PreRestore n p)),
     PostRestore = (\<lambda>p. log_hook (EvHook ''post-restore'') (PostRestore n p)),
     NetworkLock = log_hook (EvHook ''network-lock'') (NetworkLock n),
     NetworkUnlock = log_hook (EvHook ''network-unlock'') (NetworkUnlock n),
     SetupNamespaces = (\<lambda>p. log_hook (EvHook ''setup-namespaces'') (SetupNamespaces n p)),
     PostSetupNamespaces = log_hook (EvHook ''post-setup-namespaces'') (PostSetupNamespaces n),
     SkipNamespaces = (\<lambda>p. log_hook (EvHook ''skip-namespaces'') (SkipNamespaces n p)),
     PreResume = log_hook (EvHook ''pre-resume'') (PreResume n),
     PostResume = log_hook (EvHook ''post-resume'') (PostResume n),
     OrphanPtsMaster = (\<lambda>p. log_hook (EvHook ''orphan-pts-master'') (OrphanPtsMaster n p)),
     QueryExtFiles = (\<lambda>(s, l). case QueryExtFiles n s of (r, s') \<Rightarrow> (r, (s', l @ [EvHook ''query-ext-files'' (snd r = None)])))\<rparr>"

definition with_log :: "event list \<Rightarrow> 's swrk \<Rightarrow> ('s \<times> event list) swrk" where
  "with_log l c = \<lparr>swrkCmd = swrkCmd c, osLocks = osLocks c, openFds = openFds c, unreaped = unreaped c, sent = sent c, host = (host c, l)\<rparr>"

lemma with_log_update [simp]:
  "(with_log l c)\<lparr>sent := m\<rparr> = with_log l (c\<lparr>sent := m\<rparr>)" "(with_log l c)\<lparr>openFds := k\<rparr> = with_log l (c\<lparr>openFds := k\<rparr>)"
  "(with_log l c)\<lparr>host := (s, l')\<rparr> = with_log l' (c\<lparr>host := s\<rparr>)"
  "host (with_log l c) = (host c, l)" "sent (with_log l c) = sent c" "openFds (with_log l c) = openFds c"
  by (simp_all add: with_log_def)

lemma ack_logged:
  "ack (log_hook ev h) (s, l) = (fst (ack h s), snd (ack h s), l @ [ev (fst (h s) = None)])"
  by (simp add: ack_def log_hook_def split: prod.split)

text \<open>What CRIU asks for: a notification names a hook, and for \<open>orphan-pts-master\<close> a descriptor has to come with it.\<close>

definition hook_scripts :: "string list" where
  "hook_scripts = [''pre-dump'', ''post-dump'', ''pre-restore'', ''post-restore'', ''network-lock'', ''network-unlock'', ''setup-namespaces'',
     ''post-setup-namespaces'', ''pre-resume'', ''post-resume'', ''skip-namespaces'', ''query-ext-files'', ''orphan-pts-master'']"

definition no_descriptor :: "exchange \<Rightarrow> bool" where
  "no_descriptor x \<longleftrightarrow> (case xScm x of Inr (Inr (fd # fds) # ms) \<Rightarrow> False | _ \<Rightarrow> True)"

definition script_of :: "exchange \<Rightarrow> string" where
  "script_of x = (case xResp x of Inl _ \<Rightarrow> [] | Inr r \<Rightarrow> pScript r)"

definition bad_orphan :: "exchange \<Rightarrow> bool" where
  "bad_orphan x \<longleftrightarrow> script_of x = ''orphan-pts-master'' \<and> no_descriptor x"

definition asked :: "exchange \<Rightarrow> string list" where
  "asked x = (if script_of x \<in> set hook_scripts \<and> \<not> bad_orphan x then [script_of x] else [])"

definition is_notify :: "exchange \<Rightarrow> bool" where
  "is_notify x \<longleftrightarrow> (case xResp x of Inl _ \<Rightarrow> False | Inr r \<Rightarrow> pSuccess r \<and> pType r = NOTIFY)"

definition delivered :: "exchange \<Rightarrow> bool" where
  "delivered x \<longleftrightarrow> xMarshalErr x = None \<and> sendAndRecv x = None \<and> is_notify x"

abbreviation hook_event :: "string \<times> bool \<Rightarrow> event" where
  "hook_event h \<equiv> EvHook (fst h) (snd h)"

text \<open>Only an error of \<open>orphan-pts-master\<close> lets the exchange go on.\<close>

definition passed :: "string \<times> bool \<Rightarrow> bool" where
  "passed h \<longleftrightarrow> snd h \<or> fst h = ''orphan-pts-master''"

lemma dispatch_unknown: "pScript resp \<notin> set hook_scripts \<Longrightarrow> dispatch n opts x resp s = (Continue None None, s)"
  by (simp add: dispatch_def hook_scripts_def)

lemma dispatch_hook:
  assumes "pScript resp \<in> set hook_scripts" and "pScript resp \<noteq> ''query-ext-files''" and "pScript resp \<noteq> ''orphan-pts-master''"
  shows "\<exists>h. (\<forall>s. dispatch n opts x resp s = ack h s) \<and> (\<forall>s l. dispatch (logged n) opts x resp (s, l) = ack (log_hook (EvHook (pScript resp)) h) (s, l))"
  using assms unfolding hook_scripts_def list.set insert_iff empty_iff
  by (elim disjE) (simp_all add: dispatch_def logged_def, (blast intro: exI)+)

lemma dispatch_logged:
  assumes "xResp x = Inr resp"
  shows "\<exists>hs. dispatch (logged n) opts x resp (s, l) =
     (fst (dispatch n opts x resp s), snd (dispatch n opts x resp s), l @ map hook_event hs) \<and> map fst hs = asked x \<and>
     (case fst (dispatch n opts x resp s) of Continue None _ \<Rightarrow> list_all passed hs | _ \<Rightarrow> bad_orphan x \<or> hs \<noteq> [] \<and> \<not> snd (last hs))"
proof -
  consider (query) "pScript resp = ''query-ext-files''" | (orphan) "pScript resp = ''orphan-pts-master''"
    | (other) "pScript resp \<noteq> ''query-ext-files''" "pScript resp \<noteq> ''orphan-pts-master''" by blast
  then show ?thesis
  proof cases
    case query
    then show ?thesis
      using assms by (intro exI [of _ "[(''query-ext-files'', snd (fst (QueryExtFiles n s)) = None)]"])
        (auto simp: dispatch_def logged_def asked_def script_of_def hook_scripts_def bad_orphan_def passed_def split: prod.split option.split)
  next
    case orphan
    show ?thesis
    proof (cases "no_descriptor x")
      case True
      then show ?thesis
        using orphan assms by (intro exI [of _ "[]"])
          (auto simp: dispatch_def logged_def asked_def script_of_def bad_orphan_def no_descriptor_def split: sum.splits list.splits)
    next
      case False
      then obtain fd fds ms where "xScm x = Inr (Inr (fd # fds) # ms)" by (auto simp: no_descriptor_def split: sum.splits list.splits)
      then show ?thesis
        using orphan assms by (intro exI [of _ "[(''orphan-pts-master'', fst (OrphanPtsMaster n fd s) = None)]"])
          (auto simp: dispatch_def logged_def log_hook_def asked_def script_of_def hook_scripts_def bad_orphan_def no_descriptor_def passed_def
            split: prod.split option.split goerr.split)
    qed
  next
    case other
    show ?thesis
    proof (cases "pScript resp \<in> set hook_scripts")
      case True
      then obtain h where h: "\<And>s. dispatch n opts x resp s = ack h s"
        "\<And>s l. dispatch (logged n) opts x resp (s, l) = ack (log_hook (EvHook (pScript resp)) h) (s, l)"
        using dispatch_hook other by blast
      then show ?thesis
        using assms True other by (intro exI [of _ "[(pScript resp, fst (h s) = None)]"])
          (auto simp: ack_def log_hook_def asked_def script_of_def bad_orphan_def passed_def split: prod.split option.split)
    next
      case False
      then show ?thesis
        using assms by (intro exI [of _ "[]"]) (simp add: dispatch_unknown asked_def script_of_def)
    qed
  qed
qed

text \<open>
  The hooks that ran, with what they returned: those asked for by the first \<open>k\<close> notifications, in their order. Before the last of them none failed, and the
  driver stops before the end of the notifications only at a failed hook or at a missing descriptor.
\<close>

definition handled :: "exchange list \<Rightarrow> (string \<times> bool) list \<Rightarrow> nat \<Rightarrow> bool" where
  "handled xs hs k \<longleftrightarrow> k \<le> length (takeWhile delivered xs) \<and> map fst hs = concat (map asked (take k xs)) \<and> list_all passed (butlast hs)
     \<and> (k < length (takeWhile delivered xs) \<longrightarrow> 0 < k \<and> (bad_orphan (xs ! (k - 1)) \<or> hs \<noteq> [] \<and> \<not> snd (last hs)))"

lemma handled_0: "\<not> delivered x \<Longrightarrow> handled (x # xs) [] 0" "handled [] [] 0"
  by (simp_all add: handled_def)

lemma handled_1:
  "delivered x \<Longrightarrow> map fst hs = asked x \<Longrightarrow> bad_orphan x \<or> hs \<noteq> [] \<and> \<not> snd (last hs) \<Longrightarrow> handled (x # xs) hs 1"
proof -
  assume a: "delivered x" "map fst hs = asked x" "bad_orphan x \<or> hs \<noteq> [] \<and> \<not> snd (last hs)"
  have "length hs \<le> 1" using arg_cong [OF a(2), of length] by (simp add: asked_def split: if_splits)
  then have "butlast hs = []" by (cases hs) auto
  then show ?thesis using a by (simp add: handled_def)
qed

lemma handled_Suc:
  assumes "delivered x" "map fst hs = asked x" "list_all passed hs" "handled xs hs' k"
  shows "handled (x # xs) (hs @ hs') (Suc k)"
proof -
  have "list_all passed (butlast (hs @ hs'))"
    using assms(3,4) by (auto simp: handled_def butlast_append list_all_iff dest: in_set_butlastD)
  then show ?thesis using assms by (auto simp: handled_def)
qed

lemma swrk_loop_logged:
  "\<exists>hs k. swrk_loop (Some (logged n)) opts req xs (with_log l c) =
     (fst (swrk_loop (Some n) opts req xs c), with_log (l @ map hook_event hs) (snd (swrk_loop (Some n) opts req xs c))) \<and> handled xs hs k"
proof (induction xs arbitrary: req c l)
  case Nil
  show ?case by (rule exI [of _ "[]"], rule exI [of _ 0]) (simp add: handled_0)
next
  case (Cons x xs)
  let ?c1 = "\<lambda>s. c\<lparr>sent := sent c @ [req], openFds := openFds c + received x, host := s\<rparr>"
  show ?case
  proof (cases "delivered x")
    case False
    then show ?thesis
      by (intro exI [of _ "[]"] exI [of _ 0] conjI handled_0)
        (cases "xMarshalErr x"; cases "sendAndRecv x"; cases "xResp x"; auto simp: Let_def delivered_def is_notify_def)
  next
    case True
    then obtain resp where t: "xMarshalErr x = None" "sendAndRecv x = None" "xResp x = Inr resp" "pSuccess resp" "pType resp = NOTIFY"
      by (auto simp: delivered_def is_notify_def split: sum.splits)
    obtain o1 s1 where d: "dispatch n opts x resp (host c) = (o1, s1)"
      by (cases "dispatch n opts x resp (host c)")
    obtain hs where dl: "dispatch (logged n) opts x resp (host c, l) = (o1, s1, l @ map hook_event hs)" and hs: "map fst hs = asked x"
      and p: "case o1 of Continue None _ \<Rightarrow> list_all passed hs | _ \<Rightarrow> bad_orphan x \<or> hs \<noteq> [] \<and> \<not> snd (last hs)"
      using dispatch_logged [OF t(3), of n opts "host c" l] d by auto
    show ?thesis
    proof (cases "\<exists>reply. o1 = Continue None reply")
      case c: True
      then obtain reply where o1: "o1 = Continue None reply" by blast
      obtain hs' k where r: "swrk_loop (Some (logged n)) opts (ack_req reply) xs (with_log (l @ map hook_event hs) (?c1 s1)) =
          (fst (swrk_loop (Some n) opts (ack_req reply) xs (?c1 s1)),
           with_log ((l @ map hook_event hs) @ map hook_event hs') (snd (swrk_loop (Some n) opts (ack_req reply) xs (?c1 s1))))" and k: "handled xs hs' k"
        using Cons.IH by blast
      have "handled (x # xs) (hs @ hs') (Suc k)" using handled_Suc [OF True hs _ k] p o1 by simp
      then show ?thesis
        using t d dl o1 r by (intro exI [of _ "hs @ hs'"] exI [of _ "Suc k"]) simp
    next
      case c: False
      then have "handled (x # xs) hs 1" using handled_1 [OF True hs] p by (auto split: outcome.splits option.splits)
      then show ?thesis
        using t d dl c by (intro exI [of _ hs] exI [of _ 1]) (cases o1; auto split: option.split)
    qed
  qed
qed

text \<open>What the log of a dump looks like: nothing if CRIU could not be started, and otherwise at least \<open>Initialize\<close>.\<close>

definition dump_trace :: "bool \<Rightarrow> exchange list \<Rightarrow> event list \<Rightarrow> bool" where
  "dump_trace started xs l \<longleftrightarrow>
     (if \<not> started then l = []
      else l = [EvInitialize False] \<or> l = [EvInitialize True, EvInitDump False]
        \<or> (\<exists>hs k err ok. l = [EvInitialize True, EvInitDump True] @ map hook_event hs @ [EvFinalizeDump err ok] \<and> handled xs hs k))"

lemma run_deferred_logged:
  "run_deferred (\<lambda>err. log_hook (ev err) (f err)) (r, with_log l c) =
     (fst (run_deferred f (r, c)),
      with_log (l @ [ev (named_result (snd r)) (fst (f (named_result (snd r)) (host c)) = None)]) (snd (run_deferred f (r, c))))"
  by (simp add: run_deferred_def log_hook_def split: prod.split)

lemma swrk_body_logged:
  "\<exists>l. swrk_body env DUMP opts (Some (logged n)) req xs (with_log [] c) =
     (fst (swrk_body env DUMP opts (Some n) req xs c), with_log l (snd (swrk_body env DUMP opts (Some n) req xs c)))
     \<and> dump_trace True xs l"
proof -
  obtain e s1 where i: "Initialize n (startPid env) (host c) = (e, s1)" by (metis surj_pair)
  obtain e2 s2 where d: "InitializeDump n opts s1 = (e2, s2)" by (metis surj_pair)
  let ?R = "swrk_loop (Some n) opts req xs (c\<lparr>host := s2\<rparr>)"
  obtain hs k where loop: "swrk_loop (Some (logged n)) opts req xs (with_log [EvInitialize True, EvInitDump True] (c\<lparr>host := s2\<rparr>)) =
      (fst ?R, with_log ([EvInitialize True, EvInitDump True] @ map hook_event hs) (snd ?R))" and k: "handled xs hs k"
    using swrk_loop_logged by blast
  have sel: "Initialize (logged n) = (\<lambda>p. log_hook EvInitialize (Initialize n p))"
    "InitializeDump (logged n) = (\<lambda>p. log_hook EvInitDump (InitializeDump n p))"
    "FinalizeDump (logged n) = (\<lambda>p err. log_hook (EvFinalizeDump err) (FinalizeDump n p err))"
    by (simp_all add: logged_def)
  show ?thesis
  proof (cases "e = None \<and> e2 = None")
    case True
    then show ?thesis
      using i d loop k
      by (intro exI [of _ "[EvInitialize True, EvInitDump True] @ map hook_event hs @
           [EvFinalizeDump (named_result (snd (fst ?R)))
             (fst (FinalizeDump n opts (named_result (snd (fst ?R))) (host (snd ?R))) = None)]"] conjI)
        (simp add: swrk_body_def sel log_hook_def [of EvInitialize] log_hook_def [of EvInitDump] run_deferred_logged,
         auto simp: dump_trace_def)
  next
    case False
    then show ?thesis
      using i d by (cases e; cases e2) (auto simp: swrk_body_def sel log_hook_def dump_trace_def)
  qed
qed

section \<open>Properties of the driver\<close>

text \<open>
  C2: what a call of CRIU leaves behind. Whatever CRIU answers and whichever hook fails, a driver that was idle before \<open>doSwrkWithResp\<close> is idle after it and its goroutine
  is pinned to its thread as often as before, provided \<open>net.FileConn\<close> succeeds. The child has been reaped, unless waiting for it failed with another error than
  \<open>ECHILD\<close>. The descriptors that are still open are exactly those that CRIU passed with the messages that were read: the driver closes all its own and none of those.
\<close>

theorem doSwrkWithResp_balanced:
  assumes "swrkCmd c = None" and "fileConnErr env = None"
  shows "swrkCmd (snd (doSwrkWithResp env t opts nfy features xs c)) = None
   \<and> osLocks (snd (doSwrkWithResp env t opts nfy features xs c)) = osLocks c
   \<and> (unreaped (snd (doSwrkWithResp env t opts nfy features xs c)) = unreaped c
      \<or> waitErr env \<noteq> None \<and> \<not> waitIsEchild env \<and> unreaped (snd (doSwrkWithResp env t opts nfy features xs c)) = startPid env # unreaped c)
   \<and> (\<exists>k. took_place xs k c (snd (doSwrkWithResp env t opts nfy features xs c)))"
proof -
  obtain e c1 where p: "Prepare env c = (e, c1)" by (cases "Prepare env c")
  let ?b = "swrk_body env t (case map_option (set_opts env (nfy \<noteq> None)) opts of Some p \<Rightarrow> p | None \<Rightarrow> empty_opts)
     nfy \<lparr>qType = t, qNotifySuccess = False, qOpts = map_option (set_opts env (nfy \<noteq> None)) opts, qFeatures = features\<rparr> xs c1"
  obtain r re c2 where b: "?b = ((r, re), c2)" by (metis surj_pair)
  have f: "swrkCmd c2 = swrkCmd c1 \<and> osLocks c2 = osLocks c1 \<and> unreaped c2 = unreaped c1"
    using swrk_body_frame [of env t "case map_option (set_opts env (nfy \<noteq> None)) opts of Some p \<Rightarrow> p | None \<Rightarrow> empty_opts"
      nfy "\<lparr>qType = t, qNotifySuccess = False, qOpts = map_option (set_opts env (nfy \<noteq> None)) opts, qFeatures = features\<rparr>" xs c1]
    unfolding b by simp
  obtain k where k: "took_place xs k c1 c2"
    using swrk_body_fds [of xs c1 env t "case map_option (set_opts env (nfy \<noteq> None)) opts of Some p \<Rightarrow> p | None \<Rightarrow> empty_opts"
      nfy "\<lparr>qType = t, qNotifySuccess = False, qOpts = map_option (set_opts env (nfy \<noteq> None)) opts, qFeatures = features\<rparr>"]
    unfolding b by auto
  show ?thesis
  proof (cases "(nfy \<noteq> None \<and> opts = None) \<or> e \<noteq> None")
    case True
    then have "\<exists>c'. doSwrkWithResp env t opts nfy features xs c = c' \<and> sent (snd c') = sent c \<and> openFds (snd c') = openFds c
        \<and> swrkCmd (snd c') = None \<and> osLocks (snd c') = osLocks c \<and> unreaped (snd c') = unreaped c"
      using p assms by (auto simp: doSwrkWithResp_def Prepare_def Let_def split: option.splits)
    then show ?thesis using took_place_0 by metis
  next
    case False
    have c1: "swrkCmd c1 = Some (startPid env)" "osLocks c1 = Suc (osLocks c)" "unreaped c1 = startPid env # unreaped c" "openFds c1 = openFds c + 1" "sent c1 = sent c"
      using p False assms by (auto simp: Prepare_def Let_def split: option.splits)
    have r: "snd (doSwrkWithResp env t opts nfy features xs c) = snd (Cleanup env c2)"
      using False p b by (auto simp: doSwrkWithResp_def Let_def split: prod.splits)
    have "took_place xs k c (snd (Cleanup env c2))" using k c1 f by (simp add: took_place_def Cleanup_def)
    then show ?thesis unfolding r using f c1 by (auto simp: Cleanup_def)
  qed
qed

text \<open>
  The descriptor that does leak: when \<open>net.FileConn\<close> fails the server end has not been
  wrapped yet, and nothing closes it.
\<close>

lemma Prepare_leaks_srv:
  "socketpairErr env = None \<Longrightarrow> fileConnErr env = Some e \<Longrightarrow>
   openFds (snd (Prepare env c)) = openFds c + 1"
  by (simp add: Prepare_def)

text \<open>
  C4: every message after the first is an acknowledgement. The driver appends to what it has
  sent the request itself and then only \<open>NOTIFY\<close> messages reporting success; a failing hook is
  never acknowledged as a failure, it ends the exchange.
\<close>

theorem swrk_loop_sent:
  "\<exists>ms. sent (snd (swrk_loop nfy opts req xs c)) = sent c @ ms
     \<and> (ms = [] \<or> hd ms = req) \<and> length ms \<le> Suc (length xs)
     \<and> list_all (\<lambda>m. qType m = NOTIFY \<and> qNotifySuccess m) (tl ms)"
proof (induction xs arbitrary: req c)
  case Nil
  show ?case by (rule exI [of _ "[req]"]) simp
next
  case (Cons x xs)
  show ?case
  proof (rule swrk_loop_Cons_cases [of nfy opts req x xs c])
    assume "snd (swrk_loop nfy opts req (x # xs) c) = c"
    then show ?thesis by (intro exI [of _ "[]"]) (simp del: swrk_loop.simps)
  next
    fix s assume "snd (swrk_loop nfy opts req (x # xs) c) = c\<lparr>sent := sent c @ [req], openFds := openFds c + received x, host := s\<rparr>"
    then show ?thesis by (intro exI [of _ "[req]"]) (simp del: swrk_loop.simps)
  next
    fix reply s
    assume l: "swrk_loop nfy opts req (x # xs) c =
        swrk_loop nfy opts (ack_req reply) xs (c\<lparr>sent := sent c @ [req], openFds := openFds c + received x, host := s\<rparr>)"
    from Cons.IH [where req = "ack_req reply" and c = "c\<lparr>sent := sent c @ [req], openFds := openFds c + received x, host := s\<rparr>"]
    obtain ms where ms: "sent (snd (swrk_loop nfy opts req (x # xs) c)) = sent c @ req # ms"
        "ms = [] \<or> hd ms = ack_req reply" "length ms \<le> Suc (length xs)"
        "list_all (\<lambda>m. qType m = NOTIFY \<and> qNotifySuccess m) (tl ms)"
      unfolding l by auto
    then show ?thesis by (intro exI [of _ "req # ms"]) (cases ms; auto simp: ack_req_def)
  qed
qed

lemma Prepare_with_log:
  "Prepare env (with_log l c) = (fst (Prepare env c), with_log l (snd (Prepare env c)))"
  by (simp add: Prepare_def with_log_def Let_def split: option.split)

lemma Cleanup_with_log:
  "Cleanup env (with_log l c) = (fst (Cleanup env c), with_log l (snd (Cleanup env c)))"
  by (simp add: Cleanup_def with_log_def)


lemma swrk_loop_result:
  "fst (swrk_loop nfy opts req xs c) = (r, None) \<Longrightarrow>
   \<exists>resp x. x \<in> set xs \<and> r = Some resp \<and> xResp x = Inr resp \<and> pSuccess resp \<and> pType resp \<noteq> NOTIFY"
proof (induction nfy opts req xs c rule: swrk_loop.induct)
  case (2 nfy opts req x xs c)
  then show ?case
    by (fastforce simp: Let_def split: option.splits sum.splits if_splits prod.splits outcome.splits)
qed simp

lemma join_err_None [simp]: "join_err a b = None \<longleftrightarrow> a = None \<and> b = None"
  by (auto simp: join_err_def named_result_def split: option.splits goerr.splits)

lemma run_deferred_ok:
  "fst (run_deferred f ((r, e), c)) = (r', None) \<longleftrightarrow> r' = r \<and> e = None \<and> fst (f None (host c)) = None"
  by (auto simp: run_deferred_def named_result_def split: prod.splits)

lemma swrk_body_result:
  assumes "fst (swrk_body env t opts nfy req xs c) = (r, None)"
  shows "\<exists>resp x. x \<in> set xs \<and> r = Some resp \<and> xResp x = Inr resp \<and> pSuccess resp \<and> pType resp \<noteq> NOTIFY"
proof -
  have "\<exists>c'. fst (swrk_loop nfy opts req xs c') = (r, None)"
  proof (cases nfy)
    case None
    with assms show ?thesis by (auto simp: swrk_body_def)
  next
    case (Some n)
    have d: "fst (run_deferred f (swrk_loop nfy opts req xs c')) = (r, None) \<Longrightarrow>
        fst (swrk_loop nfy opts req xs c') = (r, None)" for f c'
      by (cases "swrk_loop nfy opts req xs c'"; cases "fst (swrk_loop nfy opts req xs c')")
        (simp add: run_deferred_ok)
    obtain e1 s1 where i: "Initialize n (startPid env) (host c) = (e1, s1)" by (metis surj_pair)
    show ?thesis
      using assms Some i
      by (auto simp: swrk_body_def split: option.splits prod.splits if_splits dest: d [unfolded Some])
  qed
  then show ?thesis using swrk_loop_result by blast
qed

text \<open>
  C3: a dump that is reported to have succeeded did succeed: CRIU sent a response marked
  successful whose type is \<open>DUMP\<close>, its dump entry is what is returned, and closing the socket
  and waiting for CRIU gave no error other than \<open>ECHILD\<close>.
\<close>

theorem Criu_Dump_success:
  assumes "swrkCmd c = None" and "Criu_Dump env opts nfy xs c = ((d, None), c')"
  shows "(\<exists>resp x. x \<in> set xs \<and> xResp x = Inr resp \<and> pSuccess resp \<and> pType resp = DUMP \<and> d = pDump resp)
    \<and> skCloseErr env = None \<and> (waitErr env = None \<or> waitIsEchild env)"
proof -
  obtain r where w: "doSwrkWithResp env DUMP opts nfy None xs c = ((Some r, None), c')"
      and t: "pType r = DUMP" and dr: "d = pDump r"
    using assms(2) by (auto simp: Criu_Dump_def doSwrk_def split: prod.splits option.splits if_splits)
  obtain c1 where p: "Prepare env c = (None, c1)"
    using w by (cases "Prepare env c"; cases "fst (Prepare env c)") (auto simp: doSwrkWithResp_def Let_def split: if_splits)
  then have run: "swrkCmd c1 \<noteq> None" by (auto simp: Prepare_def Let_def split: option.splits)
  let ?o = "map_option (set_opts env (nfy \<noteq> None)) opts"
  let ?p = "case ?o of Some p \<Rightarrow> p | None \<Rightarrow> empty_opts"
  let ?q = "\<lparr>qType = DUMP, qNotifySuccess = False, qOpts = ?o, qFeatures = None\<rparr>"
  obtain r2 e2 c2 where b: "swrk_body env DUMP ?p nfy ?q xs c1 = ((r2, e2), c2)" by (metis surj_pair)
  then have run2: "swrkCmd c2 \<noteq> None" using swrk_body_frame [of env DUMP ?p nfy ?q xs c1] run by simp
  have ok: "r2 = Some r \<and> e2 = None \<and> fst (Cleanup env c2) = None"
    using w p b by (auto simp: doSwrkWithResp_def Let_def split: if_splits prod.splits)
  then have "\<exists>resp x. x \<in> set xs \<and> Some r = Some resp \<and> xResp x = Inr resp \<and> pSuccess resp \<and> pType resp \<noteq> NOTIFY"
    using swrk_body_result [of env DUMP ?p nfy ?q xs c1 r2] b by simp
  moreover have "skCloseErr env = None \<and> (waitErr env = None \<or> waitIsEchild env)"
    using ok run2 by (auto simp: Cleanup_def split: option.splits if_splits)
  ultimately show ?thesis using t dr by blast
qed

text \<open>
  an error of the \<open>OrphanPtsMaster\<close> hook is lost. When CRIU hands over the master
  of an orphaned terminal, the exchange goes on with a success acknowledgement whether or
  not the hook failed: the result does not depend on the error the hook returns.
\<close>

theorem orphan_pts_error_lost:
  assumes "xMarshalErr x = None" and "sendAndRecv x = None" and "xResp x = Inr resp"
    and "pSuccess resp" and "pType resp = NOTIFY" and "pScript resp = ''orphan-pts-master''"
    and "xScm x = Inr (Inr (fd # fds) # ms)" and "named_result (fst (OrphanPtsMaster n fd (host c))) = fst (OrphanPtsMaster n fd (host c))"
  shows "swrk_loop (Some n) opts req (x # xs) c =
    swrk_loop (Some n) opts (ack_req None) xs
      (c\<lparr>sent := sent c @ [req], openFds := openFds c + received x, host := snd (OrphanPtsMaster n fd (host c))\<rparr>)"
  using assms by (cases "OrphanPtsMaster n fd (host c)") (auto simp: dispatch_def named_result_def split: option.splits goerr.splits)

definition release :: "criu_version \<Rightarrow> bool" where
  "release v \<longleftrightarrow> 0 \<le> MajorNumber v \<and> MajorNumber v \<le> 200000 \<and> 0 \<le> MinorNumber v \<and> MinorNumber v < 100
     \<and> 0 \<le> Sublevel v \<and> Sublevel v < 100 \<and> Gitid v = []"

definition version_le :: "criu_version \<Rightarrow> criu_version \<Rightarrow> bool" where
  "version_le w v \<longleftrightarrow> MajorNumber w < MajorNumber v \<or> MajorNumber w = MajorNumber v \<and>
     (MinorNumber w < MinorNumber v \<or> MinorNumber w = MinorNumber v \<and> Sublevel w \<le> Sublevel v)"

lemma version_number_normal:
  assumes "0 \<le> MajorNumber v" "MajorNumber v \<le> 200000" "0 \<le> MinorNumber v" "MinorNumber v < 100"
    "0 \<le> Sublevel v" "Sublevel v < 100" and "Gitid v = []"
  shows "version_number v = MajorNumber v * 10000 + MinorNumber v * 100 + Sublevel v"
proof -
  have id: "i32 x = x" if "0 \<le> x" "x < 2 ^ 31" for x :: int
    using that by (simp add: i32_def)
  show ?thesis using assms by (simp add: version_number_def Let_def id)
qed

lemma version_number_le:
  assumes "release w" and "release v"
  shows "version_number w \<le> version_number v \<longleftrightarrow> version_le w v"
  using assms unfolding release_def version_le_def by (auto simp: version_number_normal)

text \<open>
  C5: version numbers compare as versions. For release versions with two-digit minor and
  sublevel numbers, \<open>IsCriuAtLeast\<close> asked for the number of release \<open>w\<close> answers, without
  error, whether the running CRIU's version is at least \<open>w\<close> in the lexicographic order.
\<close>

theorem IsCriuAtLeast_lex:
  assumes "Prepare env c = (None, c1)" and "fst (Cleanup env c1) = None"
    and "xMarshalErr x = None" and "sendAndRecv x = None" and "xResp x = Inr resp"
    and "pSuccess resp" and "pType resp = VERSION" and "release (pVersion resp)" and "release w"
  shows "fst (IsCriuAtLeast env (version_number w) (x # xs) c) = (version_le w (pVersion resp), None)"
  using assms
  by (auto simp: IsCriuAtLeast_def GetCriuVersion_def doSwrkWithResp_def swrk_body_def Let_def version_number_le
        join_err_def named_result_def Cleanup_def split: prod.splits if_splits)

section \<open>Witnesses\<close>

text \<open>A machine on which nothing fails, an exchange with a given response, and hooks that all succeed
  except \<open>OrphanPtsMaster\<close>, over a counter of hook calls.\<close>

definition ok_env :: swrk_env where
  "ok_env = \<lparr>socketpairErr = None, fileConnErr = None, startErr = None, startPid = 42, isRoot = True,
     skCloseErr = None, waitErr = None, waitIsEchild = False\<rparr>"

definition resp_of :: "req_type \<Rightarrow> string \<Rightarrow> criu_resp" where
  "resp_of t script = \<lparr>pType = t, pSuccess = True, pCrErrmsg = [], pCrErrno = 0, pScript = script, pNotifyPid = 1,
     pVersion = \<lparr>MajorNumber = 4, MinorNumber = 1, Sublevel = 1, Gitid = []\<rparr>, pDump = Some ''done'', pRestore = None, pPs = (0, 0)\<rparr>"

definition reply_of :: "criu_resp \<Rightarrow> exchange" where
  "reply_of r = \<lparr>xMarshalErr = None, xWrite = (\<lambda>_. (True, None)), xReadErr = None, xTrunc = False,
     xResp = Inr r, xScm = (if pScript r = ''orphan-pts-master'' then Inr [Inr [7]] else Inr [])\<rparr>"

definition idle :: "nat \<Rightarrow> nat swrk" where
  "idle k = \<lparr>swrkCmd = None, osLocks = 0, openFds = 0, unreaped = [], sent = [], host = k\<rparr>"

definition counting :: "(criu_opts, nat) notify" where
  "counting = \<lparr>Initialize = \<lambda>_ k. (None, k + 1), InitializeDump = \<lambda>_ k. (None, k + 1),
     InitializeRestore = \<lambda>_ k. (None, k + 1), FinalizeDump = \<lambda>_ _ k. (None, k + 1),
     FinalizeRestore = \<lambda>_ _ k. (None, k + 1), PreDump = \<lambda>_ k. (None, k + 1), PostDump = \<lambda>_ k. (None, k + 1),
     PreRestore = \<lambda>_ k. (None, k + 1), PostRestore = \<lambda>_ k. (None, k + 1), NetworkLock = \<lambda>k. (None, k + 1),
     NetworkUnlock = \<lambda>k. (None, k + 1), SetupNamespaces = \<lambda>_ k. (None, k + 1),
     PostSetupNamespaces = \<lambda>k. (None, k + 1), SkipNamespaces = \<lambda>_ k. (None, k + 1),
     PreResume = \<lambda>k. (None, k + 1), PostResume = \<lambda>k. (None, k + 1),
     OrphanPtsMaster = \<lambda>_ k. (Some (Errorf ''bad terminal''), k + 1),
     QueryExtFiles = \<lambda>k. (([], None), k + 1)\<rparr>"

lemmas swrk_witness_defs = ok_env_def resp_of_def reply_of_def idle_def counting_def Criu_Dump_def doSwrk_def
  doSwrkWithResp_def swrk_body_def run_deferred_def received_def Prepare_def Cleanup_def sendAndRecv_def set_opts_def
  join_err_def named_result_def eval_nat_numeral

theorem doSwrkWithResp_balanced_witness:
  "osLocks (snd (doSwrkWithResp ok_env DUMP (Some empty_opts) (Some counting) None [reply_of (resp_of DUMP [])] (idle 0))) = 0"
  using doSwrkWithResp_balanced [of "idle 0" ok_env DUMP "Some empty_opts" "Some counting" None "[reply_of (resp_of DUMP [])]"]
  by (simp add: idle_def ok_env_def)

theorem Criu_Dump_success_witness:
  "Criu_Dump ok_env (Some empty_opts) (Some counting) [reply_of (resp_of DUMP [])] (idle 0) =
     ((Some ''done'', None), (idle 3)\<lparr>sent := [\<lparr>qType = DUMP, qNotifySuccess = False,
        qOpts = Some (empty_opts\<lparr>NotifyScripts := Some True\<rparr>), qFeatures = None\<rparr>]\<rparr>)
   \<and> skCloseErr ok_env = None"
proof -
  let ?xs = "[reply_of (resp_of DUMP [])]"
  let ?c = "(idle 3)\<lparr>sent := [\<lparr>qType = DUMP, qNotifySuccess = False,
        qOpts = Some (empty_opts\<lparr>NotifyScripts := Some True\<rparr>), qFeatures = None\<rparr>]\<rparr>"
  have run: "Criu_Dump ok_env (Some empty_opts) (Some counting) ?xs (idle 0) = ((Some ''done'', None), ?c)"
    by (simp add: swrk_witness_defs)
  have idle: "swrkCmd (idle 0) = None" by (simp add: idle_def)
  show ?thesis using Criu_Dump_success [OF idle run] run by simp
qed

theorem orphan_pts_error_lost_witness:
  "OrphanPtsMaster counting 7 0 = (Some (Errorf ''bad terminal''), 1)
   \<and> fst (swrk_loop (Some counting) empty_opts (ack_req None)
        [reply_of (resp_of NOTIFY ''orphan-pts-master''), reply_of (resp_of DUMP [])] (idle 0)) =
      (Some (resp_of DUMP []), None)"
  using orphan_pts_error_lost [where x = "reply_of (resp_of NOTIFY ''orphan-pts-master'')" and resp = "resp_of NOTIFY ''orphan-pts-master''"
      and fd = 7 and fds = "[]" and ms = "[]" and n = counting and opts = empty_opts and req = "ack_req None" and xs = "[reply_of (resp_of DUMP [])]" and c = "idle 0"]
  by (simp add: swrk_witness_defs)

theorem IsCriuAtLeast_lex_witness:
  "fst (IsCriuAtLeast ok_env (version_number \<lparr>MajorNumber = 3, MinorNumber = 17, Sublevel = 0, Gitid = []\<rparr>)
      [reply_of (resp_of VERSION [])] (idle 0)) = (True, None)"
  using IsCriuAtLeast_lex [of ok_env "idle 0" "snd (Prepare ok_env (idle 0))" "reply_of (resp_of VERSION [])" "resp_of VERSION []"
      "\<lparr>MajorNumber = 3, MinorNumber = 17, Sublevel = 0, Gitid = []\<rparr>" "[]"]
  by (simp add: swrk_witness_defs release_def version_le_def)

end
