(* ===== verification/Gpu_Callback.thy ===== *)
theory Gpu_Callback
  imports Criu_Swrk Gpu_Pool_Props
begin

text \<open>
  \<^bold>\<open>internal/cedana/gpu/controller.go, CRIUCallback\<close>: the hooks through which a dump or a restore by CRIU also dumps or restores the GPU.
  They hold the termination mutex of the controller from the initialisation to the end of the operation, freeze the GPU
  before a dump, and run the controller's own dump and restore. The theorems compose them with the CRIU driver of
  \<open>Criu_Swrk\<close>.
\<close>

section \<open>State\<close>

text \<open>
  The variables that the closures of one callback share (\<open>dumpErr\<close>, \<open>restoreErr\<close>, \<open>restoredPid\<close>), the pool, the controllers
  whose last successful freeze was not followed by a successful unfreeze, the processes that were killed, and
  whether a hook waits for ever. A channel is nil (\<open>None\<close>) or what it still holds; the goroutine that feeds it closes it in the
  end, and its remote call has a deadline, so receiving from a channel that is not nil returns. A hook that waits for ever
  does not return; the model marks the state as \<open>hung\<close>, after which no hook changes it.
\<close>

record gpu_cb =
  gPool :: gpu_state
  frozen :: "string list"
  dumpErr :: "goerr list option"
  restoreErr :: "goerr list option"
  restoredPid :: "int option"
  sigkilled :: "int list"
  hung :: bool

definition receive :: "goerr list \<Rightarrow> error \<times> goerr list" where
  "receive buf = (case buf of [] \<Rightarrow> (None, []) | e # es \<Rightarrow> (Some e, es))"

definition hang :: "gpu_cb hook" where
  "hang s = (Some (Panic ''waits for ever''), s\<lparr>hung := True\<rparr>)"

definition unless_hung :: "gpu_cb hook \<Rightarrow> gpu_cb hook" where
  "unless_hung f s = (if hung s then hang s else f s)"

definition nil_deref :: goerr where
  "nil_deref = Panic ''nil pointer dereference''"

definition not_found :: goerr where
  "not_found = Errorf ''GPU controller not found, is the process still running?''"

definition rpc_failed :: "string \<Rightarrow> goerr \<Rightarrow> goerr" where
  "rpc_failed msg e = (case e of Panic p \<Rightarrow> Panic p | _ \<Rightarrow> Errorf (msg @ err_text (the (GRPCError (Some e) []))))"

definition get_str :: "string option \<Rightarrow> string" where
  "get_str v = (case v of None \<Rightarrow> [] | Some s \<Rightarrow> s)"

definition get_bool :: "bool option \<Rightarrow> bool" where
  "get_bool v = (v = Some True)"

text \<open>The deferred \<open>controller.Termination.Unlock()\<close>; unlocking a mutex that is not locked is fatal.\<close>

definition lock_termination :: "controller \<Rightarrow> gpu_cb \<Rightarrow> gpu_cb" where
  "lock_termination c s = s\<lparr>gPool := set_ctl (c\<lparr>Termination := True\<rparr>) (gPool s)\<rparr>"

definition unlock_termination :: "controller \<Rightarrow> error \<times> gpu_cb \<Rightarrow> error \<times> gpu_cb" where
  "unlock_termination c r =
     (if Termination c then (fst r, (snd r)\<lparr>gPool := set_ctl (c\<lparr>Termination := False\<rparr>) (gPool (snd r))\<rparr>)
      else (Some (Panic ''sync: unlock of unlocked mutex''), snd r))"

section \<open>Dump\<close>

definition gpu_InitializeDump :: "gpu_env \<Rightarrow> string \<Rightarrow> criu_opts \<Rightarrow> gpu_cb hook" where
  "gpu_InitializeDump env ident opts = unless_hung (\<lambda>s.
     case pool_Get ident (gPool s) of
       None \<Rightarrow> (Some not_found, s)
     | Some c \<Rightarrow>
       if Termination c then hang s
       else (case rpc c (gFreeze env ident) of
           Some e \<Rightarrow> (Some (rpc_failed ''failed to freeze GPU: '' e), lock_termination c s)
         | None \<Rightarrow> (None, (lock_termination c s)\<lparr>frozen := ident # frozen s\<rparr>)))"

text \<open>The goroutine dumps the GPU; the hook waits for its result, so nothing is left in the channel afterwards.\<close>

definition gpu_PreDump :: "gpu_env \<Rightarrow> string \<Rightarrow> criu_opts \<Rightarrow> gpu_cb hook" where
  "gpu_PreDump env ident opts = unless_hung (\<lambda>s.
     case pool_Get ident (gPool s) of
       None \<Rightarrow> (Some nil_deref, s)
     | Some c \<Rightarrow>
       (let buf = (case rpc c (gDump env ident (get_str (ImagesDir opts)) (get_bool (Stream opts)) (get_bool (LeaveRunning opts))) of
              None \<Rightarrow> [] | Some e \<Rightarrow> [rpc_failed ''failed to dump GPU: '' e])
        in (fst (receive buf), s\<lparr>dumpErr := Some (snd (receive buf))\<rparr>)))"

definition gpu_PostDump :: "gpu_env \<Rightarrow> string \<Rightarrow> criu_opts \<Rightarrow> gpu_cb hook" where
  "gpu_PostDump env ident opts = unless_hung (\<lambda>s.
     case dumpErr s of
       None \<Rightarrow> (None, s)
     | Some buf \<Rightarrow> (fst (receive buf), s\<lparr>dumpErr := Some (snd (receive buf))\<rparr>))"

definition gpu_FinalizeDump :: "gpu_env \<Rightarrow> string \<Rightarrow> criu_opts \<Rightarrow> error \<Rightarrow> gpu_cb hook" where
  "gpu_FinalizeDump env ident opts criuErr = unless_hung (\<lambda>s.
     case pool_Get ident (gPool s) of
       None \<Rightarrow> (Some nil_deref, s)
     | Some c \<Rightarrow>
       unlock_termination c
         (case dumpErr s of
            None \<Rightarrow> (None, s)
          | Some buf \<Rightarrow>
            (let err = fst (receive buf); s1 = s\<lparr>dumpErr := Some (snd (receive buf))\<rparr> in
             if \<not> get_bool (LeaveRunning opts) \<and> criuErr = None then (err, s1)
             else (case rpc c (gUnfreeze env ident) of
                 None \<Rightarrow> (errors_Join [err, None], s1\<lparr>frozen := removeAll ident (frozen s1)\<rparr>)
               | Some (Panic p) \<Rightarrow> (Some (Panic p), s1)
               | Some e \<Rightarrow> (errors_Join [err, GRPCError (Some e) []], s1)))))"

section \<open>Restore\<close>

definition gpu_InitializeRestore :: "gpu_env \<Rightarrow> string \<Rightarrow> criu_opts \<Rightarrow> gpu_cb hook" where
  "gpu_InitializeRestore env ident opts = unless_hung (\<lambda>s.
     case pool_Get ident (gPool s) of
       None \<Rightarrow> (Some not_found, s)
     | Some c \<Rightarrow> if Termination c then hang s else (None, lock_termination c s))"

text \<open>The goroutine restores the GPU while CRIU goes on; its result stays in the channel until a later hook receives it.\<close>

definition gpu_PreRestore :: "gpu_env \<Rightarrow> string \<Rightarrow> criu_opts \<Rightarrow> gpu_cb hook" where
  "gpu_PreRestore env ident opts = unless_hung (\<lambda>s.
     case pool_Get ident (gPool s) of
       None \<Rightarrow> (Some nil_deref, s)
     | Some c \<Rightarrow>
       (None, s\<lparr>restoreErr := Some (case rpc c (gRestore env ident (get_str (ImagesDir opts)) (get_bool (Stream opts))) of
          None \<Rightarrow> [] | Some e \<Rightarrow> [rpc_failed ''failed to restore GPU: '' e])\<rparr>))"

text \<open>The body of both \<open>SkipNamespacesFunc\<close> and \<open>PostRestoreFunc\<close>.\<close>

definition gpu_attach_restored :: "gpu_env \<Rightarrow> string \<Rightarrow> int \<Rightarrow> gpu_cb hook" where
  "gpu_attach_restored env ident pid = unless_hung (\<lambda>s.
     (let s1 = s\<lparr>restoredPid := Some pid\<rparr> in
      case pool_Get ident (gPool s1) of
        None \<Rightarrow> (Some nil_deref, s1)
      | Some c \<Rightarrow> (case ctl_Attach env (word_of_int pid) c of (e, c') \<Rightarrow> (e, s1\<lparr>gPool := set_ctl c' (gPool s1)\<rparr>))))"

definition kill_restored :: "gpu_cb \<Rightarrow> gpu_cb" where
  "kill_restored s = (case restoredPid s of None \<Rightarrow> s | Some pid \<Rightarrow> s\<lparr>sigkilled := sigkilled s @ [pid]\<rparr>)"

definition gpu_PreResume :: "gpu_env \<Rightarrow> string \<Rightarrow> gpu_cb hook" where
  "gpu_PreResume env ident = unless_hung (\<lambda>s.
     case restoreErr s of
       None \<Rightarrow> hang s
     | Some buf \<Rightarrow>
       (let err = fst (receive buf); s1 = s\<lparr>restoreErr := Some (snd (receive buf))\<rparr>
        in (err, if err \<noteq> None then kill_restored s1 else s1)))"

definition gpu_FinalizeRestore :: "gpu_env \<Rightarrow> string \<Rightarrow> criu_opts \<Rightarrow> error \<Rightarrow> gpu_cb hook" where
  "gpu_FinalizeRestore env ident opts criuErr = unless_hung (\<lambda>s.
     case pool_Get ident (gPool s) of
       None \<Rightarrow> (Some nil_deref, s)
     | Some c \<Rightarrow>
       unlock_termination c
         (case restoreErr s of
            None \<Rightarrow> (None, s)
          | Some buf \<Rightarrow>
            (let (err, buf') = (if criuErr = None then receive buf else (None, buf)); s1 = s\<lparr>restoreErr := Some buf'\<rparr>
             in (err, if err \<noteq> None \<or> criuErr \<noteq> None then kill_restored s1 else s1))))"

section \<open>The callback\<close>

definition CRIUCallback :: "gpu_env \<Rightarrow> string \<Rightarrow> (criu_opts, gpu_cb) notify_callback" where
  "CRIUCallback env ident = \<lparr>InitializeFunc = None, InitializeDumpFunc = Some (gpu_InitializeDump env ident),
     InitializeRestoreFunc = Some (gpu_InitializeRestore env ident), FinalizeDumpFunc = Some (gpu_FinalizeDump env ident),
     FinalizeRestoreFunc = Some (gpu_FinalizeRestore env ident), PreDumpFunc = Some (gpu_PreDump env ident),
     PostDumpFunc = Some (gpu_PostDump env ident), PreRestoreFunc = Some (gpu_PreRestore env ident),
     PostRestoreFunc = Some (gpu_attach_restored env ident), NetworkLockFunc = None, NetworkUnlockFunc = None,
     SetupNamespacesFunc = None, PostSetupNamespacesFunc = None, SkipNamespacesFunc = Some (gpu_attach_restored env ident),
     PreResumeFunc = Some (gpu_PreResume env ident), PostResumeFunc = None, OrphanPtsMasterFunc = None, QueryExtFilesFunc = None,
     cbName = ''gpu''\<rparr>"

text \<open>A call of \<open>CRIUCallback\<close> makes new variables.\<close>

definition new_cb :: "gpu_state \<Rightarrow> string list \<Rightarrow> gpu_cb" where
  "new_cb st fz = \<lparr>gPool = st, frozen = fz, dumpErr = None, restoreErr = None, restoredPid = None, sigkilled = [], hung = False\<rparr>"

abbreviation gpu_notify :: "gpu_env \<Rightarrow> string \<Rightarrow> (criu_opts, gpu_cb) notify" where
  "gpu_notify env ident \<equiv> notify_of_callback (CRIUCallback env ident)"

section \<open>The driver's effect on the hooks' state\<close>

lemma swrk_loop_inv:
  assumes "\<And>x resp s. x \<in> set xs \<Longrightarrow> xResp x = Inr resp \<Longrightarrow> P s \<Longrightarrow> P (snd (dispatch n opts x resp s))" and "P (host c)"
  shows "P (host (snd (swrk_loop (Some n) opts req xs c)))"
  using assms
proof (induction xs arbitrary: req c)
  case (Cons x xs)
  have step: "P (snd (dispatch n opts x resp (host c)))" if "xResp x = Inr resp" for resp
    using Cons.prems that by simp
  have rest: "P (host (snd (swrk_loop (Some n) opts r xs (c'\<lparr>host := s\<rparr>))))" if "P s" for r s and c' :: "'a swrk"
    using Cons.IH [of "c'\<lparr>host := s\<rparr>" r] Cons.prems(1) that by simp
  show ?case
    using Cons.prems(2) step rest
    by (auto simp: Let_def split: option.splits sum.splits prod.splits outcome.splits)
qed simp

lemma swrk_loop_ok_inv:
  assumes "\<And>x resp s reply s'. x \<in> set xs \<Longrightarrow> P s \<Longrightarrow> dispatch n opts x resp s = (Continue None reply, s') \<Longrightarrow> P s'"
    and "P (host c)" and "fst (swrk_loop (Some n) opts req xs c) = (r, None)"
  shows "P (host (snd (swrk_loop (Some n) opts req xs c)))"
  using assms
proof (induction xs arbitrary: req c)
  case (Cons x xs)
  have rest: "P (host (snd (swrk_loop (Some n) opts q xs (c'\<lparr>host := s\<rparr>))))"
    if "P s" "fst (swrk_loop (Some n) opts q xs (c'\<lparr>host := s\<rparr>)) = (r, None)" for q s and c' :: "'a swrk"
    by (rule Cons.IH [OF Cons.prems(1) [OF list.set_intros(2)]]) (use that in auto)
  show ?case
    using Cons.prems(2,3) Cons.prems(1) [of x] rest
    by (auto simp: Let_def split: option.splits sum.splits prod.splits outcome.splits if_splits)
qed simp

lemma Prepare_host: "Prepare env c = (e, c1) \<Longrightarrow> host c1 = host c"
  by (auto simp: Prepare_def Let_def split: option.splits)

lemma Cleanup_host: "host (snd (Cleanup env c)) = host c"
  by (simp add: Cleanup_def)

definition first_req :: "req_type \<Rightarrow> criu_opts \<Rightarrow> criu_req" where
  "first_req t p = \<lparr>qType = t, qNotifySuccess = False, qOpts = Some p, qFeatures = None\<rparr>"

lemma doSwrk_snd: "snd (doSwrk env t opts nfy xs c) = snd (doSwrkWithResp env t opts nfy None xs c)"
  by (auto simp: doSwrk_def split: prod.splits option.splits)

lemma Criu_snd:
  "snd (Criu_Dump env opts nfy xs c) = snd (doSwrkWithResp env DUMP opts nfy None xs c)"
  "snd (Criu_Restore env opts nfy xs c) = snd (doSwrkWithResp env RESTORE opts nfy None xs c)"
  unfolding doSwrk_snd [symmetric] by (auto simp: Criu_Dump_def Criu_Restore_def split: prod.splits option.splits)

lemma doSwrk_host:
  assumes "Prepare env c = (None, c1)"
  shows "host (snd (doSwrkWithResp env t (Some p) (Some n) None xs c)) =
    host (snd (swrk_body env t (set_opts env True p) (Some n) (first_req t (set_opts env True p)) xs c1))"
  using assms by (simp add: doSwrkWithResp_def first_req_def Let_def Cleanup_host split: prod.splits)
    (metis Cleanup_host snd_conv)

lemma join_err_panic: "named_result a \<noteq> a \<Longrightarrow> \<exists>m. join_err a b = Some (Panic m)"
  by (auto simp: join_err_def named_result_def split: option.splits goerr.splits)

lemma named_result_panic: "named_result e \<noteq> e \<longleftrightarrow> (\<exists>m. e = Some (Panic m))"
  by (auto simp: named_result_def split: option.splits goerr.splits)

lemma run_deferred_panic: "snd (fst r) = Some (Panic m) \<Longrightarrow> \<exists>m. snd (fst (run_deferred f r)) = Some (Panic m)"
  using join_err_panic [of "snd (fst r)"] by (auto simp: run_deferred_def named_result_panic split: prod.splits)

lemma Criu_Dump_panic:
  assumes "Prepare env c = (None, c1)"
    and "snd (fst (swrk_body env DUMP (set_opts env True p) (Some n) (first_req DUMP (set_opts env True p)) xs c1)) = Some (Panic m)"
  shows "\<exists>m. snd (fst (Criu_Dump env (Some p) (Some n) xs c)) = Some (Panic m)"
proof -
  obtain r c2 where b: "swrk_body env DUMP (set_opts env True p) (Some n) (first_req DUMP (set_opts env True p)) xs c1 = ((r, Some (Panic m)), c2)"
    using assms(2) by (metis prod.collapse)
  obtain e c3 where k: "Cleanup env c2 = (e, c3)" by fastforce
  obtain m' where "join_err (Some (Panic m)) e = Some (Panic m')" using join_err_panic [of "Some (Panic m)" e] by (auto simp: named_result_def)
  then show ?thesis
    using assms(1) b k by (cases r) (simp_all add: Criu_Dump_def doSwrk_def doSwrkWithResp_def first_req_def Let_def)
qed

section \<open>The termination mutex\<close>

definition held :: "string \<Rightarrow> gpu_cb \<Rightarrow> bool" where
  "held ident s \<longleftrightarrow> \<not> hung s \<and> (\<exists>c. pool_Get ident (gPool s) = Some c \<and> cID c = ident \<and> Termination c \<and> ClientConn c)"

definition released :: "string \<Rightarrow> gpu_cb \<Rightarrow> bool" where
  "released ident s \<longleftrightarrow> \<not> hung s \<and> (\<exists>c. pool_Get ident (gPool s) = Some c \<and> cID c = ident \<and> \<not> Termination c \<and> ClientConn c)"

lemmas gpu_hooks = gpu_InitializeDump_def gpu_PreDump_def gpu_PostDump_def gpu_FinalizeDump_def gpu_InitializeRestore_def
  gpu_PreRestore_def gpu_attach_restored_def gpu_PreResume_def gpu_FinalizeRestore_def unless_hung_def

lemma ctl_Attach_keeps:
  "ctl_Attach env pid c = (e, c') \<Longrightarrow> cID c' = cID c \<and> Termination c' = Termination c \<and> ClientConn c' = ClientConn c"
  by (auto simp: ctl_Attach_def split: option.splits goerr.splits)

lemma kill_restored_fields [simp]:
  "gPool (kill_restored s) = gPool s" "hung (kill_restored s) = hung s" "frozen (kill_restored s) = frozen s"
  "dumpErr (kill_restored s) = dumpErr s" "restoreErr (kill_restored s) = restoreErr s"
  by (simp_all add: kill_restored_def split: option.splits)

lemma call_hook_snd: "snd (call_hook msg (Some f) s) = snd (f s)"
  by (simp add: call_hook_def split: prod.splits option.splits)

lemma call_hook_fst: "fst (call_hook msg (Some f) s) = map_option (unless_panic (Wrapf msg)) (fst (f s))"
  by (simp add: call_hook_def split: prod.splits option.splits)

lemmas gpu_methods = notify_of_callback_def CRIUCallback_def cb_Initialize_def cb_InitializeDump_def cb_InitializeRestore_def
  cb_FinalizeDump_def cb_FinalizeRestore_def cb_PreDump_def cb_PostDump_def cb_PreRestore_def cb_PostRestore_def
  cb_NetworkLock_def cb_NetworkUnlock_def cb_SetupNamespaces_def cb_PostSetupNamespaces_def cb_SkipNamespaces_def cb_PreResume_def
  cb_PostResume_def cb_OrphanPtsMaster_def cb_QueryExtFiles_def

lemma ack_snd: "snd (ack h s) = snd (h s)"
  by (simp add: ack_def split: prod.splits)

text \<open>What a notification does to the hooks' state: one of the hooks of the callback, or nothing.\<close>

lemma gpu_dispatch_inv:
  assumes "P s" and "pScript resp = ''pre-dump'' \<Longrightarrow> P (snd (gpu_PreDump env ident opts s))"
    and "P (snd (gpu_PostDump env ident opts s))" and "P (snd (gpu_PreRestore env ident opts s))"
    and "P (snd (gpu_attach_restored env ident (pNotifyPid resp) s))"
    and "pScript resp = ''pre-resume'' \<Longrightarrow> P (snd (gpu_PreResume env ident s))"
  shows "P (snd (dispatch (gpu_notify env ident) opts x resp s))"
  using assms
  by (simp add: dispatch_def Let_def ack_snd gpu_methods call_hook_snd split: prod.splits sum.splits list.splits option.splits)

lemma set_ctl_pool [simp]: "cID c = ident \<Longrightarrow> pool_Get ident (set_ctl c st) = Some c"
  by (simp add: set_ctl_Get)

lemma held_hooks:
  assumes "held ident s"
  shows "held ident (snd (gpu_PreDump env ident opts s))" "held ident (snd (gpu_PostDump env ident opts s))"
    "held ident (snd (gpu_PreRestore env ident opts s))" "held ident (snd (gpu_attach_restored env ident pid s))"
    "restoreErr s \<noteq> None \<Longrightarrow> held ident (snd (gpu_PreResume env ident s))"
  using assms
  by (auto simp: held_def gpu_hooks Let_def split: option.splits prod.splits dest: ctl_Attach_keeps)

definition script_free :: "string \<Rightarrow> exchange list \<Rightarrow> bool" where
  "script_free name xs \<longleftrightarrow> list_all (\<lambda>x. case xResp x of Inl _ \<Rightarrow> True | Inr resp \<Rightarrow> pScript resp \<noteq> name) xs"

lemma script_freeD: "script_free name xs \<Longrightarrow> x \<in> set xs \<Longrightarrow> xResp x = Inr resp \<Longrightarrow> pScript resp \<noteq> name"
  by (auto simp: script_free_def list_all_iff split: sum.splits)

text \<open>A controller that a client is connected to and whose termination is not being prevented.\<close>

definition attachable :: "string \<Rightarrow> gpu_state \<Rightarrow> bool" where
  "attachable ident st \<longleftrightarrow> (\<exists>c. pool_Get ident st = Some c \<and> cID c = ident \<and> \<not> Termination c \<and> ClientConn c)"

lemma set_opts_fields [simp]:
  "LeaveRunning (set_opts env b p) = LeaveRunning p" "ImagesDir (set_opts env b p) = ImagesDir p" "Stream (set_opts env b p) = Stream p"
  by (simp_all add: set_opts_def Let_def)

definition dumping :: "string \<Rightarrow> gpu_cb \<Rightarrow> bool" where
  "dumping ident s \<longleftrightarrow> held ident s \<and> ident \<in> set (frozen s) \<and> (dumpErr s = None \<or> dumpErr s = Some [])"

lemma dumping_hooks:
  assumes "dumping ident s"
  shows "dumping ident (snd (gpu_PreDump env ident opts s))" "dumping ident (snd (gpu_PostDump env ident opts s))"
    "dumping ident (snd (gpu_PreRestore env ident opts s))" "dumping ident (snd (gpu_attach_restored env ident pid s))"
    "hung (snd (gpu_PreResume env ident s)) \<or> dumping ident (snd (gpu_PreResume env ident s))"
  using assms held_hooks [of ident s env]
  by (auto simp: dumping_def gpu_hooks receive_def Let_def hang_def split: option.splits prod.splits list.splits)

lemma hung_hooks:
  assumes "hung s"
  shows "hung (snd (gpu_PreDump env ident opts s))" "hung (snd (gpu_PostDump env ident opts s))" "hung (snd (gpu_PreRestore env ident opts s))"
    "hung (snd (gpu_attach_restored env ident pid s))" "hung (snd (gpu_PreResume env ident s))" "hung (snd (gpu_FinalizeDump env ident opts err s))"
  using assms by (simp_all add: gpu_hooks hang_def)

lemma dump_loop:
  assumes "dumping ident (host c)"
  shows "dumping ident (host (snd (swrk_loop (Some (gpu_notify env ident)) opts req xs c)))
    \<or> hung (host (snd (swrk_loop (Some (gpu_notify env ident)) opts req xs c))) \<and> \<not> script_free ''pre-resume'' xs"
proof (rule swrk_loop_inv [where P = "\<lambda>s. dumping ident s \<or> hung s \<and> \<not> script_free ''pre-resume'' xs"])
  fix x resp s
  assume x: "x \<in> set xs" "xResp x = Inr resp" and s: "dumping ident s \<or> hung s \<and> \<not> script_free ''pre-resume'' xs"
  let ?P = "\<lambda>s. dumping ident s \<or> hung s \<and> \<not> script_free ''pre-resume'' xs"
  have r: "pScript resp = ''pre-resume'' \<Longrightarrow> \<not> script_free ''pre-resume'' xs" using script_freeD [OF _ x] by blast
  show "?P (snd (dispatch (gpu_notify env ident) opts x resp s))"
    using s
  proof
    assume d: "dumping ident s"
    show ?thesis by (rule gpu_dispatch_inv [where P = ?P]) (use d dumping_hooks(1-4) [OF d] dumping_hooks(5) [OF d, of env] r in auto)
  next
    assume h: "hung s \<and> \<not> script_free ''pre-resume'' xs"
    show ?thesis by (rule gpu_dispatch_inv [where P = ?P]) (use h hung_hooks [of s] in auto)
  qed
qed (use assms(1) in simp)

lemma dump_loop_free:
  "script_free ''pre-resume'' xs \<Longrightarrow> dumping ident (host c) \<Longrightarrow> dumping ident (host (snd (swrk_loop (Some (gpu_notify env ident)) opts req xs c)))"
  using dump_loop by blast

text \<open>The whole dump: the state in which the loop left the hooks, and then the finaliser.\<close>

lemma gpu_dump_run:
  assumes prep: "Prepare sw c = (None, c1)" and h: "host c = new_cb st fz" and a: "attachable ident st" and f: "gFreeze env ident = None"
  obtains c2 err where "dumping ident (host c2)" and "dumpErr (host c2) = None"
    and "err = named_result (snd (fst (swrk_loop (Some (gpu_notify env ident)) (set_opts sw True p) (first_req DUMP (set_opts sw True p)) xs c2)))"
    and "\<And>m. snd (fst (swrk_loop (Some (gpu_notify env ident)) (set_opts sw True p) (first_req DUMP (set_opts sw True p)) xs c2)) = Some (Panic m)
      \<Longrightarrow> \<exists>m. snd (fst (Criu_Dump sw (Some p) (Some (gpu_notify env ident)) xs c)) = Some (Panic m)"
    and "host (snd (Criu_Dump sw (Some p) (Some (gpu_notify env ident)) xs c)) =
      snd (gpu_FinalizeDump env ident (set_opts sw True p) err
        (host (snd (swrk_loop (Some (gpu_notify env ident)) (set_opts sw True p) (first_req DUMP (set_opts sw True p)) xs c2))))"
proof -
  obtain ctl where ctl: "pool_Get ident st = Some ctl" "cID ctl = ident" "\<not> Termination ctl" "ClientConn ctl"
    using a by (auto simp: attachable_def)
  let ?s = "(lock_termination ctl (new_cb st fz))\<lparr>frozen := ident # fz\<rparr>"
  let ?o = "set_opts sw True p" and ?n = "gpu_notify env ident"
  have init: "gpu_InitializeDump env ident ?o (new_cb st fz) = (None, ?s)"
    using ctl f by (simp add: gpu_InitializeDump_def unless_hung_def new_cb_def rpc_def)
  have i: "Initialize ?n (startPid sw) (host c1) = (None, new_cb st fz)" "InitializeDump ?n ?o (new_cb st fz) = (None, ?s)"
    using init Prepare_host [OF prep] h by (simp_all add: gpu_methods call_hook_def)
  have fin: "FinalizeDump ?n ?o e s = call_hook ''finalize dump callback'' (Some (gpu_FinalizeDump env ident ?o e)) s" for e s
    by (simp add: gpu_methods)
  let ?l = "swrk_loop (Some ?n) ?o (first_req DUMP ?o) xs (c1\<lparr>host := ?s\<rparr>)"
  have body: "swrk_body sw DUMP ?o (Some ?n) (first_req DUMP ?o) xs c1 = run_deferred (FinalizeDump ?n ?o) ?l"
    using i by (simp add: swrk_body_def)
  show thesis
  proof (rule that)
    show "dumping ident (host (c1\<lparr>host := ?s\<rparr>))"
      using ctl by (simp add: dumping_def held_def lock_termination_def new_cb_def set_ctl_Get)
    show "dumpErr (host (c1\<lparr>host := ?s\<rparr>)) = None" by (simp add: lock_termination_def new_cb_def)
    show "host (snd (Criu_Dump sw (Some p) (Some ?n) xs c)) = snd (gpu_FinalizeDump env ident ?o (named_result (snd (fst ?l))) (host (snd ?l)))"
      unfolding Criu_snd doSwrk_host [OF prep] body
      by (simp add: run_deferred_def fin split: prod.splits) (metis call_hook_snd snd_conv)
    show "\<exists>m. snd (fst (Criu_Dump sw (Some p) (Some ?n) xs c)) = Some (Panic m)" if "snd (fst ?l) = Some (Panic m)" for m
      using Criu_Dump_panic [OF prep, of p ?n xs] run_deferred_panic [OF that, of "FinalizeDump ?n ?o"] body by auto
  qed simp
qed

lemma finalize_dump:
  assumes "dumping ident s"
  shows "released ident (snd (gpu_FinalizeDump env ident opts err s))
    \<and> dumpErr (snd (gpu_FinalizeDump env ident opts err s)) = dumpErr s
    \<and> (ident \<in> set (frozen (snd (gpu_FinalizeDump env ident opts err s))) \<longleftrightarrow>
        dumpErr s = None \<or> \<not> get_bool (LeaveRunning opts) \<and> err = None \<or> gUnfreeze env ident \<noteq> None)"
proof -
  obtain c where c: "\<not> hung s" "pool_Get ident (gPool s) = Some c" "cID c = ident" "Termination c" "ClientConn c"
    and d: "dumpErr s = None \<or> dumpErr s = Some []" "ident \<in> set (frozen s)"
    using assms(1) by (auto simp: dumping_def held_def)
  have r: "rpc c (gUnfreeze env ident) = gUnfreeze env ident" using c by (simp add: rpc_def)
  show ?thesis
    using d(1)
  proof
    assume "dumpErr s = None"
    then show ?thesis using c d by (simp add: gpu_FinalizeDump_def unless_hung_def unlock_termination_def released_def)
  next
    assume "dumpErr s = Some []"
    then show ?thesis using c d r
      by (auto simp: gpu_FinalizeDump_def unless_hung_def unlock_termination_def released_def receive_def Let_def split: option.splits goerr.splits)
  qed
qed

text \<open>
  C27: The GPU after a dump. Whatever CRIU sends, a dump whose freeze succeeded ends with the controller's termination
  mutex free, or never ends, which takes a \<open>pre-resume\<close> notification. If the dump of the GPU had started, the GPU is still frozen afterwards only if unfreezing it
  failed, or if the process was not to be left running and CRIU reported the end of a successful operation, or if the daemon crashed.
\<close>

theorem gpu_dump_outcome:
  assumes "Prepare sw c = (None, c1)" and "host c = new_cb st fz" and "attachable ident st" and "gFreeze env ident = None"
    and run: "s' = host (snd (Criu_Dump sw (Some p) (Some (gpu_notify env ident)) xs c))"
  shows "hung s' \<and> \<not> script_free ''pre-resume'' xs \<or>
    released ident s' \<and> (dumpErr s' \<noteq> None \<and> ident \<in> set (frozen s') \<longrightarrow> gUnfreeze env ident \<noteq> None \<or> \<not> get_bool (LeaveRunning p)
    \<and> (\<exists>x resp. x \<in> set xs \<and> xResp x = Inr resp \<and> pSuccess resp \<and> pType resp \<noteq> NOTIFY)
    \<or> (\<exists>m. snd (fst (Criu_Dump sw (Some p) (Some (gpu_notify env ident)) xs c)) = Some (Panic m)))"
proof -
  let ?o = "set_opts sw True p" and ?n = "gpu_notify env ident"
  obtain c2 err where d: "dumping ident (host c2)" "dumpErr (host c2) = None"
    and err: "err = named_result (snd (fst (swrk_loop (Some ?n) ?o (first_req DUMP ?o) xs c2)))"
    and crash: "\<And>m. snd (fst (swrk_loop (Some ?n) ?o (first_req DUMP ?o) xs c2)) = Some (Panic m) \<Longrightarrow>
      \<exists>m. snd (fst (Criu_Dump sw (Some p) (Some ?n) xs c)) = Some (Panic m)"
    and s': "s' = snd (gpu_FinalizeDump env ident ?o err (host (snd (swrk_loop (Some ?n) ?o (first_req DUMP ?o) xs c2))))"
    using gpu_dump_run [OF assms(1-4), of p xs] run by metis
  let ?l = "swrk_loop (Some ?n) ?o (first_req DUMP ?o) xs c2"
  have "\<exists>x resp. x \<in> set xs \<and> xResp x = Inr resp \<and> pSuccess resp \<and> pType resp \<noteq> NOTIFY" if "snd (fst ?l) = None"
    using swrk_loop_result [of "Some ?n" ?o "first_req DUMP ?o" xs c2 "fst (fst ?l)"] that by (metis prod.collapse)
  moreover have "err = None \<longleftrightarrow> snd (fst ?l) = None \<or> (\<exists>m. snd (fst ?l) = Some (Panic m))"
    by (auto simp: err named_result_def split: option.splits goerr.splits)
  moreover have "dumping ident (host (snd ?l)) \<or> hung (host (snd ?l)) \<and> \<not> script_free ''pre-resume'' xs" by (rule dump_loop [OF d(1)])
  ultimately show ?thesis
    using finalize_dump [of ident "host (snd ?l)" env ?o err, folded s'] hung_hooks(6) [of "host (snd ?l)" env ident ?o err, folded s'] crash by auto
qed

lemma no_pre_dump:
  assumes "script_free ''pre-dump'' xs" and "dumpErr (host c) = None"
  shows "dumpErr (host (snd (swrk_loop (Some (gpu_notify env ident)) opts req xs c))) = None"
proof (rule swrk_loop_inv [where P = "\<lambda>s. dumpErr s = None", OF _ assms(2)])
  fix x resp and s :: gpu_cb assume x: "x \<in> set xs" "xResp x = Inr resp" and d: "dumpErr s = None"
  show "dumpErr (snd (dispatch (gpu_notify env ident) opts x resp s)) = None"
    by (rule gpu_dispatch_inv [where P = "\<lambda>s. dumpErr s = None"])
      (use d script_freeD [OF assms(1) x] in \<open>auto simp: gpu_hooks hang_def Let_def split: option.splits prod.splits\<close>)
qed

text \<open>
  C28: A dump that ends early leaves the GPU frozen. When CRIU stops before it asks for the \<open>pre-dump\<close> hook, as it does when it
  fails or dies early, the finaliser takes the dump for not started and does not unfreeze what the initialiser froze.
\<close>

theorem early_failure_leaves_frozen:
  assumes "Prepare sw c = (None, c1)" and "host c = new_cb st fz" and "attachable ident st"
    and "gFreeze env ident = None" and "gUnfreeze env ident = None"
    and free: "script_free ''pre-resume'' xs" "script_free ''pre-dump'' xs"
  shows "ident \<in> set (frozen (host (snd (Criu_Dump sw (Some p) (Some (gpu_notify env ident)) xs c))))"
proof -
  let ?o = "set_opts sw True p" and ?n = "gpu_notify env ident"
  obtain c2 err where d: "dumping ident (host c2)" "dumpErr (host c2) = None"
    and s': "host (snd (Criu_Dump sw (Some p) (Some ?n) xs c)) =
      snd (gpu_FinalizeDump env ident ?o err (host (snd (swrk_loop (Some ?n) ?o (first_req DUMP ?o) xs c2))))"
    using gpu_dump_run [OF assms(1-4), of p xs] by metis
  show ?thesis
    unfolding s' using finalize_dump [OF dump_loop_free [OF free(1) d(1)]] no_pre_dump [OF free(2) d(2)] by blast
qed

text \<open>
  C29: A failed freeze locks the controller for good. The initialiser keeps the termination mutex when the freeze fails, and the driver
  does not run the finaliser after a failed initialiser: terminating the controller then waits for ever, and so does
  the next dump of the process.
\<close>

theorem freeze_failure_locks_controller:
  assumes prep: "Prepare sw c = (None, c1)" and h: "host c = new_cb st fz" and a: "attachable ident st"
    and f: "gFreeze env ident = Some e"
    and run: "s' = host (snd (Criu_Dump sw (Some p) (Some (gpu_notify env ident)) xs c))"
  shows "pool_Terminate ident (gPool s') = None
    \<and> (\<forall>sw2 d d1 p2 ys. Prepare sw2 d = (None, d1) \<and> host d = new_cb (gPool s') fz2 \<longrightarrow>
        hung (host (snd (Criu_Dump sw2 (Some p2) (Some (gpu_notify env ident)) ys d))))"
proof -
  let ?n = "gpu_notify env ident"
  obtain ctl where ctl: "pool_Get ident st = Some ctl" "cID ctl = ident" "\<not> Termination ctl" "ClientConn ctl"
    using a by (auto simp: attachable_def)
  have init: "Initialize ?n k t = (None, t)" for k t by (simp add: gpu_methods)
  have idump: "snd (InitializeDump ?n q t) = snd (gpu_InitializeDump env ident q t)"
    "fst (InitializeDump ?n q t) = None \<longleftrightarrow> fst (gpu_InitializeDump env ident q t) = None" for q t
    by (simp_all add: gpu_methods call_hook_snd call_hook_fst)
  have stop: "host (snd (Criu_Dump sw' (Some q) (Some ?n) zs d)) = snd (gpu_InitializeDump env ident (set_opts sw' True q) (host d))"
    if pr: "Prepare sw' d = (None, d1)" and fl: "fst (gpu_InitializeDump env ident (set_opts sw' True q) (host d)) \<noteq> None" for sw' d d1 q zs
  proof -
    obtain err t where "InitializeDump ?n (set_opts sw' True q) (host d) = (Some err, t)"
      using fl idump(2) by (metis not_None_eq prod.collapse)
    then show ?thesis
      unfolding Criu_snd doSwrk_host [OF pr] using Prepare_host [OF pr] init idump(1)
      by (simp add: swrk_body_def) (metis snd_conv)
  qed
  have "gpu_InitializeDump env ident q (new_cb st fz) = (Some (rpc_failed ''failed to freeze GPU: '' e), lock_termination ctl (new_cb st fz))" for q
    using ctl f by (simp add: gpu_InitializeDump_def unless_hung_def new_cb_def rpc_def)
  then have s': "s' = lock_termination ctl (new_cb st fz)" using run stop [OF prep] h by simp
  then have g: "pool_Get ident (gPool s') = Some (ctl\<lparr>Termination := True\<rparr>)"
    using ctl by (simp add: lock_termination_def new_cb_def set_ctl_Get)
  then have "gpu_InitializeDump env ident q (new_cb (gPool s') fz2) = hang (new_cb (gPool s') fz2)" for q
    by (simp add: gpu_InitializeDump_def unless_hung_def new_cb_def)
  then have "hung (host (snd (Criu_Dump sw2 (Some p2) (Some ?n) ys d)))"
    if "Prepare sw2 d = (None, d1)" "host d = new_cb (gPool s') fz2" for sw2 d d1 p2 ys
    using stop [OF that(1)] that(2) by (simp add: hang_def)
  moreover have "pool_Terminate ident (gPool s') = None" using g by (simp add: pool_Terminate_def)
  ultimately show ?thesis by blast
qed

section \<open>Restore\<close>

definition restoring :: "gpu_env \<Rightarrow> string \<Rightarrow> criu_opts \<Rightarrow> gpu_cb \<Rightarrow> bool" where
  "restoring env ident p s \<longleftrightarrow> held ident s \<and>
     (case restoreErr s of None \<Rightarrow> True
      | Some buf \<Rightarrow> gRestore env ident (get_str (ImagesDir p)) (get_bool (Stream p)) = None \<or> buf \<noteq> [])"

lemma call_hook_ok_iff: "call_hook msg (Some f) s = (None, t) \<longleftrightarrow> f s = (None, t)"
  by (auto simp: call_hook_def split: prod.splits option.splits)

lemma ack_ok: "ack h s = (Continue None reply, t) \<longleftrightarrow> reply = None \<and> h s = (None, t)"
  by (auto simp: ack_def split: prod.splits)

lemma gpu_dispatch_ok_inv:
  assumes "dispatch (gpu_notify env ident) opts x resp s = (Continue None reply, s')" and "P s"
    and "\<And>t. gpu_PreDump env ident opts s = (None, t) \<Longrightarrow> P t" and "\<And>t. gpu_PostDump env ident opts s = (None, t) \<Longrightarrow> P t"
    and "\<And>t. gpu_PreRestore env ident opts s = (None, t) \<Longrightarrow> P t"
    and "\<And>t. gpu_attach_restored env ident (pNotifyPid resp) s = (None, t) \<Longrightarrow> P t"
    and "\<And>t. gpu_PreResume env ident s = (None, t) \<Longrightarrow> P t"
  shows "P s'"
  using assms
  by (auto simp: dispatch_def Let_def ack_ok gpu_methods call_hook_ok_iff split: if_splits prod.splits sum.splits list.splits option.splits)

lemma restoring_hooks:
  assumes "restoring env ident p s"
  shows "gpu_PreDump env ident opts s = (None, t) \<Longrightarrow> restoring env ident p t" "gpu_PostDump env ident opts s = (None, t) \<Longrightarrow> restoring env ident p t"
    "gpu_PreRestore env ident (set_opts sw b p) s = (None, t) \<Longrightarrow> restoring env ident p t"
    "gpu_attach_restored env ident pid s = (None, t) \<Longrightarrow> restoring env ident p t"
    "gpu_PreResume env ident s = (None, t) \<Longrightarrow> restoring env ident p t"
  using assms
  by (auto simp: restoring_def held_def gpu_hooks Let_def receive_def rpc_def hang_def
      split: option.splits prod.splits list.splits dest: ctl_Attach_keeps)

text \<open>
  C30: A restore reported as successful has restored the GPU. If CRIU asked for the restore of the GPU at all, the call to the
  controller succeeded; a failure reaches the caller although it happens in the background.
\<close>

theorem gpu_restore_success:
  assumes prep: "Prepare sw c = (None, c1)" and h: "host c = new_cb st fz" and a: "attachable ident st"
    and run: "Criu_Restore sw (Some p) (Some (gpu_notify env ident)) xs c = ((r, None), c')"
  shows "restoreErr (host c') = None \<or> gRestore env ident (get_str (ImagesDir p)) (get_bool (Stream p)) = None"
proof -
  let ?o = "set_opts sw True p" and ?n = "gpu_notify env ident"
  obtain ctl where ctl: "pool_Get ident st = Some ctl" "cID ctl = ident" "\<not> Termination ctl" "ClientConn ctl"
    using a by (auto simp: attachable_def)
  let ?s = "lock_termination ctl (new_cb st fz)"
  let ?l = "swrk_loop (Some ?n) ?o (first_req RESTORE ?o) xs (c1\<lparr>host := ?s\<rparr>)"
  have "gpu_InitializeRestore env ident ?o (new_cb st fz) = (None, ?s)"
    using ctl by (simp add: gpu_InitializeRestore_def unless_hung_def new_cb_def)
  then have i: "Initialize ?n (startPid sw) (host c1) = (None, new_cb st fz)" "InitializeRestore ?n ?o (new_cb st fz) = (None, ?s)"
    using Prepare_host [OF prep] h by (simp_all add: gpu_methods call_hook_def)
  then have body: "swrk_body sw RESTORE ?o (Some ?n) (first_req RESTORE ?o) xs c1 = run_deferred (FinalizeRestore ?n ?o) ?l"
    by (simp add: swrk_body_def)
  obtain q where q: "doSwrkWithResp sw RESTORE (Some p) (Some ?n) None xs c = ((Some q, None), c')"
    using run by (auto simp: Criu_Restore_def doSwrk_def split: prod.splits option.splits if_splits)
  then have c': "host c' = host (snd (run_deferred (FinalizeRestore ?n ?o) ?l))"
    using doSwrk_host [OF prep, of RESTORE p ?n xs] body by simp
  have ok: "fst (run_deferred (FinalizeRestore ?n ?o) ?l) = (Some q, None)"
    using q prep body by (auto simp: doSwrkWithResp_def first_req_def Let_def split: prod.splits)
  obtain c2 where l: "?l = ((Some q, None), c2)" and fin: "fst (FinalizeRestore ?n ?o None (host c2)) = None"
    using ok by (cases ?l; cases "fst ?l") (auto simp: run_deferred_ok)
  have start: "restoring env ident p (host (c1\<lparr>host := ?s\<rparr>))"
    using ctl by (simp add: restoring_def held_def lock_termination_def new_cb_def set_ctl_Get)
  have res: "fst ?l = (Some q, None)" by (simp add: l)
  have "restoring env ident p (host (snd ?l))"
  proof (rule swrk_loop_ok_inv [where P = "restoring env ident p", OF _ start res])
    fix x resp s reply s' assume s: "restoring env ident p s" and d: "dispatch ?n ?o x resp s = (Continue None reply, s')"
    show "restoring env ident p s'"
      by (rule gpu_dispatch_ok_inv [where P = "restoring env ident p", OF d s]) (blast intro: restoring_hooks [OF s])+
  qed
  then have "restoring env ident p (host c2)" by (simp add: l)
  moreover have "host c' = snd (gpu_FinalizeRestore env ident ?o None (host c2))"
    using c' l by (simp add: run_deferred_def named_result_def gpu_methods split: prod.splits) (metis call_hook_snd snd_conv)
  moreover have "fst (gpu_FinalizeRestore env ident ?o None (host c2)) = None"
    using fin by (simp add: gpu_methods call_hook_fst)
  ultimately show ?thesis
    by (auto simp: restoring_def held_def gpu_FinalizeRestore_def unless_hung_def unlock_termination_def receive_def Let_def
        split: option.splits list.splits)
qed

section \<open>Witnesses\<close>

text \<open>A pool with one connected controller, and a daemon about to use it.\<close>

definition gpu_ctl :: controller where
  "gpu_ctl = (new_controller ''g'')\<lparr>ctlPID := 1, ShmSize := 8, ClientConn := True\<rparr>"

definition gpu_one :: gpu_state where
  "gpu_one = \<lparr>ctrls = [(''g'', gpu_ctl)], spawned = 0, starts = [], killed = [], cleaned = []\<rparr>"

definition gpu_idle :: "gpu_cb swrk" where
  "gpu_idle = \<lparr>swrkCmd = None, osLocks = 0, openFds = 0, unreaped = [], sent = [], host = new_cb gpu_one []\<rparr>"

lemma gpu_idle_ready:
  "\<exists>c1. Prepare ok_env gpu_idle = (None, c1)"
  "host gpu_idle = new_cb gpu_one []"
  "attachable ''g'' gpu_one"
  by (simp_all add: gpu_idle_def gpu_one_def Prepare_def ok_env_def attachable_def pool_Get_def gpu_ctl_def new_controller_def)

theorem gpu_dump_outcome_witness:
  "released ''g'' (host (snd (Criu_Dump ok_env (Some empty_opts) (Some (gpu_notify gpu_machine ''g''))
     [reply_of (resp_of NOTIFY ''pre-dump''), reply_of (resp_of DUMP [])] gpu_idle)))"
proof -
  obtain c1 where p: "Prepare ok_env gpu_idle = (None, c1)" using gpu_idle_ready(1) by blast
  have "gFreeze gpu_machine ''g'' = None" "script_free ''pre-resume'' [reply_of (resp_of NOTIFY ''pre-dump''), reply_of (resp_of DUMP [])]"
    by (simp_all add: gpu_machine_def script_free_def reply_of_def resp_of_def)
  then show ?thesis using gpu_dump_outcome [OF p gpu_idle_ready(2,3) _ refl, of gpu_machine empty_opts] by blast
qed

theorem early_failure_leaves_frozen_witness:
  "''g'' \<in> set (frozen (host (snd (Criu_Dump ok_env (Some empty_opts) (Some (gpu_notify gpu_machine ''g'')) [] gpu_idle))))"
proof -
  obtain c1 where p: "Prepare ok_env gpu_idle = (None, c1)" using gpu_idle_ready(1) by blast
  show ?thesis
    using early_failure_leaves_frozen [OF p gpu_idle_ready(2,3), of gpu_machine "[]" empty_opts] by (simp add: gpu_machine_def script_free_def)
qed

theorem freeze_failure_locks_controller_witness:
  "pool_Terminate ''g'' (gPool (host (snd (Criu_Dump ok_env (Some empty_opts)
     (Some (gpu_notify (gpu_machine\<lparr>gFreeze := (\<lambda>_. Some (Errorf ''busy''))\<rparr>) ''g'')) [] gpu_idle)))) = None"
proof -
  obtain c1 where p: "Prepare ok_env gpu_idle = (None, c1)" using gpu_idle_ready(1) by blast
  show ?thesis
    using freeze_failure_locks_controller [OF p gpu_idle_ready(2,3), of "gpu_machine\<lparr>gFreeze := (\<lambda>_. Some (Errorf ''busy''))\<rparr>"
      "Errorf ''busy''" _ empty_opts "[]" "[]"] by simp
qed

theorem gpu_restore_success_witness:
  "\<exists>r c'. Criu_Restore ok_env (Some empty_opts) (Some (gpu_notify gpu_machine ''g''))
     [reply_of (resp_of NOTIFY ''pre-restore''), reply_of (resp_of RESTORE [])] gpu_idle = ((r, None), c')
   \<and> restoreErr (host c') \<noteq> None \<and> gRestore gpu_machine ''g'' [] False = None"
proof -
  obtain c1 where p: "Prepare ok_env gpu_idle = (None, c1)" using gpu_idle_ready(1) by blast
  let ?xs = "[reply_of (resp_of NOTIFY ''pre-restore''), reply_of (resp_of RESTORE [])]"
  have "\<exists>r c'. Criu_Restore ok_env (Some empty_opts) (Some (gpu_notify gpu_machine ''g'')) ?xs gpu_idle = ((r, None), c')
    \<and> restoreErr (host c') \<noteq> None"
    by (simp add: Criu_Restore_def swrk_witness_defs gpu_idle_def gpu_one_def gpu_methods gpu_hooks new_cb_def pool_Get_def dispatch_def ack_def
        call_hook_def lock_termination_def unlock_termination_def set_ctl_def gpu_ctl_def new_controller_def rpc_def receive_def gpu_machine_def)
  then obtain r c' where r: "Criu_Restore ok_env (Some empty_opts) (Some (gpu_notify gpu_machine ''g'')) ?xs gpu_idle = ((r, None), c')"
    "restoreErr (host c') \<noteq> None" by blast
  show ?thesis
    using gpu_restore_success [OF p gpu_idle_ready(2,3) r(1)] r by (simp add: empty_opts_def get_str_def get_bool_def)
qed

end
