(* ===== verification/Archive.thy ===== *)
theory Archive
  imports Go_Paths
begin

text \<open>
  \<^bold>\<open>pkg/io/compression.go\<close> and the archives of \<^bold>\<open>pkg/io/misc.go\<close>: how a dump directory becomes a tarball and back. The formats are
  those of the codecs the code selects; a stream remembers the codec that wrote it and the entries of the
  tar archive inside it, and gives them back to the same codec.
\<close>

section \<open>Compression\<close>

datatype codec = Plain | Gzip | Lz4 | Zlib

definition SUPPORTED_COMPRESSIONS :: "string list" where
  "SUPPORTED_COMPRESSIONS = [[], ''none'', ''tar'', ''gzip'', ''gz'', ''lz4'', ''zlib'']"

definition unsupported :: "string \<Rightarrow> goerr" where
  "unsupported c = Errorf (''Unsupported compression format: '' @ c)"

definition NewCompressionWriter :: "string \<Rightarrow> goerr + codec" where
  "NewCompressionWriter c =
     (if c = ''lz4'' then Inr Lz4
      else if c \<in> {''gzip'', ''gz''} then Inr Gzip
      else if c = ''zlib'' then Inr Zlib
      else if c \<in> {''tar'', ''none'', []} then Inr Plain
      else Inl (unsupported c))"

text \<open>On a FUSE filesystem the writer sits on a pipe, and every format but two is passed through.\<close>

definition NewOptimizedCompressionWriter :: "string \<Rightarrow> bool \<Rightarrow> goerr + codec" where
  "NewOptimizedCompressionWriter c isFuse =
     (if \<not> isFuse then NewCompressionWriter c
      else if c = ''lz4'' then Inr Lz4
      else if c \<in> {''gzip'', ''gz''} then Inr Gzip
      else Inr Plain)"

definition NewCompressionReader :: "string \<Rightarrow> goerr + codec" where
  "NewCompressionReader c =
     (if c = ''lz4'' then Inr Lz4
      else if c \<in> {''gzip'', ''gz''} then Inr Gzip
      else if c = ''zlib'' then Inr Zlib
      else if c \<in> {''tar'', ''none'', []} then Inr Plain
      else Inl (unsupported c))"

definition CompressionFromExt :: "string \<Rightarrow> goerr + string" where
  "CompressionFromExt path =
     (let ext = Ext path in
      if ext = ''.lz4'' then Inr ''lz4''
      else if ext \<in> {''.gz'', ''.gzip''} then Inr ''gzip''
      else if ext = ''.zlib'' then Inr ''zlib''
      else if ext = ''.tar'' then Inr ''tar''
      else if ext = [] then Inr ''none''
      else Inl (unsupported ext))"

definition ExtForCompression :: "string \<Rightarrow> goerr + string" where
  "ExtForCompression c =
     (if c = ''lz4'' then Inr ''.lz4''
      else if c = ''gzip'' then Inr ''.gz''
      else if c = ''zlib'' then Inr ''.zlib''
      else if c \<in> {''tar'', ''none'', []} then Inr []
      else Inl (unsupported c))"

section \<open>Tarballs\<close>

datatype typeflag = TypeDir | TypeReg | TypeOther

record tar_entry =
  teName :: string
  teFlag :: typeflag
  teData :: string

datatype stream = Stream codec "tar_entry list"

text \<open>
  One call of the walk function: the name relative to the source, the error of the walk, of building the header or of
  the relative path, the type, the contents or the error of opening the file, and the errors of writing the header
  and the contents.
\<close>

record walk_item =
  wiName :: string
  wiErr :: error
  wiFlag :: typeflag
  wiData :: "goerr + string"
  wiHeader :: error
  wiCopy :: error

definition tar_item :: "walk_item \<Rightarrow> error \<times> tar_entry list" where
  "tar_item i =
     (case wiErr i of Some e \<Rightarrow> (Some e, []) | None \<Rightarrow>
      (case wiHeader i of Some e \<Rightarrow> (Some e, []) | None \<Rightarrow>
       (if wiFlag i \<noteq> TypeReg then (None, [\<lparr>teName = wiName i, teFlag = wiFlag i, teData = []\<rparr>])
        else (case wiData i of
            Inl e \<Rightarrow> (Some e, [])
          | Inr d \<Rightarrow>
            (case wiCopy i of
               Some e \<Rightarrow> (Some e, [])
             | None \<Rightarrow> (None, [\<lparr>teName = wiName i, teFlag = TypeReg, teData = d\<rparr>]))))))"

fun tar_walk :: "walk_item list \<Rightarrow> tar_entry list \<Rightarrow> error \<times> tar_entry list" where
  "tar_walk [] es = (None, es)"
| "tar_walk (i # is) es = (case tar_item i of (Some e, _) \<Rightarrow> (Some e, es) | (None, new) \<Rightarrow> tar_walk is (es @ new))"

text \<open>
  The errors of the two deferred \<open>Close\<close> calls are dropped: what the tar writer and the compressor still hold may be lost
  without an error. \<open>closeErr\<close> is whether that happened; the stream is then cut short.
\<close>

definition Tar :: "walk_item list \<Rightarrow> string \<Rightarrow> bool \<Rightarrow> error \<Rightarrow> error \<times> stream option" where
  "Tar is compression isFuse closeErr =
     (case NewOptimizedCompressionWriter compression isFuse of
        Inl e \<Rightarrow> (Some e, None)
      | Inr c \<Rightarrow>
        (case tar_walk is [] of (err, es) \<Rightarrow> (err, if closeErr = None then Some (Stream c es) else None)))"

text \<open>
  What the system and the codecs answer to \<open>Untar\<close>: creating directories and files, copying, and what comes out of a reader for
  a stream that another codec has written or that was cut short.
\<close>

record untar_env =
  uMkdirAll :: "string \<Rightarrow> error"
  uCreate :: "string \<Rightarrow> error"
  uCopy :: "string \<Rightarrow> error"
  uWrongCodec :: "codec \<Rightarrow> codec \<Rightarrow> tar_entry list \<Rightarrow> goerr + (goerr + tar_entry) list"
  uTruncated :: "codec \<Rightarrow> goerr + (goerr + tar_entry) list"

text \<open>The reader of a codec: opening it may fail; then it gives headers with their contents, or an error in place of one.\<close>

definition open_reader :: "untar_env \<Rightarrow> codec \<Rightarrow> stream option \<Rightarrow> goerr + (goerr + tar_entry) list" where
  "open_reader env c s =
     (case s of
        Some (Stream c' es) \<Rightarrow> if c = c' then Inr (map Inr es) else uWrongCodec env c c' es
      | None \<Rightarrow> uTruncated env c)"

record unpacked =
  uDirs :: "string list"
  uFiles :: "(string \<times> string) list"

fun untar_loop :: "untar_env \<Rightarrow> string \<Rightarrow> (goerr + tar_entry) list \<Rightarrow> unpacked \<Rightarrow> error \<times> unpacked" where
  "untar_loop env dest [] fs = (None, fs)"
| "untar_loop env dest (Inl e # hs) fs = (Some e, fs)"
| "untar_loop env dest (Inr h # hs) fs =
     (let cleanedPath = Clean (teName h) in
      if contains cleanedPath ''..'' then (Some (Errorf (''invalid file path: '' @ cleanedPath)), fs)
      else
        (let target = Join [dest, cleanedPath] in
         case teFlag h of
           TypeDir \<Rightarrow>
             (case uMkdirAll env target of
                Some e \<Rightarrow> (Some e, fs)
              | None \<Rightarrow> untar_loop env dest hs (fs\<lparr>uDirs := uDirs fs @ [target]\<rparr>))
         | TypeReg \<Rightarrow>
             (case uCreate env target of
                Some e \<Rightarrow> (Some e, fs)
              | None \<Rightarrow>
                (case uCopy env target of
                   Some e \<Rightarrow> (Some e, fs\<lparr>uFiles := uFiles fs @ [(target, [])]\<rparr>)
                 | None \<Rightarrow> untar_loop env dest hs (fs\<lparr>uFiles := uFiles fs @ [(target, teData h)]\<rparr>)))
         | TypeOther \<Rightarrow> untar_loop env dest hs fs))"

definition Untar :: "untar_env \<Rightarrow> stream option \<Rightarrow> string \<Rightarrow> string \<Rightarrow> error \<times> unpacked" where
  "Untar env src dest compression =
     (case NewCompressionReader compression of
        Inl e \<Rightarrow> (Some e, \<lparr>uDirs = [], uFiles = []\<rparr>)
      | Inr c \<Rightarrow>
        (case open_reader env c src of
           Inl e \<Rightarrow> (Some e, \<lparr>uDirs = [], uFiles = []\<rparr>)
         | Inr hs \<Rightarrow> untar_loop env dest hs \<lparr>uDirs = [], uFiles = []\<rparr>))"

section \<open>An archive cannot write outside the directory\<close>

definition confined :: "string \<Rightarrow> unpacked \<Rightarrow> bool" where
  "confined dest fs \<longleftrightarrow> list_all (within dest) (uDirs fs) \<and> list_all (within dest) (map fst (uFiles fs))"

lemma untar_loop_within:
  assumes "rooted dest" and "confined dest fs"
  shows "confined dest (snd (untar_loop env dest hs fs))"
  using assms
proof (induction env dest hs fs rule: untar_loop.induct)
  case (3 env dest h hs fs)
  show ?case
  proof (cases "contains (Clean (teName h)) ''..''")
    case True
    then show ?thesis using 3 by simp
  next
    case False
    then have "within dest (Join [dest, Clean (teName h)])" using Join_within 3 by blast
    then show ?thesis
      using 3 False by (auto simp: confined_def Let_def split: typeflag.splits option.splits)
  qed
qed simp_all

text \<open>
  C31: Unpacking stays below the destination. Whatever names the headers of an archive carry, absolute or with \<open>..\<close>, and wherever
  reading or writing fails, every directory and file that \<open>Untar\<close> creates is below the destination directory.
\<close>

theorem untar_confined:
  assumes "rooted dest"
  shows "confined dest (snd (untar_loop env dest hs \<lparr>uDirs = [], uFiles = []\<rparr>))"
  using untar_loop_within [OF assms] by (simp add: confined_def)

section \<open>Packing and unpacking\<close>

lemma split_on_suffix: "c \<notin> set t \<Longrightarrow> split_on c (s @ t) = butlast (split_on c s) @ [last (split_on c s) @ t]"
proof (induction s)
  case (Cons d s)
  then show ?case by (cases "split_on c s"; cases "tl (split_on c s)") (auto split: list.splits)
qed (simp add: split_on_no_sep)

lemma last_split_append: "c \<notin> set t \<Longrightarrow> last (split_on c (s @ t)) = last (split_on c s) @ t"
  by (simp add: split_on_suffix)

lemma last_index_append: "c \<notin> set t \<Longrightarrow> last_index_byte (s @ c # t) c = Some (length s)"
proof (induction s)
  case Nil
  then have "last_index_byte t c = None" by (induction t) auto
  then show ?case by simp
qed simp

lemma Ext_append:
  assumes "CHR ''.'' \<notin> set e" and "CHR ''/'' \<notin> set e"
  shows "Ext (s @ CHR ''.'' # e) = CHR ''.'' # e"
  using assms by (simp add: Ext_def Base_def last_split_append last_index_append)

definition tarball_name :: "string \<Rightarrow> string \<Rightarrow> string" where
  "tarball_name base ext = base @ ''.tar'' @ ext"

lemma CompressionFromExt_tarball:
  assumes "ExtForCompression c = Inr ext"
  shows "\<exists>c'. CompressionFromExt (tarball_name base ext) = Inr c' \<and> NewCompressionReader c' = NewCompressionWriter c"
proof -
  have e: "Ext (tarball_name base []) = ''.tar''" "Ext (tarball_name base ''.lz4'') = ''.lz4''"
    "Ext (tarball_name base ''.gz'') = ''.gz''" "Ext (tarball_name base ''.zlib'') = ''.zlib''"
    using Ext_append [of "''tar''" base] Ext_append [of "''lz4''" "base @ ''.tar''"] Ext_append [of "''gz''" "base @ ''.tar''"]
      Ext_append [of "''zlib''" "base @ ''.tar''"]
    by (simp_all add: tarball_name_def)
  consider "c = ''lz4''" "ext = ''.lz4''" | "c = ''gzip''" "ext = ''.gz''" | "c = ''zlib''" "ext = ''.zlib''"
    | "c \<in> {''tar'', ''none'', []}" "ext = []"
    using assms by (auto simp: ExtForCompression_def split: if_splits)
  then show ?thesis
    using e by cases (auto simp: CompressionFromExt_def NewCompressionReader_def NewCompressionWriter_def)
qed

definition item_ok :: "walk_item \<Rightarrow> bool" where
  "item_ok i \<longleftrightarrow> wiErr i = None \<and> wiHeader i = None \<and> wiCopy i = None \<and> (\<exists>d. wiData i = Inr d) \<and> wiFlag i \<noteq> TypeOther
     \<and> \<not> contains (Clean (wiName i)) ''..''"

definition item_entry :: "walk_item \<Rightarrow> tar_entry" where
  "item_entry i = \<lparr>teName = wiName i, teFlag = wiFlag i, teData = (if wiFlag i = TypeReg then projr (wiData i) else [])\<rparr>"

definition target_of :: "string \<Rightarrow> walk_item \<Rightarrow> string" where
  "target_of dest i = Join [dest, Clean (wiName i)]"

definition tree_of :: "string \<Rightarrow> walk_item list \<Rightarrow> unpacked" where
  "tree_of dest is = \<lparr>uDirs = map (target_of dest) (filter (\<lambda>i. wiFlag i = TypeDir) is),
     uFiles = map (\<lambda>i. (target_of dest i, projr (wiData i))) (filter (\<lambda>i. wiFlag i = TypeReg) is)\<rparr>"

lemma tar_walk_ok: "list_all item_ok is \<Longrightarrow> tar_walk is es = (None, es @ map item_entry is)"
proof (induction "is" arbitrary: es)
  case (Cons i "is")
  then have "tar_item i = (None, [item_entry i])" by (auto simp: item_ok_def tar_item_def item_entry_def)
  then show ?case using Cons by simp
qed simp

lemma untar_loop_ok:
  assumes "list_all item_ok is" and "\<And>t. uMkdirAll env t = None" "\<And>t. uCreate env t = None" "\<And>t. uCopy env t = None"
  shows "untar_loop env dest (map (Inr \<circ> item_entry) is) fs =
    (None, fs\<lparr>uDirs := uDirs fs @ uDirs (tree_of dest is), uFiles := uFiles fs @ uFiles (tree_of dest is)\<rparr>)"
  using assms(1)
proof (induction "is" arbitrary: fs)
  case (Cons i "is")
  have i: "item_ok i" and rest: "list_all item_ok is" using Cons.prems by auto
  show ?case
    using i Cons.IH [OF rest] assms(2-4)
    by (cases "wiFlag i") (auto simp: item_ok_def item_entry_def tree_of_def target_of_def Let_def)
qed (simp add: tree_of_def)


section \<open>Witnesses\<close>

definition easy_disk :: untar_env where
  "easy_disk = \<lparr>uMkdirAll = (\<lambda>_. None), uCreate = (\<lambda>_. None), uCopy = (\<lambda>_. None),
     uWrongCodec = (\<lambda>_ _ _. Inl (Errorf ''zlib: invalid header'')), uTruncated = (\<lambda>_. Inr [Inl (Errorf ''unexpected EOF'')])\<rparr>"

definition two_items :: "walk_item list" where
  "two_items = [\<lparr>wiName = ''.'', wiErr = None, wiFlag = TypeDir, wiData = Inr [], wiHeader = None, wiCopy = None\<rparr>,
     \<lparr>wiName = ''core.img'', wiErr = None, wiFlag = TypeReg, wiData = Inr ''data'', wiHeader = None, wiCopy = None\<rparr>]"

lemma two_items_ok: "list_all item_ok two_items"
  by (simp add: two_items_def item_ok_def Clean_def comps_def rooted_def has_prefix_def contains.simps)

theorem untar_confined_witness:
  "uFiles (snd (untar_loop easy_disk ''/d'' [Inr \<lparr>teName = ''/etc/passwd'', teFlag = TypeReg, teData = []\<rparr>] \<lparr>uDirs = [], uFiles = []\<rparr>))
    = [(''/d/etc/passwd'', [])]
   \<and> confined ''/d'' (snd (untar_loop easy_disk ''/d'' [Inr \<lparr>teName = ''/etc/passwd'', teFlag = TypeReg, teData = []\<rparr>] \<lparr>uDirs = [], uFiles = []\<rparr>))"
  by (rule conjI, simp add: easy_disk_def Clean_def Join_def comps_def rooted_def has_prefix_def contains.simps,
      rule untar_confined, simp add: rooted_def has_prefix_def)


end
