(* ===== verification/Storage.thy ===== *)
theory Storage
  imports Archive Features
begin

text \<open>
  \<^bold>\<open>pkg/io/storage.go\<close> and \<^bold>\<open>internal/cedana/filesystem/storage.go\<close>: where checkpoints are kept. A storage is a record of its methods; the local one is built
  from the system calls it makes. Plugins provide the remote ones.
\<close>

record storage =
  sIsRemote :: bool
  sOpen :: "string \<Rightarrow> goerr + stream option"
  sCreate :: "string \<Rightarrow> error"
  sClose :: "string \<Rightarrow> error"
  sDelete :: "string \<Rightarrow> error"
  sIsDir :: "string \<Rightarrow> goerr + bool"
  sReadDir :: "string \<Rightarrow> goerr + string list"

record os_files =
  osOpen :: "string \<Rightarrow> goerr + stream option"
  osCreate :: "string \<Rightarrow> error"
  osClose :: "string \<Rightarrow> error"
  osRemove :: "string \<Rightarrow> error"
  osIsDir :: "string \<Rightarrow> goerr + bool"
  osReadDir :: "string \<Rightarrow> goerr + string list"

definition wrap_err :: "string \<Rightarrow> error \<Rightarrow> error" where
  "wrap_err msg e = map_option (Wrapf msg) e"

definition wrap_res :: "string \<Rightarrow> goerr + 'a \<Rightarrow> goerr + 'a" where
  "wrap_res msg r = (case r of Inl e \<Rightarrow> Inl (Wrapf msg e) | Inr v \<Rightarrow> Inr v)"

definition fs_Open :: "os_files \<Rightarrow> string \<Rightarrow> goerr + stream option" where
  "fs_Open os path = wrap_res ''failed to open file'' (osOpen os path)"

definition fs_Create :: "os_files \<Rightarrow> string \<Rightarrow> error" where
  "fs_Create os path = wrap_err ''failed to create file'' (osCreate os path)"

definition fs_Delete :: "os_files \<Rightarrow> string \<Rightarrow> error" where
  "fs_Delete os path = wrap_err ''failed to delete file'' (osRemove os path)"

definition fs_IsDir :: "os_files \<Rightarrow> string \<Rightarrow> goerr + bool" where
  "fs_IsDir os path = wrap_res ''failed to stat path'' (osIsDir os path)"

definition fs_ReadDir :: "os_files \<Rightarrow> string \<Rightarrow> goerr + string list" where
  "fs_ReadDir os path = wrap_res ''failed to read directory'' (osReadDir os path)"

definition fs_IsRemote :: bool where
  "fs_IsRemote = False"

definition local_storage :: "os_files \<Rightarrow> storage" where
  "local_storage os = \<lparr>sIsRemote = fs_IsRemote, sOpen = fs_Open os, sCreate = fs_Create os, sClose = osClose os, sDelete = fs_Delete os,
     sIsDir = fs_IsDir os, sReadDir = fs_ReadDir os\<rparr>"

text \<open>What a plugin exports for its storage: nil, or a constructor that returns a storage, fails or panics.\<close>

datatype storage_ctor = NilCtor | CtorOk storage | CtorErr goerr | CtorPanic

text \<open>
  The part that \<open>pluginDumpStorage\<close> and \<open>pluginRestoreStorage\<close> share: the storage that a path names. A constructor that panics
  leaves the local storage in place and no error.
\<close>

definition use_ctor :: "string \<Rightarrow> storage_ctor \<Rightarrow> storage \<Rightarrow> call_result \<times> storage" where
  "use_ctor name c st =
     (case c of
        NilCtor \<Rightarrow> (Returned (Some (Errorf (''plugin '' @ quoted name @ '' does not implement '' @ quoted ''Checkpoint storage''))), st)
      | CtorOk st' \<Rightarrow> (Returned None, st')
      | CtorErr e \<Rightarrow> (Returned (Some e), st)
      | CtorPanic \<Rightarrow> (Panicked, st))"

definition select_storage :: "os_files \<Rightarrow> storage_ctor loaded \<Rightarrow> string \<Rightarrow> error \<times> storage" where
  "select_storage os ctors path =
     (if contains path ''://''
      then IfAvailable ''Checkpoint storage'' use_ctor [''storage/'' @ hd (split_str ''://'' path)] ctors (local_storage os)
      else (None, local_storage os))"

end
