(* ===== verification/Criu_Checks.thy ===== *)
theory Criu_Checks
  imports Criu_Swrk Adapters Plugins
begin

text \<open>
  \<^bold>\<open>internal/cedana/criu/checks.go\<close> and the adapter \<open>New\<close> of \<^bold>\<open>generic_adapters.go\<close>: finding CRIU, asking it for its version and its features, and
  refusing requests that the installed CRIU cannot serve.
\<close>

section \<open>Finding CRIU\<close>

text \<open>Where CRIU comes from: the configuration, the plugin, or the search path of the system.\<close>

record criu_site =
  cBinaryPath :: string
  cPlugins :: plugins_env
  cDisk :: disk
  cLookPath :: "goerr + string"
  cSwrk :: swrk_env
  cVersion :: "exchange list"
  cCheck :: "string \<Rightarrow> string list \<Rightarrow> string \<times> error"

datatype criu_source = FromConfig string | FromPlugin string | FromSystem string | NoCriu | BadPlugin

definition find_criu :: "criu_site \<Rightarrow> criu_source" where
  "find_criu s =
     (if cBinaryPath s \<noteq> [] then FromConfig (cBinaryPath s)
      else if lm_IsInstalled (cPlugins s) (cDisk s) ''criu''
      then (case lm_Get (cPlugins s) (cDisk s) ''criu'' of
          None \<Rightarrow> BadPlugin
        | Some p \<Rightarrow> (case BinaryPaths (cPlugins s) p of [] \<Rightarrow> BadPlugin | b # _ \<Rightarrow> FromPlugin b))
      else (case cLookPath s of Inr path \<Rightarrow> FromSystem path | Inl _ \<Rightarrow> NoCriu))"

fun source_path :: "criu_source \<Rightarrow> string option" where
  "source_path (FromConfig p) = Some p"
| "source_path (FromPlugin p) = Some p"
| "source_path (FromSystem p) = Some p"
| "source_path NoCriu = None"
| "source_path BadPlugin = None"

section \<open>Checks\<close>

definition CRIU_MIN_VERSION :: int where
  "CRIU_MIN_VERSION = 30000"

definition int_text :: "int \<Rightarrow> string" where
  "int_text i = (if i < 0 then ''-'' else []) @ itoa (nat \<bar>i\<bar>)"

definition idle_swrk :: "'s \<Rightarrow> 's swrk" where
  "idle_swrk s = \<lparr>swrkCmd = None, osLocks = 0, openFds = 0, unreaped = [], sent = [], host = s\<rparr>"

definition site_version :: "criu_site \<Rightarrow> int \<times> error" where
  "site_version s = fst (GetCriuVersion (cSwrk s) (cVersion s) (idle_swrk ()))"

definition version_too_old :: "int \<Rightarrow> string" where
  "version_too_old v = ''Version '' @ int_text v @ '' is not supported. Minimum supported is '' @ int_text CRIU_MIN_VERSION"

definition CheckVersion :: "criu_site \<Rightarrow> component" where
  "CheckVersion s =
     (let src = find_criu s;
          c = \<lparr>cName = ''version'', cData = [],
            cWarnings = (case src of FromSystem _ \<Rightarrow> [''CRIU plugin not installed but CRIU binary found in PATH. It's recommended to install the plugin for full feature support.''] | _ \<Rightarrow> []),
            cErrors = (if src = NoCriu then [''CRIU plugin is not installed. This is required for userspace C/R support.''] else [])\<rparr>
      in if src = NoCriu then c
         else (case site_version s of
             (_, Some e) \<Rightarrow> c\<lparr>cData := ''unknown'', cErrors := cErrors c @ [''Failed to get version: '' @ err_text e]\<rparr>
           | (version, None) \<Rightarrow>
               c\<lparr>cData := int_text version, cErrors := cErrors c @ (if version < CRIU_MIN_VERSION then [version_too_old version] else [])\<rparr>))"

fun parse_lines :: "string list \<Rightarrow> string list \<times> string list" where
  "parse_lines [] = ([], [])"
| "parse_lines (l # ls) =
     (case parse_lines ls of (ws, es) \<Rightarrow>
      (if has_prefix l ''Warn'' then (trim_space (drop 4 l) # ws, es)
       else if has_prefix l ''Error'' then (ws, trim_space (drop 5 l) # es)
       else (ws, es)))"

definition parseCheckOutput :: "string \<Rightarrow> string list \<times> string list" where
  "parseCheckOutput out = parse_lines (split_on (CHR 0x0A) out)"

text \<open>\<open>None\<close> is the nil slice that is returned when there is no CRIU.\<close>

definition CheckFeatures :: "criu_site \<Rightarrow> bool \<Rightarrow> component option" where
  "CheckFeatures s all =
     (case source_path (find_criu s) of
        None \<Rightarrow> None
      | Some path \<Rightarrow>
        (case cCheck s path (Check_args (cSwrk s) (if all then [''--all''] else [])) of (out, err) \<Rightarrow>
         (case parseCheckOutput out of (ws, es) \<Rightarrow>
          Some \<lparr>cName = ''features'', cData = (if err = None then ''available'' else ''unavailable''), cWarnings = ws,
            cErrors = (if err \<noteq> None \<and> es = [] then [''Failed to run check: '' @ trim_space out] else es)\<rparr>)))"

definition CheckOpts :: "int \<times> error \<Rightarrow> criu_opts option \<Rightarrow> error" where
  "CheckOpts ver opts =
     (case ver of
        (_, Some e) \<Rightarrow> Some (Wrapf ''failed to get CRIU version'' e)
      | (version, None) \<Rightarrow>
        if version < CRIU_MIN_VERSION
        then Some (Errorf (''CRIU version '' @ int_text version @ '' is not supported. Minimum supported is '' @ int_text CRIU_MIN_VERSION))
        else (case opts of
            None \<Rightarrow> Some (Panic ''nil pointer dereference'')
          | Some p \<Rightarrow>
            if LsmProfile p \<noteq> None \<and> version < 31600
            then Some (Errorf (''CRIU version '' @ int_text version @ '' does not support LSM profile''))
            else if LsmMountContext p \<noteq> None \<and> version < 31600
            then Some (Errorf (''CRIU version '' @ int_text version @ '' does not support LSM mount context''))
            else None))"

text \<open>
  The adapter \<open>New\<close>: either the error with which it returns, or the path of the CRIU that the rest of the chain uses. A plugin without
  binaries makes it panic.
\<close>

definition criu_New :: "criu_site \<Rightarrow> goerr + string" where
  "criu_New s =
     (case find_criu s of
        NoCriu \<Rightarrow> Inl (Status FailedPrecondition ''Please install CRIU plugin, or specify path in config or env var.'')
      | BadPlugin \<Rightarrow> Inl (Panic ''index out of range'')
      | src \<Rightarrow>
        (case CheckFeatures s False of
           None \<Rightarrow> Inr (the (source_path src))
         | Some c \<Rightarrow>
           (case cErrors c of
              e # _ \<Rightarrow> Inl (Status Unavailable (''CRIU is not functional: '' @ e))
            | [] \<Rightarrow> Inr (the (source_path src)))))"

section \<open>What the checks decide\<close>

lemma parse_lines_errors: "snd (parse_lines ls) = [] \<longleftrightarrow> list_all (\<lambda>l. \<not> has_prefix l ''Error'') ls"
proof (induction ls)
  case (Cons l ls)
  have "\<not> (has_prefix l ''Warn'' \<and> has_prefix l ''Error'')" by (auto simp: has_prefix_iff)
  then show ?case using Cons by (auto split: prod.splits)
qed simp

lemma find_criu_plugin: "find_criu s \<noteq> BadPlugin"
proof
  assume b: "find_criu s = BadPlugin"
  have p: "entry ''criu'' EXTERNAL [] [at_dir [] ''criu''] \<in> set Registry" by (simp add: Registry_def)
  have "lm_Get (cPlugins s) (cDisk s) ''criu'' = Some (SyncInstalled (cPlugins s) (cDisk s) (entry ''criu'' EXTERNAL [] [at_dir [] ''criu'']))"
    using find_Registry [OF p] by (simp add: lm_Get_def entry_def)
  moreover have "BinaryPaths (cPlugins s) (SyncInstalled (cPlugins s) (cDisk s) (entry ''criu'' EXTERNAL [] [at_dir [] ''criu''])) \<noteq> []"
    by (simp only: SyncInstalled_paths) (simp add: BinaryPaths_def entry_def)
  ultimately show False using b by (auto simp: find_criu_def split: if_splits option.splits sum.splits list.splits)
qed

text \<open>
  CRIU is accepted exactly if it works. The adapter passes a request on if and only if there is a CRIU binary, \<open>criu check\<close> succeeded, and it
  printed no line that starts with \<open>Error\<close>; the path it passes on is the configured one, else the plugin's, else the system's.
\<close>

theorem criu_New_accepts:
  "criu_New s = Inr path \<longleftrightarrow> source_path (find_criu s) = Some path
     \<and> (case cCheck s path (Check_args (cSwrk s) []) of (out, err) \<Rightarrow>
          err = None \<and> list_all (\<lambda>l. \<not> has_prefix l ''Error'') (split_on (CHR 0x0A) out))"
proof (cases "source_path (find_criu s) = Some path")
  case True
  obtain out err where o: "cCheck s path (Check_args (cSwrk s) []) = (out, err)" by fastforce
  obtain ws es where w: "parseCheckOutput out = (ws, es)" by fastforce
  have es: "es = [] \<longleftrightarrow> list_all (\<lambda>l. \<not> has_prefix l ''Error'') (split_on (CHR 0x0A) out)"
    using parse_lines_errors [of "split_on (CHR 0x0A) out"] w by (simp add: parseCheckOutput_def)
  have "criu_New s = Inr path \<longleftrightarrow> err = None \<and> es = []"
    using True o w by (cases "find_criu s") (simp_all add: criu_New_def CheckFeatures_def split: list.split)
  then show ?thesis using True o es by simp
next
  case False
  then show ?thesis by (cases "find_criu s") (auto simp: criu_New_def split: option.splits list.splits)
qed

text \<open>
  C40: The versions CRIU is used with. For a release version, whose number does not wrap around, \<open>CheckOpts\<close> accepts it exactly if it is at least 3.0, or at least 3.16
  when the options ask for a security profile or a mount context, in the order of versions.
\<close>

theorem CheckOpts_bounds:
  assumes "release v"
  shows "CheckOpts (version_number v, None) (Some p) = None \<longleftrightarrow>
    version_le \<lparr>MajorNumber = 3, MinorNumber = (if LsmProfile p = None \<and> LsmMountContext p = None then 0 else 16), Sublevel = 0, Gitid = []\<rparr> v"
proof -
  let ?w = "\<lambda>k. \<lparr>MajorNumber = 3, MinorNumber = k, Sublevel = 0, Gitid = []\<rparr>"
  have "version_le (?w k) v \<longleftrightarrow> 30000 + k * 100 \<le> version_number v" if "0 \<le> k" "k < 100" for k
    using version_number_le [of "?w k" v] version_number_normal [of "?w k"] assms that by (simp add: release_def)
  from this [of 0] this [of 16] show ?thesis by (auto simp: CheckOpts_def CRIU_MIN_VERSION_def)
qed

theorem CheckOpts_bounds_witness:
  "CheckOpts (version_number \<lparr>MajorNumber = 3, MinorNumber = 15, Sublevel = 0, Gitid = []\<rparr>, None) (Some empty_opts) = None"
  using CheckOpts_bounds [of "\<lparr>MajorNumber = 3, MinorNumber = 15, Sublevel = 0, Gitid = []\<rparr>" empty_opts]
  by (simp add: release_def version_le_def empty_opts_def)

end
