(* ===== verification/Pipeline.thy ===== *)
theory Pipeline
  imports Adapters
begin

text \<open>
  What the adapters of a request have in common. A handler gets its options by value and works on a state that holds everything reached through
  pointers; it returns whether it has an exit-code function and an error, and \<open>None\<close> is a handler that never returns. The contract
  of an adapter is what it may do to the options and the state before it calls the next handler.
\<close>

type_synonym ('o, 'w) pipe = "'o \<Rightarrow> 'w \<Rightarrow> ((bool \<times> error) \<times> 'w) option"

text \<open>\<open>return nil, err\<close>.\<close>

definition fail :: "goerr \<Rightarrow> 'w \<Rightarrow> ((bool \<times> error) \<times> 'w) option" where
  "fail e w = Some ((False, Some e), w)"

lemma fail_not_ok [simp]: "fail e w \<noteq> Some ((c, None), w')"
  by (simp add: fail_def)

locale pipeline =
  fixes evolves :: "'o \<Rightarrow> 'w \<Rightarrow> 'o \<Rightarrow> 'w \<Rightarrow> bool"
  assumes evolves_refl: "evolves o1 w o1 w"
    and evolves_trans: "evolves o1 w1 o2 w2 \<Longrightarrow> evolves o2 w2 o3 w3 \<Longrightarrow> evolves o1 w1 o3 w3"
begin

text \<open>An adapter keeps the contract if, whenever it succeeds, it has called the next handler with options and a state it may have made, and returns that result.\<close>

definition passes :: "(('o, 'w) pipe \<Rightarrow> ('o, 'w) pipe) \<Rightarrow> bool" where
  "passes a \<longleftrightarrow> (\<forall>nxt o1 w c w'. a nxt o1 w = Some ((c, None), w') \<longrightarrow>
     (\<exists>o2 w2. evolves o1 w o2 w2 \<and> nxt o2 w2 = Some ((c, None), w')))"

lemma passesI:
  "(\<And>nxt o1 w c w'. a nxt o1 w = Some ((c, None), w') \<Longrightarrow> \<exists>o2 w2. evolves o1 w o2 w2 \<and> nxt o2 w2 = Some ((c, None), w')) \<Longrightarrow> passes a"
  by (auto simp: passes_def)

lemma passesE:
  assumes "passes a" and "a nxt o1 w = Some ((c, None), w')"
  obtains o2 w2 where "evolves o1 w o2 w2" and "nxt o2 w2 = Some ((c, None), w')"
  using assms unfolding passes_def by blast

lemma passes_adapted: "list_all passes as \<Longrightarrow> passes (\<lambda>h. adapted h as)"
proof (induction as)
  case Nil
  show ?case using evolves_refl by (auto simp: passes_def)
next
  case (Cons a as)
  show ?case
  proof (rule passesI)
    fix nxt o1 w c w' assume r: "adapted nxt (a # as) o1 w = Some ((c, None), w')"
    have a: "a (adapted nxt as) o1 w = Some ((c, None), w')" using r by simp
    obtain o2 w2 where 2: "evolves o1 w o2 w2" "adapted nxt as o2 w2 = Some ((c, None), w')"
      using Cons.prems a passesE [of a "adapted nxt as" o1 w c w'] by auto
    obtain o3 w3 where "evolves o2 w2 o3 w3" "nxt o3 w3 = Some ((c, None), w')"
      using Cons 2(2) passesE [of "\<lambda>h. adapted h as" nxt o2 w2 c w'] by auto
    then show "\<exists>o2 w2. evolves o1 w o2 w2 \<and> nxt o2 w2 = Some ((c, None), w')" using 2(1) evolves_trans by blast
  qed
qed

end

text \<open>The other contract says what a handler leaves alone however it ends.\<close>

locale pipe_frame =
  fixes R :: "'w \<Rightarrow> 'w \<Rightarrow> bool"
  assumes frame_refl: "R w w" and frame_trans: "R u v \<Longrightarrow> R v w \<Longrightarrow> R u w"
begin

definition frames :: "('o, 'w) pipe \<Rightarrow> bool" where
  "frames h \<longleftrightarrow> (\<forall>o1 w r w'. h o1 w = Some (r, w') \<longrightarrow> R w w')"

definition framed :: "(('o, 'w) pipe \<Rightarrow> ('o, 'w) pipe) \<Rightarrow> bool" where
  "framed a \<longleftrightarrow> (\<forall>nxt. frames nxt \<longrightarrow> frames (a nxt))"

lemma framesD: "frames h \<Longrightarrow> h o1 w = Some (r, w') \<Longrightarrow> R w w'"
  unfolding frames_def by blast

lemma frames_after: "frames h \<Longrightarrow> R w w1 \<Longrightarrow> h o1 w1 = Some (r, w') \<Longrightarrow> R w w'"
  using framesD frame_trans by metis

lemma frame_fail: "R w w1 \<Longrightarrow> fail e w1 = Some (r, w') \<Longrightarrow> R w w'"
  by (simp add: fail_def)

lemma framedI: "(\<And>nxt o1 w r w'. frames nxt \<Longrightarrow> a nxt o1 w = Some (r, w') \<Longrightarrow> R w w') \<Longrightarrow> framed a"
  unfolding framed_def frames_def by blast

lemma framedD: "framed a \<Longrightarrow> frames nxt \<Longrightarrow> frames (a nxt)"
  by (simp add: framed_def)

lemma frames_adapted: "list_all framed as \<Longrightarrow> frames h \<Longrightarrow> frames (adapted h as)"
  by (induction as) (auto simp: framed_def)

end

end
