(* ===== verification/Dump_Adapters.thy ===== *)
theory Dump_Adapters
  imports Job_Manager Gpu_Callback Storage Criu_Checks Pipeline
begin

text \<open>
  The dump pipeline: the adapters of \<^bold>\<open>internal/cedana/{defaults,validation,filesystem,process,network,gpu,criu,job}\<close> that \<open>Server.Dump\<close> of
  \<^bold>\<open>internal/cedana/dump.go\<close> composes, and the CRIU handler at its end. A handler gets the options by value and works on a
  state that holds what is reached through pointers: the request, the response, the CRIU callbacks, the GPU
  controllers, the jobs, and what was written to disk and to storage. It returns whether it has an exit-code
  function, and an error; \<open>None\<close> is a handler that never returns.
\<close>

section \<open>Requests, options and state\<close>

record dump_req =
  dqDir :: string
  dqName :: string
  dqType :: string
  dqDetails :: "details option"
  dqCriu :: "criu_opts option"
  dqCompression :: string
  dqAsync :: bool
  dqStreams :: int

record dump_resp =
  drState :: "process_state option"
  drPaths :: "string list"
  drMessages :: "string list"

text \<open>What the closure \<open>compress\<close> of \<open>DumpFilesystem\<close> captures.\<close>

record tar_job =
  tjStorage :: storage
  tjDir :: string
  tjPath :: string
  tjImages :: string
  tjCompression :: string

text \<open>The callbacks that adapters register with CRIU, named; what they do is given by \<open>cb_of\<close> below.\<close>

datatype callback = CbGpu string | CbGpuMounts u32 | CbExternalFiles u32 | CbCompress tar_job

record dump_opts =
  oStorage :: storage
  oDumpFs :: "string option"
  oCallback :: bool
  oCriu :: bool
  oServerless :: bool

record dump_world =
  dReq :: dump_req
  dResp :: dump_resp
  dCallbacks :: "callback list"
  dGpu :: gpu_cb
  dJobs :: mgr
  dSaved :: "(string \<times> process_state) list"
  dImages :: "string list"
  dStored :: "(string \<times> stream option) list"
  dAsync :: "tar_job list"
  dCriuRuns :: "criu_opts list"
  dStuck :: bool

type_synonym dump_handler = "(dump_opts, dump_world) pipe"

record dump_env =
  eProcs :: proc_env
  eFrozen :: proc_env
  eTcp :: "u32 \<Rightarrow> goerr + string list \<times> error"
  eJobs :: mgr_env
  eMeanwhile :: "mgr \<Rightarrow> mgr"
  eMerge :: "details \<Rightarrow> details \<Rightarrow> details"
  eGpu :: gpu_env
  eGpuSync :: "gpu_state \<Rightarrow> (error \<times> gpu_state) option"
  eCriu :: criu_site
  eExchanges :: "exchange list"
  eChown :: "string \<Rightarrow> error"
  eNowNano :: string
  eNowUnix :: string
  eStat :: "string \<Rightarrow> stat_answer"
  eMkdir :: "string \<Rightarrow> error"
  eChmod :: "string \<Rightarrow> error"
  eOpenDir :: "string \<Rightarrow> goerr + int"
  eTempDir :: string
  eStatfs :: "string \<Rightarrow> goerr + int"
  eItems :: "string \<Rightarrow> walk_item list"
  eTarClose :: error
  eFuseFirst :: bool
  eSaveErr :: "string \<Rightarrow> error"
  eFiles :: os_files
  eStorages :: "storage_ctor loaded"
  eMiddlewares :: "(dump_handler \<Rightarrow> dump_handler) list loaded"
  eHandlers :: "dump_handler loaded"
  eStreamer :: "int \<Rightarrow> dump_handler \<Rightarrow> dump_handler"
  cfgDir :: string
  cfgCompression :: string
  cfgAsync :: bool
  cfgStreams :: int
  cfgLeaveRunning :: bool
  cfgCgMode :: int
  cfgLogLevel :: int

abbreviation status_error :: "code \<Rightarrow> string \<Rightarrow> goerr" where
  "status_error \<equiv> goerr.Status"

definition upd_req :: "(dump_req \<Rightarrow> dump_req) \<Rightarrow> dump_world \<Rightarrow> dump_world" where
  "upd_req f w = w\<lparr>dReq := f (dReq w)\<rparr>"

definition upd_resp :: "(dump_resp \<Rightarrow> dump_resp) \<Rightarrow> dump_world \<Rightarrow> dump_world" where
  "upd_resp f w = w\<lparr>dResp := f (dResp w)\<rparr>"

text \<open>\<open>if req.GetCriu() == nil { req.Criu = &CriuOpts{} }\<close> followed by assignments to its fields.\<close>

definition upd_criu :: "(criu_opts \<Rightarrow> criu_opts) \<Rightarrow> dump_world \<Rightarrow> dump_world" where
  "upd_criu f w = upd_req (\<lambda>r. r\<lparr>dqCriu := Some (f (case dqCriu r of None \<Rightarrow> empty_opts | Some p \<Rightarrow> p))\<rparr>) w"

definition no_state :: goerr where
  "no_state = status_error InvalidArgument ''missing state. at least PID is required in resp.state''"

definition no_pid :: goerr where
  "no_pid = status_error NotFound ''missing PID. Ensure an adapter sets this PID in response.''"

section \<open>Defaults and validation\<close>

definition FillMissingDumpDefaults :: "dump_env \<Rightarrow> dump_handler \<Rightarrow> dump_handler" where
  "FillMissingDumpDefaults env nxt opts w =
     (let w1 = upd_req (\<lambda>r. r\<lparr>dqDir := (if dqDir r = [] then cfgDir env else dqDir r),
            dqName := (if dqName r = [] then ''dump-'' @ dqType r @ ''-'' @ eNowNano env else dqName r)\<rparr>) w;
          w2 = upd_criu (\<lambda>p. if get_bool (LeaveRunning p) then p else p\<lparr>LeaveRunning := Some (cfgLeaveRunning env)\<rparr>) w1;
          w3 = upd_criu (\<lambda>p. if ManageCgroupsMode p = None
            then p\<lparr>ManageCgroupsMode := Some (cfgCgMode env), ManageCgroups := Some True\<rparr> else p) w2;
          w4 = upd_criu (\<lambda>p. p\<lparr>NotifyScripts := Some True, EvasiveDevices := Some True, ExtMasters := Some True\<rparr>) w3
      in nxt opts w4)"

definition ValidateDumpRequest :: "dump_handler \<Rightarrow> dump_handler" where
  "ValidateDumpRequest nxt opts w =
     (if dqDir (dReq w) = [] then fail (status_error InvalidArgument ''no dump dir specified'') w
      else if dqDetails (dReq w) = None then fail (status_error InvalidArgument ''missing details'') w
      else if dqType (dReq w) = [] then fail (status_error InvalidArgument ''missing type'') w
      else nxt opts w)"

section \<open>The dump directory\<close>

text \<open>
  \<open>os.RemoveAll\<close> of the images directory. The code drops its error, so a removal that fails goes on like one that succeeds:
  \<open>dImages\<close> are the directories that were made and not removed in this sense since.
\<close>

definition remove_images :: "string \<Rightarrow> dump_world \<Rightarrow> dump_world" where
  "remove_images d w = w\<lparr>dImages := removeAll d (dImages w)\<rparr>"

definition FUSE_SUPER_MAGIC :: int where
  "FUSE_SUPER_MAGIC = 0x65735546"

definition isFuseFS :: "dump_env \<Rightarrow> string \<Rightarrow> bool \<Rightarrow> goerr + bool" where
  "isFuseFS env path stat =
     (if \<not> stat then Inr False
      else (case eStatfs env path of
          Inl e \<Rightarrow> Inl (Wrapf (''failed to get statfs for '' @ path) e)
        | Inr magic \<Rightarrow> Inr (magic = FUSE_SUPER_MAGIC)))"

text \<open>Creating the object replaces an older one; what is stored under the path afterwards is the archive, or \<open>None\<close> for a part of one.\<close>

definition put_object :: "string \<Rightarrow> stream option option \<Rightarrow> dump_world \<Rightarrow> dump_world" where
  "put_object path v w = w\<lparr>dStored := (case v of
       None \<Rightarrow> AList.delete path (dStored w)
     | Some s \<Rightarrow> AList.update path s (dStored w))\<rparr>"

text \<open>
  On a FUSE filesystem the goroutine of the writer closes the tarball too. If it comes first (\<open>eFuseFirst\<close>), the error of that close is lost and the
  deferred close finds the file closed.
\<close>

definition close_tarball :: "dump_env \<Rightarrow> tar_job \<Rightarrow> bool \<Rightarrow> error" where
  "close_tarball env j isFuse =
     (if isFuse \<and> eFuseFirst env then Some (Errorf ''file already closed'') else sClose (tjStorage j) (tjPath j))"

definition compress :: "dump_env \<Rightarrow> tar_job \<Rightarrow> dump_world \<Rightarrow> error \<times> dump_world" where
  "compress env j w =
     (let st = tjStorage j; path = tjPath j in
      case isFuseFS env (tjDir j) (\<not> sIsRemote st) of
        Inl e \<Rightarrow> (Some (Wrapf ''failed to determine filesystem type'' e), w)
      | Inr isFuse \<Rightarrow>
        (case sCreate st path of
           Some e \<Rightarrow> (Some (Wrapf ''failed to create tarball in storage'' e), w)
         | None \<Rightarrow>
           (case Tar (eItems env (tjImages j)) (tjCompression j) isFuse (eTarClose env) of
              (Some e, _) \<Rightarrow>
                (errors_Join [Some (Wrapf ''failed to create tarball'' e), close_tarball env j isFuse],
                 remove_images (tjImages j) (put_object path (if sDelete st path = None then None else Some None) w))
            | (None, s) \<Rightarrow>
                (errors_Join [None, close_tarball env j isFuse],
                 remove_images (tjImages j) (put_object path (Some (if sClose st path = None then s else None)) w)))))"

text \<open>
  The deferred calls run after the rest of the chain, the last registered first. Two of them are registered inside the block
  that declares its own \<open>err\<close> with \<open>ext, err := ...\<close>: the asynchronous upload tests that variable, which is nil, and the upload
  of a process left running assigns to it, so neither sees nor changes the error of the request.
\<close>

datatype after_dump = Upload tar_job | UploadLater tar_job | Nothing

definition run_after :: "dump_env \<Rightarrow> after_dump \<Rightarrow> dump_world \<Rightarrow> dump_world" where
  "run_after env a w = (case a of
       Upload j \<Rightarrow> snd (compress env j w)
     | UploadLater j \<Rightarrow> w\<lparr>dAsync := dAsync w @ [j]\<rparr>
     | Nothing \<Rightarrow> w)"

definition finish_dump :: "dump_env \<Rightarrow> string \<Rightarrow> bool \<Rightarrow> after_dump \<Rightarrow> (bool \<times> error) \<times> dump_world \<Rightarrow> (bool \<times> error) \<times> dump_world" where
  "finish_dump env images drop_images a r =
     (let w1 = run_after env a (snd r)
      in (fst r, if named_result (snd (fst r)) \<noteq> None \<or> drop_images then remove_images images w1 else w1))"

definition DumpFilesystem :: "dump_env \<Rightarrow> dump_handler \<Rightarrow> dump_handler" where
  "DumpFilesystem env nxt opts w =
     (let st = oStorage opts; r = dReq w;
          compression = (if dqCompression r = [] then cfgCompression env else dqCompression r);
          remote = sIsRemote st;
          async = ((dqAsync r \<or> cfgAsync env) \<and> remote);
          dir = (if remote then eTempDir env else dqDir r);
          images = Join [dir, dqName r]
      in
      if compression \<notin> set SUPPORTED_COMPRESSIONS
      then fail (status_error Unimplemented (''unsupported compression format '' @ quoted compression)) w
      else if eStat env dir = NotExist
      then fail (status_error InvalidArgument (''dump dir does not exist: '' @ dir)) w
      else (case eMkdir env images of
          Some e \<Rightarrow> fail (Statusf Internal ''failed to create dump dir'' e) w
        | None \<Rightarrow>
          (let w1 = w\<lparr>dImages := dImages w @ [images]\<rparr>;
               done = finish_dump env images (remote \<and> \<not> async)
           in
           case eChmod env images of
             Some e \<Rightarrow> Some (done Nothing ((False, Some (Statusf Internal ''failed to chmod dump dir'' e)), w1))
           | None \<Rightarrow>
             (case eOpenDir env images of
                Inl e \<Rightarrow> Some (done Nothing ((False, Some (Statusf Internal ''failed to open dump dir'' e)), w1))
              | Inr fd \<Rightarrow>
                (let w2 = upd_criu (\<lambda>p. p\<lparr>ImagesDir := Some images, ImagesDirFd := Some fd\<rparr>) w1;
                     opts2 = opts\<lparr>oDumpFs := Some images\<rparr>
                 in
                 if remote \<or> (compression \<noteq> [] \<and> compression \<noteq> ''none'') then
                   (case ExtForCompression compression of
                      Inl e \<Rightarrow> Some (done Nothing ((False, Some e), w2))
                    | Inr ext \<Rightarrow>
                      (let path = tarball_name (dqDir r @ ''/'' @ dqName r) ext;
                           j = \<lparr>tjStorage = st, tjDir = dqDir r, tjPath = path, tjImages = images, tjCompression = compression\<rparr>;
                           w3 = upd_resp (\<lambda>p. p\<lparr>drPaths := drPaths p @ [path]\<rparr>) w2
                       in
                       if async then map_option (done (UploadLater j)) (nxt opts2 w3)
                       else if get_bool (LeaveRunning (the (dqCriu (dReq w3)))) then map_option (done (Upload j)) (nxt opts2 w3)
                       else if \<not> oCallback opts then Some (done Nothing ((False, Some nil_deref), w3))
                       else map_option (done Nothing) (nxt opts2 (w3\<lparr>dCallbacks := dCallbacks w3 @ [CbCompress j]\<rparr>))))
                 else
                   map_option (done Nothing) (nxt opts2 (upd_resp (\<lambda>p. p\<lparr>drPaths := drPaths p @ [images]\<rparr>) w2)))))))"

section \<open>The process\<close>

definition SetPIDForDump :: "dump_handler \<Rightarrow> dump_handler" where
  "SetPIDForDump nxt opts w =
     (let st = (case drState (dResp w) of None \<Rightarrow> ProcessState empty_info [] | Some s \<Rightarrow> s);
          w1 = upd_resp (\<lambda>r. r\<lparr>drState := Some st\<rparr>) w;
          pid = (case dqDetails (dReq w) of None \<Rightarrow> 0 | Some d \<Rightarrow> dProcessPID d)
      in
      if PID (info st) \<noteq> 0 then nxt opts w1
      else if pid = 0 then fail (status_error InvalidArgument ''missing PID'') w1
      else nxt opts (upd_resp (\<lambda>r. r\<lparr>drState := Some (ProcessState ((info st)\<lparr>PID := pid\<rparr>) (Children st))\<rparr>) w1))"

definition FillProcessStateForDump :: "dump_env \<Rightarrow> dump_handler \<Rightarrow> dump_handler" where
  "FillProcessStateForDump env nxt opts w =
     (case drState (dResp w) of
        None \<Rightarrow> fail no_state w
      | Some st \<Rightarrow>
        if PID (info st) = 0 then fail no_pid w
        else (case FillProcessState (eProcs env) (PID (info st)) st True of
            None \<Rightarrow> None
          | Some (err, st') \<Rightarrow>
            (let w1 = upd_resp (\<lambda>r. r\<lparr>drState := Some st'\<rparr>) w in
             case err of
               Some (Panic p) \<Rightarrow> fail (Panic p) w1
             | Some e \<Rightarrow> fail (Statusf Internal ''failed to fill process state'' e) w1
             | None \<Rightarrow> nxt opts w1)))"

definition STATE_FILE :: string where
  "STATE_FILE = ''process_state.json''"

text \<open>A failure to save the state is only logged.\<close>

definition SaveProcessStateForDump :: "dump_env \<Rightarrow> dump_handler \<Rightarrow> dump_handler" where
  "SaveProcessStateForDump env nxt opts w =
     (case drState (dResp w) of
        None \<Rightarrow> fail no_state w
      | Some st \<Rightarrow>
        if PID (info st) = 0 then fail no_pid w
        else nxt opts (if eSaveErr env STATE_FILE = None then w\<lparr>dSaved := dSaved w @ [(STATE_FILE, st)]\<rparr> else w))"

definition DetectShellJobForDump :: "dump_handler \<Rightarrow> dump_handler" where
  "DetectShellJobForDump nxt opts w =
     (let shell = (case drState (dResp w) of None \<Rightarrow> False | Some st \<Rightarrow> SID (info st) \<noteq> PID (info st))
      in nxt opts (upd_criu (\<lambda>p. p\<lparr>ShellJob := Some shell\<rparr>) w))"

definition uses_io_uring :: "process_state \<Rightarrow> bool" where
  "uses_io_uring st =
     snd (WalkTree (\<lambda>i. Some (OpenFiles i)) (\<lambda>f found. let found' = (found \<or> contains (fPath f) ''io_uring'') in (\<not> found', found')) st False)"

definition DetectIOUringForDump :: "dump_handler \<Rightarrow> dump_handler" where
  "DetectIOUringForDump nxt opts w =
     (case drState (dResp w) of
        None \<Rightarrow> nxt opts w
      | Some st \<Rightarrow>
        if uses_io_uring st then fail (status_error Unimplemented ''IOUring dump is not supported at the moment'') w
        else nxt opts w)"

definition mount_ids :: "process_state \<Rightarrow> u64 list" where
  "mount_ids st = snd (WalkTree (\<lambda>i. Some (Mounts i)) (\<lambda>m ids. (True, ids @ [mID m])) st [])"

definition is_external :: "u64 list \<Rightarrow> open_file \<Rightarrow> bool" where
  "is_external ids f \<longleftrightarrow> \<not> (fMountID f \<in> set ids \<or> has_prefix (fPath f) ''pipe'' \<or> has_prefix (fPath f) ''socket''
     \<or> has_prefix (fPath f) ''anon_inode'' \<or> has_prefix (fPath f) ''/memfd:'')"

definition file_key :: "open_file \<Rightarrow> string" where
  "file_key f =
     (if fIsTTY f then ''tty['' @ xtoa (unat (fRdev f)) @ '':'' @ xtoa (unat (fDev f)) @ '']''
      else ''file['' @ xtoa (unat (fMountID f)) @ '':'' @ xtoa (unat (fInode f)) @ '']'')"

definition externalFileKeys :: "process_state \<Rightarrow> string list" where
  "externalFileKeys st =
     (let ids = mount_ids st in
      snd (WalkTree (\<lambda>i. Some (OpenFiles i)) (\<lambda>f keys. (True, if is_external ids f then keys @ [file_key f] else keys)) st []))"

definition AddExternalFilesForDump :: "dump_handler \<Rightarrow> dump_handler" where
  "AddExternalFilesForDump nxt opts w =
     (case drState (dResp w) of
        None \<Rightarrow> nxt opts w
      | Some st \<Rightarrow>
        (let w1 = upd_criu (\<lambda>p. p\<lparr>External := External p @ externalFileKeys st\<rparr>) w
         in nxt opts (if oCallback opts then w1\<lparr>dCallbacks := dCallbacks w1 @ [CbExternalFiles (PID (info st))]\<rparr> else w1)))"

definition AddExternalMountsForDump :: "dump_handler \<Rightarrow> dump_handler" where
  "AddExternalMountsForDump nxt opts w =
     (if dqCriu (dReq w) = None then fail nil_deref w
      else nxt opts (upd_criu (\<lambda>p. p\<lparr>External := External p @ [''mnt[]:ms''], AutoExtMnt := Some True, ExtMasters := Some True\<rparr>) w))"

section \<open>The network\<close>

text \<open>\<open>SOCK_STREAM\<close> and \<open>AF_UNIX\<close> are both 1. The field \<open>PID\<close> is not a slice, so the second walk visits nothing.\<close>

definition SOCK_STREAM :: u32 where
  "SOCK_STREAM = 1"

definition AF_UNIX :: u32 where
  "AF_UNIX = 1"

definition connections :: "process_state \<Rightarrow> bool \<times> bool" where
  "connections st =
     snd (WalkTree (\<lambda>i. Some (OpenConnections i))
       (\<lambda>c (tcp, ext). (True, tcp \<or> cType c = SOCK_STREAM, ext \<or> cType c = AF_UNIX)) st (False, False))"

definition active_tcp :: "dump_env \<Rightarrow> process_state \<Rightarrow> bool" where
  "active_tcp env st =
     snd (WalkTree (\<lambda>i. None)
       (\<lambda>pid (_ :: bool). case HasActiveTCPConnections (''/proc/'' @ itoa (unat pid) @ ''/net/tcp'') (eTcp env pid) of
            Inl _ \<Rightarrow> (True, False) | Inr b \<Rightarrow> (\<not> b, b)) st False)"

definition DetectNetworkOptionsForDump :: "dump_env \<Rightarrow> dump_handler \<Rightarrow> dump_handler" where
  "DetectNetworkOptionsForDump env nxt opts w =
     (let (tcp, ext) = (case drState (dResp w) of
            None \<Rightarrow> (False, False)
          | Some st \<Rightarrow> (case connections st of (t, u) \<Rightarrow> (t \<or> active_tcp env st, u)))
      in nxt opts (upd_criu (\<lambda>p. p\<lparr>TcpEstablished := Some (tcp \<or> get_bool (TcpEstablished p)),
           ExtUnixSk := Some (ext \<or> get_bool (ExtUnixSk p))\<rparr>) w))"

section \<open>The GPU\<close>

text \<open>The pattern of NVIDIA mounts, anchored at the start; the dot does not match a line break.\<close>

definition nvidia_mount :: "string \<Rightarrow> bool" where
  "nvidia_mount root \<longleftrightarrow>
     contains (takeWhile (\<lambda>c. c \<noteq> CHR 0x0A) root) ''nvidia''
     \<or> list_ex (has_prefix root) ([''/usr/bin/nv'', ''/usr/lib/firmware/nv'', ''/etc/vulkan''] @
          concat (map (\<lambda>l. concat (map (\<lambda>a. map (\<lambda>k. l @ a @ k) [''libcuda'', ''libnv'']) [[], ''x86_64-linux-gnu/'', ''aarch64-linux-gnu/''])) [''/usr/lib/'', ''/usr/lib64/'']))"

definition gpuExternalMountKeys :: "process_state \<Rightarrow> string list" where
  "gpuExternalMountKeys st =
     snd (WalkTree (\<lambda>i. Some (Mounts i))
       (\<lambda>m keys. (True, if nvidia_mount (mRoot m) then keys @ [''mnt['' @ mMountPoint m @ '']:'' @ mMountPoint m] else keys)) st [])"

definition gpu_AddExternalMountsForDump :: "dump_handler \<Rightarrow> dump_handler" where
  "gpu_AddExternalMountsForDump nxt opts w =
     (case drState (dResp w) of
        None \<Rightarrow> fail no_state w
      | Some st \<Rightarrow>
        if dqCriu (dReq w) = None \<or> \<not> oCallback opts then fail nil_deref w
        else nxt opts ((upd_criu (\<lambda>p. p\<lparr>External := External p @ gpuExternalMountKeys st\<rparr>) w)
               \<lparr>dCallbacks := dCallbacks w @ [CbGpuMounts (PID (info st))]\<rparr>))"

definition set_pool :: "gpu_state \<Rightarrow> dump_world \<Rightarrow> dump_world" where
  "set_pool p w = w\<lparr>dGpu := (dGpu w)\<lparr>gPool := p\<rparr>\<rparr>"

definition gpu_Dump :: "dump_env \<Rightarrow> dump_handler \<Rightarrow> dump_handler" where
  "gpu_Dump env nxt opts w =
     (case drState (dResp w) of
        None \<Rightarrow> fail no_state w
      | Some st \<Rightarrow>
        (case eGpuSync env (gPool (dGpu w)) of
           None \<Rightarrow> None
         | Some (Some e, p) \<Rightarrow> fail (Statusf Internal ''failed to sync GPU manager'' e) (set_pool p w)
         | Some (None, p) \<Rightarrow>
           (let w1 = set_pool p w; pid = PID (info st) in
            if \<not> simple_IsAttached pid p then nxt opts w1
            else if \<not> lm_IsInstalled (cPlugins (eCriu env)) (cDisk (eCriu env)) ''gpu''
            then fail (status_error FailedPrecondition ''Please install the GPU plugin to dump with GPU support'') w1
            else if \<not> oCallback opts then fail nil_deref w1
            else
              (let ident = simple_GetID pid p;
                   w2 = upd_resp (\<lambda>r. r\<lparr>drState := Some (ProcessState ((info st)\<lparr>GPUID := ident, GPUEnabled := True\<rparr>) (Children st))\<rparr>) w1;
                   w3 = w2\<lparr>dCallbacks := dCallbacks w2 @ [CbGpu ident], dGpu := new_cb p (frozen (dGpu w2))\<rparr>
               in adapted nxt [gpu_AddExternalMountsForDump] opts w3))))"

section \<open>The callbacks\<close>

text \<open>A hook of the GPU callback works on its own part of the state.\<close>

definition lift_hook :: "gpu_cb hook \<Rightarrow> dump_world hook" where
  "lift_hook h w = (case h (dGpu w) of (e, g) \<Rightarrow> (e, w\<lparr>dGpu := g\<rparr>))"

definition lift_callback :: "(criu_opts, gpu_cb) notify_callback \<Rightarrow> (criu_opts, dump_world) notify_callback" where
  "lift_callback c = \<lparr>InitializeFunc = map_option (\<lambda>f a. lift_hook (f a)) (InitializeFunc c),
     InitializeDumpFunc = map_option (\<lambda>f a. lift_hook (f a)) (InitializeDumpFunc c),
     InitializeRestoreFunc = map_option (\<lambda>f a. lift_hook (f a)) (InitializeRestoreFunc c),
     FinalizeDumpFunc = map_option (\<lambda>f a b. lift_hook (f a b)) (FinalizeDumpFunc c),
     FinalizeRestoreFunc = map_option (\<lambda>f a b. lift_hook (f a b)) (FinalizeRestoreFunc c),
     PreDumpFunc = map_option (\<lambda>f a. lift_hook (f a)) (PreDumpFunc c), PostDumpFunc = map_option (\<lambda>f a. lift_hook (f a)) (PostDumpFunc c),
     PreRestoreFunc = map_option (\<lambda>f a. lift_hook (f a)) (PreRestoreFunc c), PostRestoreFunc = map_option (\<lambda>f a. lift_hook (f a)) (PostRestoreFunc c),
     NetworkLockFunc = map_option lift_hook (NetworkLockFunc c), NetworkUnlockFunc = map_option lift_hook (NetworkUnlockFunc c),
     SetupNamespacesFunc = map_option (\<lambda>f a. lift_hook (f a)) (SetupNamespacesFunc c),
     PostSetupNamespacesFunc = map_option lift_hook (PostSetupNamespacesFunc c),
     SkipNamespacesFunc = map_option (\<lambda>f a. lift_hook (f a)) (SkipNamespacesFunc c), PreResumeFunc = map_option lift_hook (PreResumeFunc c),
     PostResumeFunc = map_option lift_hook (PostResumeFunc c), OrphanPtsMasterFunc = map_option (\<lambda>f a. lift_hook (f a)) (OrphanPtsMasterFunc c),
     QueryExtFilesFunc = None, cbName = cbName c\<rparr>"

definition no_callback :: "string \<Rightarrow> ('o, 's) notify_callback" where
  "no_callback name = \<lparr>InitializeFunc = None, InitializeDumpFunc = None, InitializeRestoreFunc = None, FinalizeDumpFunc = None,
     FinalizeRestoreFunc = None, PreDumpFunc = None, PostDumpFunc = None, PreRestoreFunc = None, PostRestoreFunc = None,
     NetworkLockFunc = None, NetworkUnlockFunc = None, SetupNamespacesFunc = None, PostSetupNamespacesFunc = None,
     SkipNamespacesFunc = None, PreResumeFunc = None, PostResumeFunc = None, OrphanPtsMasterFunc = None, QueryExtFilesFunc = None,
     cbName = name\<rparr>"

text \<open>Both adapters that look at the tree again after CRIU has seized it do so in the same way; a walk that does not end leaves the hook stuck.\<close>

definition query_frozen :: "dump_env \<Rightarrow> u32 \<Rightarrow> (process_state \<Rightarrow> string list) \<Rightarrow> dump_world files_hook" where
  "query_frozen env pid keys w =
     (case FillProcessState (eFrozen env) pid (ProcessState empty_info []) True of
        None \<Rightarrow> (([], Some (Panic ''waits for ever'')), w\<lparr>dStuck := True\<rparr>)
      | Some (Some e, _) \<Rightarrow> (([], Some e), w)
      | Some (None, st) \<Rightarrow> ((keys st, None), w))"

fun cb_of :: "dump_env \<Rightarrow> callback \<Rightarrow> (criu_opts, dump_world) notify_callback" where
  "cb_of env (CbGpu ident) = lift_callback (CRIUCallback (eGpu env) ident)"
| "cb_of env (CbGpuMounts pid) = (no_callback ''gpu external mounts'')\<lparr>QueryExtFilesFunc := Some (query_frozen env pid gpuExternalMountKeys)\<rparr>"
| "cb_of env (CbExternalFiles pid) = (no_callback ''external-files'')\<lparr>QueryExtFilesFunc := Some (query_frozen env pid externalFileKeys)\<rparr>"
| "cb_of env (CbCompress j) = (no_callback [])\<lparr>PostDumpFunc := Some (\<lambda>_. compress env j)\<rparr>"

definition callbacks_of :: "dump_env \<Rightarrow> callback list \<Rightarrow> (criu_opts, dump_world) notify_multi" where
  "callbacks_of env cbs = \<lparr>callbacks = map (\<lambda>c. notify_of_callback (cb_of env c)) cbs\<rparr>"

section \<open>CRIU\<close>

definition CheckOptsForDump :: "dump_env \<Rightarrow> dump_handler \<Rightarrow> dump_handler" where
  "CheckOptsForDump env nxt opts w =
     (case CheckOpts (site_version (eCriu env)) (dqCriu (dReq w)) of
        Some (Panic p) \<Rightarrow> fail (Panic p) w
      | Some e \<Rightarrow> fail (Statusf FailedPrecondition ''CRIU compatibility check failed'' e) w
      | None \<Rightarrow> nxt opts w)"

definition CRIU_DUMP_LOG_FILE :: string where
  "CRIU_DUMP_LOG_FILE = ''criu-dump.log''"

definition GHOST_FILE_MAX_SIZE :: u32 where
  "GHOST_FILE_MAX_SIZE = 800 * 1048576"

definition dump_opts_of :: "dump_env \<Rightarrow> u32 \<Rightarrow> criu_opts \<Rightarrow> criu_opts" where
  "dump_opts_of env pid p = p\<lparr>LogFile := Some CRIU_DUMP_LOG_FILE, LogLevel := Some (cfgLogLevel env), LogToStderr := Some False,
     GhostLimit := Some GHOST_FILE_MAX_SIZE, Pid := Some (i32 (uint pid))\<rparr>"

text \<open>
  The handler at the end of the chain. CRIU runs with the registered callbacks, whose state is the whole state of the request.
  A callback that waits for ever keeps the call from returning.
\<close>

definition criu_Dump :: "dump_env \<Rightarrow> dump_handler" where
  "criu_Dump env opts w =
     (case dqCriu (dReq w) of
        None \<Rightarrow> fail (status_error InvalidArgument ''criu options is nil'') w
      | Some p \<Rightarrow>
        (case site_version (eCriu env) of
           (_, Some e) \<Rightarrow> fail (Statusf Internal ''failed to get CRIU version'' e) w
         | (_, None) \<Rightarrow>
           (case drState (dResp w) of
              None \<Rightarrow> fail nil_deref w
            | Some st \<Rightarrow>
              (let p' = dump_opts_of env (PID (info st)) p;
                   w1 = upd_criu (\<lambda>_. p') w
               in
               if UIDs (info st) = [] \<or> GIDs (info st) = []
               then fail (status_error Internal ''missing UIDs/GIDs in process state'') w1
               else (case eChown env (get_str (ImagesDir p')) of
                   Some e \<Rightarrow> fail (Statusf Internal ''failed to change ownership of dump directory'' e) w1
                 | None \<Rightarrow>
                   if \<not> oCallback opts then fail nil_deref w1
                   else (case Criu_Dump (cSwrk (eCriu env)) (Some p') (Some (notify_of_multi (callbacks_of env (dCallbacks w1))))
                          (eExchanges env) (idle_swrk (w1\<lparr>dCriuRuns := dCriuRuns w1 @ [p']\<rparr>)) of
                       ((_, err), c) \<Rightarrow>
                         if dStuck (host c) \<or> hung (dGpu (host c)) then None
                         else (case err of
                             Some (Panic m) \<Rightarrow> fail (Panic m) (host c)
                           | Some e \<Rightarrow> fail (Statusf Internal ''failed CRIU dump'' e) (host c)
                           | None \<Rightarrow> Some ((True, None), host c))))))))"

definition New_for_dump :: "dump_env \<Rightarrow> dump_handler \<Rightarrow> dump_handler" where
  "New_for_dump env nxt opts w =
     (case criu_New (eCriu env) of
        Inl e \<Rightarrow> fail e w
      | Inr _ \<Rightarrow> nxt (opts\<lparr>oCriu := True, oCallback := True\<rparr>) (w\<lparr>dCallbacks := []\<rparr>))"

section \<open>Jobs\<close>

definition req_jid :: "details option \<Rightarrow> string" where
  "req_jid d = (case d of None \<Rightarrow> [] | Some d \<Rightarrow> (case dJID d of None \<Rightarrow> [] | Some jid \<Rightarrow> jid))"

text \<open>
  \<open><-jobs.Done(jid)\<close>: which channel is received from is decided now; what it holds is decided by the other goroutines
  that run until it is ready. The nil channel of a job that was never managed is never ready.
\<close>

definition wait_done :: "dump_env \<Rightarrow> string \<Rightarrow> mgr \<Rightarrow> (error \<times> mgr) option" where
  "wait_done env jid m =
     (case lookup jid m of
        None \<Rightarrow> Some (None, m)
      | Some a \<Rightarrow>
        if job_done (heap m ! a) = None then None
        else map_option (\<lambda>e. (e, eMeanwhile env m)) (recv (job_done (heap (eMeanwhile env m) ! a))))"

text \<open>The state in the response is the job's own, so what the chain writes to it is in the job even when the dump fails.\<close>

definition share_state :: "nat \<Rightarrow> dump_world \<Rightarrow> dump_world" where
  "share_state a w = (let m = dJobs w; j = heap m ! a in
     w\<lparr>dJobs := set_job a (j\<lparr>job_msg := (job_msg j)\<lparr>jState := drState (dResp w)\<rparr>\<rparr>) m\<rparr>)"

definition after_managed_dump :: "dump_env \<Rightarrow> string \<Rightarrow> nat \<Rightarrow> bool \<Rightarrow> dump_world \<Rightarrow> ((bool \<times> error) \<times> dump_world) option" where
  "after_managed_dump env jid a code w =
     (case Sync (jenv (eJobs env)) (drState (dResp w)) (heap (dJobs w) ! a) of
        None \<Rightarrow> None
      | Some j \<Rightarrow>
        (let m = AddCheckpoint (eJobs env) jid (drPaths (dResp w)) (set_job a j (dJobs w));
             w1 = w\<lparr>dJobs := m\<rparr>
         in
         if get_bool (case dqCriu (dReq w1) of None \<Rightarrow> None | Some p \<Rightarrow> LeaveRunning p) then Some ((code, None), w1)
         else (case wait_done env jid m of
             None \<Rightarrow> None
           | Some (None, m') \<Rightarrow> Some ((code, None), w1\<lparr>dJobs := m'\<rparr>)
           | Some (Some e, m') \<Rightarrow>
               Some ((code, None), upd_resp (\<lambda>r. r\<lparr>drMessages := drMessages r @ [err_text e]\<rparr>) (w1\<lparr>dJobs := m'\<rparr>)))))"

definition ManageDump :: "dump_env \<Rightarrow> dump_handler \<Rightarrow> dump_handler" where
  "ManageDump env nxt opts w =
     (let jid = req_jid (dqDetails (dReq w)) in
      if jid = [] then fail (status_error InvalidArgument ''missing JID for managed dump'') w
      else (case Get (eJobs env) jid (dJobs w) of
          None \<Rightarrow> None
        | Some (None, m) \<Rightarrow> fail (status_error NotFound (''job '' @ jid @ '' not found'')) (w\<lparr>dJobs := m\<rparr>)
        | Some (Some a, m) \<Rightarrow>
          (let j = heap m ! a; w1 = w\<lparr>dJobs := m\<rparr> in
           if \<not> job_IsRunning j
           then fail (status_error FailedPrecondition (''job '' @ jid @ '' is not running (status: '' @ Job.Status j @ '')'')) w1
           else
             (let w2 = upd_resp (\<lambda>r. r\<lparr>drState := GetState j\<rparr>) (upd_req (\<lambda>r. r\<lparr>dqType := GetType j,
                    dqName := (if dqName r = [] then ''dump-'' @ GetType j @ ''-'' @ jid @ ''-'' @ eNowUnix env else dqName r)\<rparr>) w1)
              in case GetDetails j of
                   None \<Rightarrow> fail nil_deref w2
                 | Some d \<Rightarrow>
                   (let merged = eMerge env d (the (dqDetails (dReq w2)));
                        w3 = upd_req (\<lambda>r. r\<lparr>dqDetails := Some merged\<rparr>)
                          (w2\<lparr>dJobs := set_job a (j\<lparr>job_msg := (job_msg j)\<lparr>jDetails := Some merged\<rparr>\<rparr>) m\<rparr>)
                    in case nxt opts w3 of
                         None \<Rightarrow> None
                       | Some ((code, Some e), w4) \<Rightarrow> Some ((code, Some e), share_state a w4)
                       | Some ((code, None), w4) \<Rightarrow> after_managed_dump env jid a code (share_state a w4))))))"

section \<open>The request\<close>

text \<open>The plugins add to the chain after \<open>pluginDumpMiddleware\<close>; an ordinary process has two adapters of its own.\<close>

definition pluginDumpMiddleware :: "dump_env \<Rightarrow> dump_handler \<Rightarrow> dump_handler" where
  "pluginDumpMiddleware env nxt opts w =
     (let t = dqType (dReq w) in
      if t = ''process'' then adapted nxt [SetPIDForDump, DetectShellJobForDump] opts w
      else (case IfAvailable ''Dump middleware'' (\<lambda>_ mw acc. (Returned None, acc @ mw)) [t] (eMiddlewares env) [] of
          (Some e, _) \<Rightarrow> fail (status_error Unavailable (err_text e)) w
        | (None, middleware) \<Rightarrow> adapted nxt middleware opts w))"

definition pluginDumpStorage :: "dump_env \<Rightarrow> dump_handler \<Rightarrow> dump_handler" where
  "pluginDumpStorage env nxt opts w =
     (case select_storage (eFiles env) (eStorages env) (dqDir (dReq w)) of
        (Some e, _) \<Rightarrow> fail (status_error Unavailable (err_text e)) w
      | (None, st) \<Rightarrow>
        (let streams = (if dqStreams (dReq w) = 0 then cfgStreams env else dqStreams (dReq w)) in
         if streams = 1
         then fail (status_error InvalidArgument ''A minimum of 2 streams are required for streaming. Specify 0 to disable streaming.'') w
         else adapted nxt [if streams > 1 then eStreamer env streams else DumpFilesystem env] (opts\<lparr>oStorage := st\<rparr>) w))"

definition pluginDumpHandler :: "dump_env \<Rightarrow> dump_handler" where
  "pluginDumpHandler env opts w =
     (let t = dqType (dReq w) in
      (if t = ''process'' then criu_Dump env
       else snd (IfAvailable ''Dump handler'' (\<lambda>_ h _. (Returned None, h)) [t] (eHandlers env) (criu_Dump env))) opts w)"

definition dump_middleware :: "dump_env \<Rightarrow> (dump_handler \<Rightarrow> dump_handler) list" where
  "dump_middleware env = [FillMissingDumpDefaults env, ValidateDumpRequest, pluginDumpStorage env, pluginDumpMiddleware env,
     FillProcessStateForDump env, DetectIOUringForDump, AddExternalFilesForDump, AddExternalMountsForDump,
     DetectNetworkOptionsForDump env, gpu_Dump env, SaveProcessStateForDump env, CheckOptsForDump env]"

definition no_opts :: "dump_env \<Rightarrow> bool \<Rightarrow> dump_opts" where
  "no_opts env serverless = \<lparr>oStorage = local_storage (eFiles env), oDumpFs = None, oCallback = False, oCriu = False, oServerless = serverless\<rparr>"

definition new_resp :: dump_resp where
  "new_resp = \<lparr>drState = None, drPaths = [], drMessages = []\<rparr>"

definition run_dump :: "dump_handler \<Rightarrow> dump_opts \<Rightarrow> dump_world \<Rightarrow> ((goerr + dump_resp) \<times> dump_world) option" where
  "run_dump h opts w =
     (case h opts (w\<lparr>dResp := new_resp\<rparr>) of
        None \<Rightarrow> None
      | Some ((_, Some e), w') \<Rightarrow> Some (Inl e, w')
      | Some ((_, None), w') \<Rightarrow>
        (let w'' = upd_resp (\<lambda>r. r\<lparr>drMessages := drMessages r @ map (\<lambda>p. ''Dumped to '' @ p) (drPaths r)\<rparr>) w'
         in Some (Inr (dResp w''), w'')))"

definition Server_Dump :: "dump_env \<Rightarrow> dump_world \<Rightarrow> ((goerr + dump_resp) \<times> dump_world) option" where
  "Server_Dump env w =
     (let dump = adapted (pluginDumpHandler env) (dump_middleware env);
          managed = (if req_jid (dqDetails (dReq w)) \<noteq> [] then adapted dump [ManageDump env] else dump)
      in run_dump (adapted managed [New_for_dump env]) (no_opts env False) w)"

definition Cedana_Dump :: "dump_env \<Rightarrow> dump_world \<Rightarrow> ((goerr + dump_resp) \<times> dump_world) option" where
  "Cedana_Dump env w =
     run_dump (adapted (adapted (pluginDumpHandler env) (dump_middleware env)) [New_for_dump env]) (no_opts env True) w"

end
