(* ===== verification/Criu_Contract.thy ===== *)
theory Criu_Contract
  imports Gpu_Callback
begin

text \<open>
  What a request may rely on when it hands its callbacks to CRIU. A contract of hooks is a preorder on their state; if every callback keeps it, so
  does the driver, whatever CRIU sends. A successful operation has run the hooks of every notification CRIU sent before its last response, and none of them failed.
\<close>

section \<open>Hooks that keep a contract\<close>

locale hook_contract =
  fixes R :: "'s \<Rightarrow> 's \<Rightarrow> bool"
  assumes R_refl: "R s s" and R_trans: "R s t \<Longrightarrow> R t u \<Longrightarrow> R s u"
begin

definition keeps :: "('o, 's) notify \<Rightarrow> bool" where
  "keeps n \<longleftrightarrow> (\<forall>a s. R s (snd (Initialize n a s))) \<and> (\<forall>p s. R s (snd (InitializeDump n p s))) \<and> (\<forall>p s. R s (snd (InitializeRestore n p s)))
     \<and> (\<forall>p e s. R s (snd (FinalizeDump n p e s))) \<and> (\<forall>p e s. R s (snd (FinalizeRestore n p e s))) \<and> (\<forall>p s. R s (snd (PreDump n p s)))
     \<and> (\<forall>p s. R s (snd (PostDump n p s))) \<and> (\<forall>p s. R s (snd (PreRestore n p s))) \<and> (\<forall>a s. R s (snd (PostRestore n a s)))
     \<and> (\<forall>s. R s (snd (NetworkLock n s))) \<and> (\<forall>s. R s (snd (NetworkUnlock n s))) \<and> (\<forall>a s. R s (snd (SetupNamespaces n a s)))
     \<and> (\<forall>s. R s (snd (PostSetupNamespaces n s))) \<and> (\<forall>a s. R s (snd (SkipNamespaces n a s))) \<and> (\<forall>s. R s (snd (PreResume n s)))
     \<and> (\<forall>s. R s (snd (PostResume n s))) \<and> (\<forall>a s. R s (snd (OrphanPtsMaster n a s))) \<and> (\<forall>s. R s (snd (QueryExtFiles n s)))"

lemma keeps_hook: "(\<forall>g. f = Some g \<longrightarrow> (\<forall>s. R s (snd (g s)))) \<Longrightarrow> R s (snd (call_hook msg f s))"
  by (cases f) (auto simp: R_refl)

text \<open>A callback keeps the contract if each of its functions does.\<close>

lemma keeps_callback:
  assumes "\<And>f a s. InitializeFunc c = Some f \<Longrightarrow> R s (snd (f a s))" "\<And>f a s. InitializeDumpFunc c = Some f \<Longrightarrow> R s (snd (f a s))"
    "\<And>f a s. InitializeRestoreFunc c = Some f \<Longrightarrow> R s (snd (f a s))" "\<And>f a e s. FinalizeDumpFunc c = Some f \<Longrightarrow> R s (snd (f a e s))"
    "\<And>f a e s. FinalizeRestoreFunc c = Some f \<Longrightarrow> R s (snd (f a e s))" "\<And>f a s. PreDumpFunc c = Some f \<Longrightarrow> R s (snd (f a s))"
    "\<And>f a s. PostDumpFunc c = Some f \<Longrightarrow> R s (snd (f a s))" "\<And>f a s. PreRestoreFunc c = Some f \<Longrightarrow> R s (snd (f a s))"
    "\<And>f a s. PostRestoreFunc c = Some f \<Longrightarrow> R s (snd (f a s))" "\<And>f s. NetworkLockFunc c = Some f \<Longrightarrow> R s (snd (f s))"
    "\<And>f s. NetworkUnlockFunc c = Some f \<Longrightarrow> R s (snd (f s))" "\<And>f a s. SetupNamespacesFunc c = Some f \<Longrightarrow> R s (snd (f a s))"
    "\<And>f s. PostSetupNamespacesFunc c = Some f \<Longrightarrow> R s (snd (f s))" "\<And>f a s. SkipNamespacesFunc c = Some f \<Longrightarrow> R s (snd (f a s))"
    "\<And>f s. PreResumeFunc c = Some f \<Longrightarrow> R s (snd (f s))" "\<And>f s. PostResumeFunc c = Some f \<Longrightarrow> R s (snd (f s))"
    "\<And>f a s. OrphanPtsMasterFunc c = Some f \<Longrightarrow> R s (snd (f a s))" "\<And>f s. QueryExtFilesFunc c = Some f \<Longrightarrow> R s (snd (f s))"
  shows "keeps (notify_of_callback c)"
proof -
  have "R s (snd (cb_QueryExtFiles c s))" for s
    using assms(18) R_refl by (auto simp: cb_QueryExtFiles_def split: option.splits prod.splits) (metis snd_conv)+
  then show ?thesis
    using assms(1-17) by (auto simp: keeps_def notify_of_callback_def cedana_simps intro!: keeps_hook)
qed

lemma keeps_first_error: "(\<And>x s. x \<in> set xs \<Longrightarrow> R s (snd (f x s))) \<Longrightarrow> R s (snd (first_error f xs s))"
proof (induction xs arbitrary: s)
  case (Cons x xs)
  have x: "R s (snd (f x s))" and xs: "R t (snd (first_error f xs t))" for t using Cons by auto
  show ?case using x xs R_trans by (auto split: prod.splits option.splits)
qed (simp add: R_refl)

lemma keeps_query_files: "(\<And>c s. c \<in> set cs \<Longrightarrow> R s (snd (QueryExtFiles c s))) \<Longrightarrow> R s (snd (query_files cs ex s))"
proof (induction cs arbitrary: ex s)
  case (Cons c cs)
  have c: "R s (snd (QueryExtFiles c s))" and cs: "R t (snd (query_files cs ex' t))" for t ex' using Cons by auto
  show ?case using c cs R_trans by (auto split: prod.splits option.splits)
qed (simp add: R_refl)

lemma keeps_multi:
  assumes "\<And>c. c \<in> set (callbacks m) \<Longrightarrow> keeps c"
  shows "keeps (notify_of_multi m)"
proof -
  have e: "(\<And>c. keeps c \<Longrightarrow> R t (snd (f c t))) \<Longrightarrow> c \<in> set (rev (callbacks m)) \<Longrightarrow> R t (snd (f c t))" for f c t
    using assms by simp
  have q: "R s (snd (query_files (rev (callbacks m)) [] s))" for s
    by (rule keeps_query_files, rule e) (simp_all add: keeps_def)
  have h: "(\<And>c t. keeps c \<Longrightarrow> R t (snd (f c t))) \<Longrightarrow> R s (snd (first_error f (rev (callbacks m)) s))" for f s
    by (rule keeps_first_error) (use assms in auto)
  show ?thesis
    unfolding keeps_def
    by (simp only: notify_of_multi_def notify.simps multi_defs multi_QueryExtFiles_def q simp_thms)
      (intro conjI allI h; simp add: keeps_def)
qed

lemma keeps_dispatch:
  assumes "keeps n"
  shows "R s (snd (dispatch n opts x resp s))"
proof -
  note k = assms [unfolded keeps_def]
  have q: "R s (snd (case QueryExtFiles n s of ((_, Some e), s') \<Rightarrow> (Continue (Some e) None, s')
      | ((external, None), s') \<Rightarrow> (Continue None (Some (reply_opts external)), s')))"
    using k by (cases "QueryExtFiles n s") (auto split: option.splits, (metis snd_conv)+)
  have p: "R s (snd (case xScm x of Inl e \<Rightarrow> (ReturnErr e, s) | Inr [] \<Rightarrow> (ReturnErr (Panic ''index out of range''), s)
      | Inr (Inl e # _) \<Rightarrow> (ReturnErr e, s) | Inr (Inr [] # _) \<Rightarrow> (ReturnErr (Panic ''index out of range''), s)
      | Inr (Inr (fd # _) # _) \<Rightarrow> (case OrphanPtsMaster n fd s of (Some (Panic p), s') \<Rightarrow> (ReturnErr (Panic p), s') | (_, s') \<Rightarrow> (Continue None None, s'))))"
  proof -
    have "R s (snd (case OrphanPtsMaster n fd s of (Some (Panic p), s') \<Rightarrow> (ReturnErr (Panic p), s') | (_, s') \<Rightarrow> (Continue None None, s')))" for fd
      using k by (cases "OrphanPtsMaster n fd s") (auto split: option.split goerr.split, (metis snd_conv)+)
    then show ?thesis using R_refl by (auto split: sum.split list.split)
  qed
  show ?thesis unfolding dispatch_def Let_def using k q p R_refl by (simp add: ack_snd)
qed

lemma keeps_run_deferred: "(\<And>e s. R s (snd (f e s))) \<Longrightarrow> R s (host (snd r)) \<Longrightarrow> R s (host (snd (run_deferred f r)))"
  using R_trans by (auto simp: run_deferred_def split: prod.splits) (metis snd_conv)

lemma keeps_body: "keeps n \<Longrightarrow> R (host c) (host (snd (swrk_body env t opts (Some n) req xs c)))"
proof -
  assume k: "keeps n"
  obtain e1 s1 where i: "Initialize n (startPid env) (host c) = (e1, s1)" by fastforce
  obtain e2 s2 where d: "InitializeDump n opts s1 = (e2, s2)" by fastforce
  obtain e3 s3 where r: "InitializeRestore n opts s1 = (e3, s3)" by fastforce
  have 1: "R (host c) s1" "R s1 s2" "R s1 s3" using k i d r unfolding keeps_def by (metis snd_conv)+
  have l: "R s (host (snd (swrk_loop (Some n) opts req xs (c\<lparr>host := s\<rparr>))))" for s
    using swrk_loop_rel [where R = R and n = n and opts = opts and c = "c\<lparr>host := s\<rparr>", OF R_refl R_trans keeps_dispatch [OF k]] by simp
  have fd: "R s (snd (FinalizeDump n opts e s))" "R s (snd (FinalizeRestore n opts e s))" for e s
    using k by (simp_all add: keeps_def)
  have 2: "R (host c) (host (snd (run_deferred (FinalizeDump n opts) (swrk_loop (Some n) opts req xs (c\<lparr>host := s2\<rparr>)))))"
    using R_trans [OF R_trans [OF 1(1) 1(2)] keeps_run_deferred [OF fd(1) l]] .
  have 3: "R (host c) (host (snd (run_deferred (FinalizeRestore n opts) (swrk_loop (Some n) opts req xs (c\<lparr>host := s3\<rparr>)))))"
    using R_trans [OF R_trans [OF 1(1) 1(3)] keeps_run_deferred [OF fd(2) l]] .
  show ?thesis
    using 1 2 3 R_trans [OF 1(1) 1(2)] R_trans [OF 1(1) 1(3)] R_trans [OF 1(1) l]
    by (auto simp: swrk_body_def i d r split: option.splits)
qed

text \<open>A whole operation.\<close>

lemma keeps_doSwrk: "keeps n \<Longrightarrow> R (host c) (host (snd (doSwrkWithResp env t opts (Some n) fs xs c)))"
proof -
  assume k: "keeps n"
  obtain e c1 where p: "Prepare env c = (e, c1)" by fastforce
  have h: "host c1 = host c" using Prepare_host [OF p] .
  have b: "R (host c) (host (snd (Cleanup env (snd (swrk_body env t o2 (Some n) req xs c1)))))" for o2 req
    using keeps_body [OF k, of c1] h by (simp add: Cleanup_host)
  show ?thesis
    using p h R_refl b by (cases e) (auto simp: doSwrkWithResp_def Let_def split: prod.splits option.splits, (metis snd_conv)+)
qed

lemma keeps_Criu: "keeps n \<Longrightarrow> R (host c) (host (snd (Criu_Dump env opts (Some n) xs c)))"
  "keeps n \<Longrightarrow> R (host c) (host (snd (Criu_Restore env opts (Some n) xs c)))"
  by (simp_all add: Criu_snd keeps_doSwrk)

end

section \<open>What a successful operation has run\<close>

text \<open>The notification \<open>script\<close> is among those that CRIU sends before its first other response.\<close>

definition notified :: "string \<Rightarrow> exchange list \<Rightarrow> bool" where
  "notified script xs \<longleftrightarrow> list_ex (\<lambda>x. case xResp x of Inl _ \<Rightarrow> False | Inr r \<Rightarrow> pScript r = script) (takeWhile is_notify xs)"

lemma swrk_loop_establishes:
  assumes est: "\<And>x resp s reply s'. pScript resp = script \<Longrightarrow> dispatch n opts x resp s = (Continue None reply, s') \<Longrightarrow> P s'"
    and pres: "\<And>x resp s reply s'. P s \<Longrightarrow> dispatch n opts x resp s = (Continue None reply, s') \<Longrightarrow> P s'"
    and "fst (swrk_loop (Some n) opts req xs c) = (r, None)" and "notified script xs"
  shows "P (host (snd (swrk_loop (Some n) opts req xs c)))"
  using assms(3,4)
proof (induction xs arbitrary: req c)
  case (Cons x xs)
  obtain resp where x: "xResp x = Inr resp" "pSuccess resp" "pType resp = NOTIFY"
    using Cons.prems(2) by (auto simp: notified_def is_notify_def split: if_splits sum.splits)
  let ?c = "\<lambda>s. c\<lparr>sent := sent c @ [req], openFds := openFds c + received x, host := s\<rparr>"
  obtain reply s where d: "dispatch n opts x resp (host c) = (Continue None reply, s)"
    and l: "swrk_loop (Some n) opts req (x # xs) c = swrk_loop (Some n) opts (ack_req reply) xs (?c s)"
    and r: "fst (swrk_loop (Some n) opts (ack_req reply) xs (?c s)) = (r, None)"
    using Cons.prems(1) x by (auto simp: Let_def split: option.splits prod.splits outcome.splits)
  show ?case
  proof (cases "pScript resp = script")
    case True
    then have h: "P (host (?c s))" using est [OF _ d] by simp
    have p: "\<And>x resp s reply s'. x \<in> set xs \<Longrightarrow> P s \<Longrightarrow> dispatch n opts x resp s = (Continue None reply, s') \<Longrightarrow> P s'"
      using pres by blast
    show ?thesis unfolding l by (rule swrk_loop_ok_inv [where P = P and r = r, OF p h r])
  next
    case False
    then have "notified script xs" using Cons.prems(2) x(1) by (auto simp: notified_def split: if_splits)
    then show ?thesis unfolding l by (rule Cons.IH [OF r])
  qed
qed (simp add: notified_def)

text \<open>
  A property that the hooks of one notification establish, that no successful hook destroys and that survives the finaliser, holds after a
  successful operation during which CRIU sent that notification.
\<close>

lemma run_deferred_establishes:
  assumes "snd (fst (run_deferred f l)) = None" and "fst l = (fst (fst l), None) \<Longrightarrow> P (host (snd l))" and "\<And>e s. P s \<Longrightarrow> P (snd (f e s))"
  shows "P (host (snd (run_deferred f l)))"
proof -
  obtain r e c where l: "l = ((r, e), c)" by (metis surj_pair)
  have "e = None" using assms(1) l by (auto simp: run_deferred_def split: prod.splits)
  then show ?thesis using assms(2,3) l by (auto simp: run_deferred_def split: prod.splits) (metis snd_conv)
qed

lemma swrk_body_establishes:
  assumes "snd (fst (swrk_body env t opts (Some n) req xs c)) = None" and t: "t = DUMP \<or> t = RESTORE" and no: "notified script xs"
    and est: "\<And>x resp s reply s'. pScript resp = script \<Longrightarrow> dispatch n opts x resp s = (Continue None reply, s') \<Longrightarrow> P s'"
    and pres: "\<And>x resp s reply s'. P s \<Longrightarrow> dispatch n opts x resp s = (Continue None reply, s') \<Longrightarrow> P s'"
    and fin: "\<And>e s. P s \<Longrightarrow> P (snd (FinalizeDump n opts e s)) \<and> P (snd (FinalizeRestore n opts e s))"
  shows "P (host (snd (swrk_body env t opts (Some n) req xs c)))"
proof -
  obtain s2 f where b: "swrk_body env t opts (Some n) req xs c = run_deferred f (swrk_loop (Some n) opts req xs (c\<lparr>host := s2\<rparr>))"
    and f: "f = FinalizeDump n opts \<or> f = FinalizeRestore n opts"
    using assms(1) t by (auto simp: swrk_body_def split: prod.splits option.splits if_splits)
  let ?l = "swrk_loop (Some n) opts req xs (c\<lparr>host := s2\<rparr>)"
  have "P (host (snd ?l))" if "fst ?l = (fst (fst ?l), None)" by (rule swrk_loop_establishes [where P = P, OF est pres that no])
  moreover have "P (snd (f e s))" if "P s" for e s using fin that f by auto
  ultimately show ?thesis unfolding b using assms(1) b run_deferred_establishes [where P = P] by metis
qed

lemma doSwrk_establishes:
  assumes "snd (fst (doSwrkWithResp env t (Some p) (Some n) None xs c)) = None" and "t = DUMP \<or> t = RESTORE" and "notified script xs"
    and est: "\<And>x resp s reply s'. pScript resp = script \<Longrightarrow> dispatch n (set_opts env True p) x resp s = (Continue None reply, s') \<Longrightarrow> P s'"
    and pres: "\<And>x resp s reply s'. P s \<Longrightarrow> dispatch n (set_opts env True p) x resp s = (Continue None reply, s') \<Longrightarrow> P s'"
    and fin: "\<And>e s. P s \<Longrightarrow> P (snd (FinalizeDump n (set_opts env True p) e s)) \<and> P (snd (FinalizeRestore n (set_opts env True p) e s))"
  shows "P (host (snd (doSwrkWithResp env t (Some p) (Some n) None xs c)))"
proof -
  let ?o = "set_opts env True p"
  obtain c1 where prep: "Prepare env c = (None, c1)"
    using assms(1) by (auto simp: doSwrkWithResp_def Let_def split: prod.splits option.splits)
  then have "snd (fst (swrk_body env t ?o (Some n) (first_req t ?o) xs c1)) = None"
    using assms(1) by (auto simp: doSwrkWithResp_def first_req_def Let_def split: prod.splits)
  then have "P (host (snd (swrk_body env t ?o (Some n) (first_req t ?o) xs c1)))"
    by (rule swrk_body_establishes [where P = P and script = script, OF _ assms(2,3) est pres fin])
  then show ?thesis using doSwrk_host [OF prep] by metis
qed

lemma Criu_ok:
  "Criu_Dump env opts nfy xs c = ((r, None), c') \<Longrightarrow> snd (fst (doSwrkWithResp env DUMP opts nfy None xs c)) = None"
  "Criu_Restore env opts nfy xs c = ((r, None), c') \<Longrightarrow> snd (fst (doSwrkWithResp env RESTORE opts nfy None xs c)) = None"
  by (auto simp: Criu_Dump_def Criu_Restore_def doSwrk_def split: prod.splits option.splits if_splits)

section \<open>Many callbacks\<close>

lemma first_error_None:
  "first_error f xs s = (None, s') \<Longrightarrow> x \<in> set xs \<Longrightarrow> \<exists>t t'. f x t = (None, t')"
  by (induction xs arbitrary: s) (auto split: prod.splits option.splits)

lemma first_error_establishes:
  assumes "first_error f xs s = (None, s')" and "x \<in> set xs" and "\<And>t t'. f x t = (None, t') \<Longrightarrow> P t'"
    and "\<And>y t t'. y \<in> set xs \<Longrightarrow> P t \<Longrightarrow> f y t = (None, t') \<Longrightarrow> P t'"
  shows "P s'"
  using assms
proof (induction xs arbitrary: s)
  case (Cons y ys)
  obtain t where t: "f y s = (None, t)" "first_error f ys t = (None, s')"
    using Cons.prems(1) by (auto split: prod.splits option.splits)
  have keep: "first_error f zs u = (None, v) \<Longrightarrow> set zs \<subseteq> set (y # ys) \<Longrightarrow> P u \<Longrightarrow> P v" for zs u v
    using Cons.prems(4) by (induction zs arbitrary: u) (auto split: prod.splits option.splits)
  show ?case
  proof (cases "y = x")
    case True
    then show ?thesis using keep [OF t(2)] Cons.prems(3) t(1) by auto
  next
    case False
    then have "x \<in> set ys" using Cons.prems(2) by simp
    then show ?thesis by (rule Cons.IH [OF t(2)]) (use Cons.prems(3,4) in \<open>auto, meson\<close>)
  qed
qed simp

end
