(* ===== verification/Dump_Props.thy ===== *)
theory Dump_Props
  imports Dump_Adapters Criu_Contract
begin

text \<open>
  What the dump pipeline guarantees. The adapters behind the dump directory keep one contract, stated as a locale; it is interpreted on the relation that
  says what they leave alone. From it follow the theorems about whole requests.
\<close>

section \<open>The options\<close>

definition criu_of :: "dump_world \<Rightarrow> criu_opts" where
  "criu_of w = (case dqCriu (dReq w) of None \<Rightarrow> empty_opts | Some p \<Rightarrow> p)"

lemma criu_of_simps [simp]:
  "criu_of (upd_criu f w) = f (criu_of w)" "criu_of (upd_resp g w) = criu_of w"
  "criu_of (w\<lparr>dCallbacks := a\<rparr>) = criu_of w" "criu_of (w\<lparr>dGpu := b\<rparr>) = criu_of w" "criu_of (w\<lparr>dSaved := c\<rparr>) = criu_of w"
  "criu_of (w\<lparr>dImages := d\<rparr>) = criu_of w" "criu_of (w\<lparr>dJobs := m\<rparr>) = criu_of w" "criu_of (w\<lparr>dResp := r\<rparr>) = criu_of w"
  by (simp_all add: criu_of_def upd_criu_def upd_req_def upd_resp_def)

lemma upd_criu_fields [simp]:
  "dResp (upd_criu f w) = dResp w" "dCallbacks (upd_criu f w) = dCallbacks w" "dGpu (upd_criu f w) = dGpu w" "dJobs (upd_criu f w) = dJobs w"
  "dImages (upd_criu f w) = dImages w" "dStored (upd_criu f w) = dStored w" "dAsync (upd_criu f w) = dAsync w"
  "dCriuRuns (upd_criu f w) = dCriuRuns w" "dStuck (upd_criu f w) = dStuck w" "dSaved (upd_criu f w) = dSaved w"
  "dqDir (dReq (upd_criu f w)) = dqDir (dReq w)" "dqName (dReq (upd_criu f w)) = dqName (dReq w)" "dqType (dReq (upd_criu f w)) = dqType (dReq w)"
  "dqDetails (dReq (upd_criu f w)) = dqDetails (dReq w)" "dqCompression (dReq (upd_criu f w)) = dqCompression (dReq w)"
  "dqAsync (dReq (upd_criu f w)) = dqAsync (dReq w)" "dqStreams (dReq (upd_criu f w)) = dqStreams (dReq w)"
  "dqCriu (dReq (upd_criu f w)) \<noteq> None"
  by (simp_all add: upd_criu_def upd_req_def)

lemma upd_resp_fields [simp]:
  "dReq (upd_resp f w) = dReq w" "dResp (upd_resp f w) = f (dResp w)" "dCallbacks (upd_resp f w) = dCallbacks w" "dGpu (upd_resp f w) = dGpu w"
  "dJobs (upd_resp f w) = dJobs w" "dImages (upd_resp f w) = dImages w" "dStored (upd_resp f w) = dStored w" "dAsync (upd_resp f w) = dAsync w"
  "dCriuRuns (upd_resp f w) = dCriuRuns w" "dStuck (upd_resp f w) = dStuck w" "dSaved (upd_resp f w) = dSaved w"
  by (simp_all add: upd_resp_def)

section \<open>The contract of the adapters behind the dump directory\<close>

locale dump_contract = pipeline evolves for evolves :: "dump_opts \<Rightarrow> dump_world \<Rightarrow> dump_opts \<Rightarrow> dump_world \<Rightarrow> bool" +
  assumes ext: "evolves oo w oo (upd_criu (\<lambda>p. p\<lparr>External := External p @ ks\<rparr>) w)"
    and mnt: "evolves oo w oo (upd_criu (\<lambda>p. p\<lparr>External := External p @ ks, AutoExtMnt := a, ExtMasters := b\<rparr>) w)"
    and net: "evolves oo w oo (upd_criu (\<lambda>p. p\<lparr>TcpEstablished := Some (t \<or> get_bool (TcpEstablished p)), ExtUnixSk := Some (u \<or> get_bool (ExtUnixSk p))\<rparr>) w)"
    and state: "drState (dResp w) = Some st \<Longrightarrow> PID (info st') = PID (info st) \<Longrightarrow>
      evolves oo w oo (upd_resp (\<lambda>r. r\<lparr>drState := Some st'\<rparr>) w)"
    and cbs: "(\<forall>j. CbCompress j \<notin> set cs) \<Longrightarrow> evolves oo w oo (w\<lparr>dCallbacks := dCallbacks w @ cs\<rparr>)"
    and gpu: "evolves oo w oo (w\<lparr>dGpu := g\<rparr>)"
    and saved: "evolves oo w oo (w\<lparr>dSaved := s\<rparr>)"
begin

lemma Fill_passes: "passes (FillProcessStateForDump env)"
proof (rule passesI)
  fix nxt oo w c w'
  assume "FillProcessStateForDump env nxt oo w = Some ((c, None), w')"
  then obtain st st' where "drState (dResp w) = Some st" "FillProcessState (eProcs env) (PID (info st)) st True = Some (None, st')"
    "nxt oo (upd_resp (\<lambda>r. r\<lparr>drState := Some st'\<rparr>) w) = Some ((c, None), w')"
    by (auto simp: FillProcessStateForDump_def Let_def split: option.splits if_splits prod.splits goerr.splits)
  then show "\<exists>o2 w2. evolves oo w o2 w2 \<and> nxt o2 w2 = Some ((c, None), w')" using state FillProcessState_PID [OF _ disjI1 [OF refl]] by metis
qed

lemma IOUring_passes: "passes DetectIOUringForDump"
  by (rule passesI) (auto simp: DetectIOUringForDump_def intro: evolves_refl split: option.splits if_splits)

lemma Files_passes: "passes AddExternalFilesForDump"
proof (rule passesI)
  fix nxt oo w c w'
  assume a: "AddExternalFilesForDump nxt oo w = Some ((c, None), w')"
  show "\<exists>o2 w2. evolves oo w o2 w2 \<and> nxt o2 w2 = Some ((c, None), w')"
  proof (cases "drState (dResp w)")
    case None
    then show ?thesis using a evolves_refl by (auto simp: AddExternalFilesForDump_def)
  next
    case (Some st)
    let ?w = "upd_criu (\<lambda>p. p\<lparr>External := External p @ externalFileKeys st\<rparr>) w"
    have "nxt oo (if oCallback oo then ?w\<lparr>dCallbacks := dCallbacks ?w @ [CbExternalFiles (PID (info st))]\<rparr> else ?w) = Some ((c, None), w')"
      using a Some by (simp add: AddExternalFilesForDump_def Let_def)
    moreover have "evolves oo w oo (if oCallback oo then ?w\<lparr>dCallbacks := dCallbacks ?w @ [CbExternalFiles (PID (info st))]\<rparr> else ?w)"
      using ext [of oo w] evolves_trans [OF ext cbs, of "[CbExternalFiles (PID (info st))]"] by simp
    ultimately show ?thesis by blast
  qed
qed

lemma Mounts_passes: "passes AddExternalMountsForDump"
  by (rule passesI) (auto simp: AddExternalMountsForDump_def intro: mnt split: if_splits)

lemma Network_passes: "passes (DetectNetworkOptionsForDump env)"
  by (rule passesI) (auto simp: DetectNetworkOptionsForDump_def Let_def intro: net split: prod.splits)

lemma gpu_mounts_passes: "passes gpu_AddExternalMountsForDump"
proof (rule passesI)
  fix nxt oo w c w'
  assume "gpu_AddExternalMountsForDump nxt oo w = Some ((c, None), w')"
  then obtain st where "nxt oo ((upd_criu (\<lambda>p. p\<lparr>External := External p @ gpuExternalMountKeys st\<rparr>) w)
      \<lparr>dCallbacks := dCallbacks (upd_criu (\<lambda>p. p\<lparr>External := External p @ gpuExternalMountKeys st\<rparr>) w) @ [CbGpuMounts (PID (info st))]\<rparr>) = Some ((c, None), w')"
    by (auto simp: gpu_AddExternalMountsForDump_def split: option.splits if_splits)
  then show "\<exists>o2 w2. evolves oo w o2 w2 \<and> nxt o2 w2 = Some ((c, None), w')" 
    using evolves_trans [OF ext cbs, of "[CbGpuMounts (PID (info st))]"] by fastforce
qed

lemma gpu_Dump_passes: "passes (gpu_Dump env)"
proof (rule passesI)
  fix nxt oo w c w'
  assume a: "gpu_Dump env nxt oo w = Some ((c, None), w')"
  obtain st p where st: "drState (dResp w) = Some st" and p: "eGpuSync env (gPool (dGpu w)) = Some (None, p)"
    using a by (auto simp: gpu_Dump_def split: option.splits prod.splits)
  let ?w1 = "set_pool p w"
  have e1: "evolves oo w oo ?w1" unfolding set_pool_def by (rule gpu)
  show "\<exists>o2 w2. evolves oo w o2 w2 \<and> nxt o2 w2 = Some ((c, None), w')"
  proof (cases "simple_IsAttached (PID (info st)) p")
    case False
    then show ?thesis using a st p e1 by (auto simp: gpu_Dump_def)
  next
    case True
    let ?st = "ProcessState ((info st)\<lparr>GPUID := simple_GetID (PID (info st)) p, GPUEnabled := True\<rparr>) (Children st)"
    let ?w2 = "upd_resp (\<lambda>r. r\<lparr>drState := Some ?st\<rparr>) ?w1"
    let ?w3 = "(?w2\<lparr>dCallbacks := dCallbacks ?w2 @ [CbGpu (simple_GetID (PID (info st)) p)]\<rparr>)\<lparr>dGpu := new_cb p (frozen (dGpu ?w2))\<rparr>"
    have e2: "evolves oo ?w1 oo ?w2" by (rule state [where st = st]) (simp_all add: st set_pool_def)
    have e3: "evolves oo w oo ?w3" by (rule evolves_trans [OF e1 evolves_trans [OF e2 evolves_trans [OF cbs gpu]]]) simp
    have "gpu_AddExternalMountsForDump nxt oo ?w3 = Some ((c, None), w')"
      using a st p True by (auto simp: gpu_Dump_def Let_def split: if_splits)
    then obtain o2 w2 where "evolves oo ?w3 o2 w2" "nxt o2 w2 = Some ((c, None), w')" by (rule passesE [OF gpu_mounts_passes])
    then show ?thesis using evolves_trans [OF e3] by blast
  qed
qed

lemma Save_passes: "passes (SaveProcessStateForDump env)"
  by (rule passesI) (auto simp: SaveProcessStateForDump_def intro: saved evolves_refl split: option.splits if_splits)

lemma CheckOpts_passes: "passes (CheckOptsForDump env)"
  by (rule passesI) (auto simp: CheckOptsForDump_def intro: evolves_refl split: option.splits goerr.splits)

text \<open>The adapters from the detection of external files on.\<close>

lemma late_passes:
  "passes (\<lambda>h. adapted h [AddExternalFilesForDump, AddExternalMountsForDump, DetectNetworkOptionsForDump env, gpu_Dump env,
     SaveProcessStateForDump env, CheckOptsForDump env])"
  by (rule passes_adapted) (simp add: Files_passes Mounts_passes Network_passes gpu_Dump_passes Save_passes CheckOpts_passes)

end

section \<open>What they leave alone\<close>

definition dump_frame :: "dump_opts \<Rightarrow> dump_world \<Rightarrow> dump_opts \<Rightarrow> dump_world \<Rightarrow> bool" where
  "dump_frame o1 w o2 w' \<longleftrightarrow> o2 = o1 \<and> dJobs w' = dJobs w \<and> dImages w' = dImages w \<and> dStored w' = dStored w \<and> dAsync w' = dAsync w
     \<and> dCriuRuns w' = dCriuRuns w \<and> dStuck w' = dStuck w \<and> drPaths (dResp w') = drPaths (dResp w) \<and> drMessages (dResp w') = drMessages (dResp w)
     \<and> dqDir (dReq w') = dqDir (dReq w) \<and> dqName (dReq w') = dqName (dReq w) \<and> dqType (dReq w') = dqType (dReq w) \<and> dqDetails (dReq w') = dqDetails (dReq w)
     \<and> dqCompression (dReq w') = dqCompression (dReq w) \<and> dqAsync (dReq w') = dqAsync (dReq w) \<and> LeaveRunning (criu_of w') = LeaveRunning (criu_of w) \<and> ImagesDir (criu_of w') = ImagesDir (criu_of w) \<and> ShellJob (criu_of w') = ShellJob (criu_of w)
     \<and> (\<exists>ks. External (criu_of w') = External (criu_of w) @ ks) \<and> (\<exists>cs. dCallbacks w' = dCallbacks w @ cs \<and> (\<forall>j. CbCompress j \<notin> set cs))
     \<and> (\<forall>st. drState (dResp w) = Some st \<longrightarrow> (\<exists>st'. drState (dResp w') = Some st' \<and> PID (info st') = PID (info st)))"

lemma dump_frame_trans:
  assumes "dump_frame o1 w1 o2 w2" "dump_frame o2 w2 o3 w3"
  shows "dump_frame o1 w1 o3 w3"
proof -
  obtain k1 k2 where k: "External (criu_of w2) = External (criu_of w1) @ k1" "External (criu_of w3) = External (criu_of w2) @ k2"
    using assms unfolding dump_frame_def by blast
  obtain c1 c2 where c: "dCallbacks w2 = dCallbacks w1 @ c1" "\<forall>j. CbCompress j \<notin> set c1" "dCallbacks w3 = dCallbacks w2 @ c2" "\<forall>j. CbCompress j \<notin> set c2"
    using assms unfolding dump_frame_def by blast
  have "\<exists>ks. External (criu_of w3) = External (criu_of w1) @ ks" using k by simp
  moreover have "\<exists>cs. dCallbacks w3 = dCallbacks w1 @ cs \<and> (\<forall>j. CbCompress j \<notin> set cs)" using c by (intro exI [of _ "c1 @ c2"]) simp
  moreover have "\<forall>st. drState (dResp w1) = Some st \<longrightarrow> (\<exists>st'. drState (dResp w3) = Some st' \<and> PID (info st') = PID (info st))"
    using assms unfolding dump_frame_def by metis
  ultimately show ?thesis using assms unfolding dump_frame_def by simp
qed

interpretation df: dump_contract dump_frame
proof unfold_locales
  show "dump_frame o1 w o1 w" for o1 w by (simp add: dump_frame_def)
  show "dump_frame o1 w1 o2 w2 \<Longrightarrow> dump_frame o2 w2 o3 w3 \<Longrightarrow> dump_frame o1 w1 o3 w3" for o1 w1 o2 w2 o3 w3
    by (rule dump_frame_trans)
qed (simp_all add: dump_frame_def)

text \<open>What no callback changes.\<close>

definition dump_hooks :: "dump_world \<Rightarrow> dump_world \<Rightarrow> bool" where
  "dump_hooks s t \<longleftrightarrow> dReq t = dReq s \<and> dResp t = dResp s \<and> dCallbacks t = dCallbacks s \<and> dJobs t = dJobs s \<and> dAsync t = dAsync s
     \<and> dCriuRuns t = dCriuRuns s \<and> dSaved t = dSaved s"

interpretation dh: hook_contract dump_hooks
  by unfold_locales (auto simp: dump_hooks_def)

lemma compress_keeps: "dump_hooks w (snd (compress env j w))"
  by (auto simp: compress_def dump_hooks_def remove_images_def put_object_def Let_def split: sum.splits option.splits prod.splits)

lemma lift_hook_keeps: "dump_hooks w (snd (lift_hook h w))"
  by (simp add: lift_hook_def dump_hooks_def split: prod.splits)

lemma query_frozen_keeps: "dump_hooks w (snd (query_frozen env pid keys w))"
  by (simp add: query_frozen_def dump_hooks_def split: option.splits prod.splits)

lemma cb_of_keeps: "dh.keeps (notify_of_callback (cb_of env c))"
proof (cases c)
  case (CbGpu ident)
  then show ?thesis by simp (rule dh.keeps_callback; auto simp: lift_callback_def lift_hook_keeps)
qed (simp_all, (rule dh.keeps_callback; auto simp: no_callback_def query_frozen_keeps compress_keeps)+)

lemma callbacks_of_keeps: "dh.keeps (notify_of_multi (callbacks_of env cbs))"
  by (rule dh.keeps_multi) (auto simp: callbacks_of_def cb_of_keeps)

section \<open>The handler\<close>

lemma criu_Dump_ok:
  assumes "criu_Dump env opts w = Some ((code, None), w')"
  obtains st r c where "dqCriu (dReq w) \<noteq> None" and "drState (dResp w) = Some st"
    and "Criu_Dump (cSwrk (eCriu env)) (Some (dump_opts_of env (PID (info st)) (criu_of w)))
       (Some (notify_of_multi (callbacks_of env (dCallbacks w)))) (eExchanges env)
       (idle_swrk ((upd_criu (dump_opts_of env (PID (info st))) w)\<lparr>dCriuRuns := dCriuRuns w @ [dump_opts_of env (PID (info st)) (criu_of w)]\<rparr>)) = ((r, None), c)"
    and "host c = w'" and "dCriuRuns w' = dCriuRuns w @ [dump_opts_of env (PID (info st)) (criu_of w)]" and "dResp w' = dResp w"
    and "dJobs w' = dJobs w" and "dAsync w' = dAsync w" and "criu_of w' = dump_opts_of env (PID (info st)) (criu_of w)"
proof -
  obtain p where p: "dqCriu (dReq w) = Some p" using assms by (auto simp: criu_Dump_def split: option.splits)
  then have cw: "criu_of w = p" by (simp add: criu_of_def)
  obtain st where st: "drState (dResp w) = Some st" using assms p by (auto simp: criu_Dump_def split: option.splits prod.splits)
  let ?p = "dump_opts_of env (PID (info st)) (criu_of w)"
  have u: "upd_criu (\<lambda>_. ?p) w = upd_criu (dump_opts_of env (PID (info st))) w" using p cw by (simp add: upd_criu_def upd_req_def)
  let ?w = "(upd_criu (dump_opts_of env (PID (info st))) w)\<lparr>dCriuRuns := dCriuRuns w @ [?p]\<rparr>"
  let ?n = "notify_of_multi (callbacks_of env (dCallbacks w))"
  obtain r c where c: "Criu_Dump (cSwrk (eCriu env)) (Some ?p) (Some ?n) (eExchanges env) (idle_swrk ?w) = ((r, None), c)" and h: "host c = w'"
    using assms p st cw u by (auto simp: criu_Dump_def Let_def split: option.splits prod.splits if_splits goerr.splits)
  have "dump_hooks ?w w'"
    using dh.keeps_Criu(1) [OF callbacks_of_keeps, where c = "idle_swrk ?w" and opts = "Some ?p" and xs = "eExchanges env"] c h
    by (simp add: idle_swrk_def) (metis snd_conv)
  then have k: "dCriuRuns w' = dCriuRuns w @ [?p]" "dResp w' = dResp w" "dJobs w' = dJobs w" "dAsync w' = dAsync w" "dReq w' = dReq ?w"
    by (simp_all add: dump_hooks_def)
  have "criu_of w' = ?p" using k(5) by (simp add: criu_of_def upd_criu_def upd_req_def)
  then show ?thesis using that [OF _ st c h k(1-4)] p by simp
qed

section \<open>The dump directory\<close>

lemma finish_dump_eq: "finish_dump env images d a r =
    (fst r, if named_result (snd (fst r)) \<noteq> None \<or> d then remove_images images (run_after env a (snd r)) else run_after env a (snd r))"
  by (simp add: finish_dump_def Let_def)

text \<open>What a successful \<open>DumpFilesystem\<close> has handed on, and what it does afterwards: \<open>cs\<close> are the callbacks it registers, \<open>a\<close> the deferred call.\<close>

definition dump_compression :: "dump_env \<Rightarrow> dump_world \<Rightarrow> string" where
  "dump_compression env w = (if dqCompression (dReq w) = [] then cfgCompression env else dqCompression (dReq w))"

definition dump_images :: "dump_env \<Rightarrow> storage \<Rightarrow> string \<Rightarrow> string \<Rightarrow> string" where
  "dump_images env st dir name = Join [if sIsRemote st then eTempDir env else dir, name]"

definition dump_job :: "dump_env \<Rightarrow> storage \<Rightarrow> string \<Rightarrow> string \<Rightarrow> string \<Rightarrow> string \<Rightarrow> tar_job" where
  "dump_job env st dir name compression ext =
     \<lparr>tjStorage = st, tjDir = dir, tjPath = tarball_name (dir @ ''/'' @ name) ext, tjImages = dump_images env st dir name, tjCompression = compression\<rparr>"

definition dump_target :: "dump_env \<Rightarrow> dump_opts \<Rightarrow> dump_world \<Rightarrow> string \<Rightarrow> string \<Rightarrow> callback list \<Rightarrow> after_dump \<Rightarrow> bool" where
  "dump_target env opts w images path cs a \<longleftrightarrow>
     cs = [] \<and> a = Nothing \<and> path = images \<and> dump_compression env w \<in> {[], ''none''} \<or>
     (\<exists>j ext. ExtForCompression (dump_compression env w) = Inr ext \<and>
        j = dump_job env (oStorage opts) (dqDir (dReq w)) (dqName (dReq w)) (dump_compression env w) ext \<and> tjPath j = path \<and> tjImages j = images \<and>
        (cs = [] \<and> a = UploadLater j \<and> (dqAsync (dReq w) \<or> cfgAsync env) \<or> cs = [] \<and> a = Upload j \<and> get_bool (LeaveRunning (criu_of w))
         \<or> cs = [CbCompress j] \<and> a = Nothing \<and> \<not> get_bool (LeaveRunning (criu_of w))))"

definition dump_state :: "string \<Rightarrow> int \<Rightarrow> string \<Rightarrow> callback list \<Rightarrow> dump_world \<Rightarrow> dump_world" where
  "dump_state images fd path cs w = (upd_resp (\<lambda>p. p\<lparr>drPaths := drPaths p @ [path]\<rparr>)
     (upd_criu (\<lambda>p. p\<lparr>ImagesDir := Some images, ImagesDirFd := Some fd\<rparr>) (w\<lparr>dImages := dImages w @ [images]\<rparr>)))\<lparr>dCallbacks := dCallbacks w @ cs\<rparr>"

lemma dump_state_fields [simp]:
  "dReq (dump_state images fd path cs w) = dReq (upd_criu (\<lambda>p. p\<lparr>ImagesDir := Some images, ImagesDirFd := Some fd\<rparr>) w)"
  "dResp (dump_state images fd path cs w) = (dResp w)\<lparr>drPaths := drPaths (dResp w) @ [path]\<rparr>"
  "dCallbacks (dump_state images fd path cs w) = dCallbacks w @ cs" "dImages (dump_state images fd path cs w) = dImages w @ [images]"
  "dStored (dump_state images fd path cs w) = dStored w" "dCriuRuns (dump_state images fd path cs w) = dCriuRuns w"
  "dAsync (dump_state images fd path cs w) = dAsync w" "dJobs (dump_state images fd path cs w) = dJobs w"
  "criu_of (dump_state images fd path cs w) = (criu_of w)\<lparr>ImagesDir := Some images, ImagesDirFd := Some fd\<rparr>"
  by (simp_all add: dump_state_def upd_resp_def upd_criu_def upd_req_def criu_of_def)

text \<open>How \<open>DumpFilesystem\<close> can end: it refuses, it gives up after making the directory, or it ends as the rest of the chain does.\<close>

definition dump_ends :: "dump_env \<Rightarrow> dump_handler \<Rightarrow> dump_opts \<Rightarrow> dump_world \<Rightarrow> ((bool \<times> error) \<times> dump_world) option \<Rightarrow> bool" where
  "dump_ends env nxt opts w r \<longleftrightarrow>
     (\<exists>e. r = fail e w)
     \<or> (\<exists>images d e w1. r = Some (finish_dump env images d Nothing ((False, Some e), w1)) \<and> dImages w1 = dImages w @ [images])
     \<or> (\<exists>images fd path cs a d. dump_target env opts w images path cs a \<and>
          r = map_option (finish_dump env images d a) (nxt (opts\<lparr>oDumpFs := Some images\<rparr>) (dump_state images fd path cs w)))"

lemma dump_endsI:
  "dump_ends env nxt opts w (fail e w)"
  "dImages w1 = dImages w @ [images] \<Longrightarrow> dump_ends env nxt opts w (Some (finish_dump env images d Nothing ((False, Some e), w1)))"
  "dump_target env opts w images path cs a \<Longrightarrow>
     dump_ends env nxt opts w (map_option (finish_dump env images d a) (nxt (opts\<lparr>oDumpFs := Some images\<rparr>) (dump_state images fd path cs w)))"
  unfolding dump_ends_def by blast+

lemma dump_targetI:
  "dump_compression env w = [] \<or> dump_compression env w = ''none'' \<Longrightarrow> dump_target env opts w images images [] Nothing"
  "ExtForCompression (dump_compression env w) = Inr ext \<Longrightarrow> j = dump_job env (oStorage opts) (dqDir (dReq w)) (dqName (dReq w)) (dump_compression env w) ext \<Longrightarrow>
     dqAsync (dReq w) \<or> cfgAsync env \<Longrightarrow> dump_target env opts w (tjImages j) (tjPath j) [] (UploadLater j)"
  "ExtForCompression (dump_compression env w) = Inr ext \<Longrightarrow> j = dump_job env (oStorage opts) (dqDir (dReq w)) (dqName (dReq w)) (dump_compression env w) ext \<Longrightarrow>
     get_bool (LeaveRunning (criu_of w)) \<Longrightarrow> dump_target env opts w (tjImages j) (tjPath j) [] (Upload j)"
  "ExtForCompression (dump_compression env w) = Inr ext \<Longrightarrow> j = dump_job env (oStorage opts) (dqDir (dReq w)) (dqName (dReq w)) (dump_compression env w) ext \<Longrightarrow>
     \<not> get_bool (LeaveRunning (criu_of w)) \<Longrightarrow> dump_target env opts w (tjImages j) (tjPath j) [CbCompress j] Nothing"
  by (auto simp: dump_target_def)

lemma DumpFilesystem_ends: "dump_ends env nxt opts w (DumpFilesystem env nxt opts w)"
proof -
  let ?w2 = "\<lambda>images fd. upd_criu (\<lambda>p. p\<lparr>ImagesDir := Some images, ImagesDirFd := Some fd\<rparr>) (w\<lparr>dImages := dImages w @ [images]\<rparr>)"
  let ?w3 = "\<lambda>images fd path. upd_resp (\<lambda>p. p\<lparr>drPaths := drPaths p @ [path]\<rparr>) (?w2 images fd)"
  have s: "?w3 images fd path = dump_state images fd path [] w"
    "(dump_state images fd path [] w)\<lparr>dCallbacks := dCallbacks w @ cs\<rparr> = dump_state images fd path cs w" for images fd path cs
    by (simp_all add: dump_state_def upd_resp_def upd_criu_def upd_req_def)
  have i: "dImages (?w2 images fd) = dImages w @ [images]" for images fd by simp
  have lr: "LeaveRunning (the (dqCriu (dReq (upd_criu (\<lambda>p. p\<lparr>ImagesDir := Some images, ImagesDirFd := Some fd\<rparr>) w)))) = LeaveRunning (criu_of w)" for images fd
    by (simp add: upd_criu_def upd_req_def criu_of_def)
  define compression where "compression = dump_compression env w"
  have T: "ExtForCompression compression = Inr ext \<Longrightarrow> dqAsync (dReq w) \<or> cfgAsync env \<Longrightarrow>
      dump_target env opts w (tjImages (j ext)) (tjPath (j ext)) [] (UploadLater (j ext))"
    "ExtForCompression compression = Inr ext \<Longrightarrow> get_bool (LeaveRunning (criu_of w)) \<Longrightarrow> dump_target env opts w (tjImages (j ext)) (tjPath (j ext)) [] (Upload (j ext))"
    "ExtForCompression compression = Inr ext \<Longrightarrow> \<not> get_bool (LeaveRunning (criu_of w)) \<Longrightarrow> dump_target env opts w (tjImages (j ext)) (tjPath (j ext)) [CbCompress (j ext)] Nothing"
    if "j = dump_job env (oStorage opts) (dqDir (dReq w)) (dqName (dReq w)) compression" for ext j
    using dump_targetI(2-4) that by (simp_all add: compression_def)
  note T = T [OF refl, unfolded dump_job_def dump_images_def, simplified]
  define dir where "dir = (if sIsRemote (oStorage opts) then eTempDir env else dqDir (dReq w))"
  define images where "images = Join [dir, dqName (dReq w)]"
  define async where "async = ((dqAsync (dReq w) \<or> cfgAsync env) \<and> sIsRemote (oStorage opts))"
  show ?thesis
    unfolding DumpFilesystem_def Let_def dump_compression_def [symmetric] compression_def [symmetric] dir_def [symmetric] images_def [symmetric] async_def [symmetric]
    by (cases async; cases "compression \<in> set SUPPORTED_COMPRESSIONS"; cases "eStat env dir = NotExist"; cases "eMkdir env images"; cases "eChmod env images";
        cases "eOpenDir env images"; cases "ExtForCompression compression")
      (simp_all add: s i lr dump_endsI dump_targetI(1) T [folded dir_def, folded images_def] compression_def [symmetric] async_def)
qed

lemma DumpFilesystem_ok:
  assumes "DumpFilesystem env nxt opts w = Some ((code, None), w')"
  obtains images fd path cs a w3 d where
    "nxt (opts\<lparr>oDumpFs := Some images\<rparr>) (dump_state images fd path cs w) = Some ((code, None), w3)"
    and "w' = (if d then remove_images images (run_after env a w3) else run_after env a w3)"
    and "dump_target env opts w images path cs a"
proof -
  have "\<exists>images fd path cs a d. dump_target env opts w images path cs a \<and>
      Some ((code, None), w') = map_option (finish_dump env images d a) (nxt (opts\<lparr>oDumpFs := Some images\<rparr>) (dump_state images fd path cs w))"
    using DumpFilesystem_ends [of env nxt opts w] unfolding assms dump_ends_def by (auto simp: finish_dump_eq fail_def)
  then obtain images fd path cs a d where t: "dump_target env opts w images path cs a"
    and m: "Some ((code, None), w') = map_option (finish_dump env images d a) (nxt (opts\<lparr>oDumpFs := Some images\<rparr>) (dump_state images fd path cs w))"
    by blast
  obtain r where r: "nxt (opts\<lparr>oDumpFs := Some images\<rparr>) (dump_state images fd path cs w) = Some r" "((code, None), w') = finish_dump env images d a r"
    using m by (cases "nxt (opts\<lparr>oDumpFs := Some images\<rparr>) (dump_state images fd path cs w)") simp_all
  obtain w3 where w3: "r = ((code, None), w3)" using r(2) by (cases r) (simp add: finish_dump_eq)
  then show thesis
    using that [of images fd path cs w3 "named_result None \<noteq> None \<or> d" a] r t by (simp add: finish_dump_eq)
qed

lemma after_fields [simp]:
  "dCriuRuns (remove_images i w) = dCriuRuns w" "dResp (remove_images i w) = dResp w" "dStored (remove_images i w) = dStored w"
  "dCriuRuns (run_after env a w) = dCriuRuns w" "dResp (run_after env a w) = dResp w"
  using compress_keeps [of w env] by (auto simp: remove_images_def run_after_def dump_hooks_def split: after_dump.split)

section \<open>A successful dump of a process\<close>

text \<open>The chain behind the dump directory, for an ordinary process: what is handed to CRIU.\<close>

lemma process_chain_ok:
  assumes r: "adapted (pluginDumpHandler env) (pluginDumpMiddleware env # FillProcessStateForDump env # DetectIOUringForDump # AddExternalFilesForDump # late) opts w
      = Some ((code, None), w')"
    and late: "late = [AddExternalMountsForDump, DetectNetworkOptionsForDump env, gpu_Dump env, SaveProcessStateForDump env, CheckOptsForDump env]"
    and t: "dqType (dReq w) = ''process''" and n: "drState (dResp w) = None"
  obtains d st cs w2 where "dqDetails (dReq w) = Some d" and "dProcessPID d \<noteq> 0"
    and "FillProcessState (eProcs env) (dProcessPID d) (ProcessState (empty_info\<lparr>PID := dProcessPID d\<rparr>) []) True = Some (None, st)"
    and "\<not> uses_io_uring st" and "criu_Dump env opts w2 = Some ((code, None), w')"
    and "dump_frame opts ((upd_resp (\<lambda>r. r\<lparr>drState := Some st\<rparr>)
          (upd_criu (\<lambda>p. p\<lparr>ShellJob := Some True, External := External p @ externalFileKeys st\<rparr>) w))\<lparr>dCallbacks := dCallbacks w @ cs\<rparr>) opts w2"
    and "\<forall>j. CbCompress j \<notin> set cs"
proof -
  let ?pid = "\<lambda>d. ProcessState (empty_info\<lparr>PID := dProcessPID d\<rparr>) []"
  let ?rest = "adapted (pluginDumpHandler env) late"
  obtain d where d: "dqDetails (dReq w) = Some d" "dProcessPID d \<noteq> 0"
    and f: "adapted (pluginDumpHandler env) (DetectShellJobForDump # FillProcessStateForDump env # DetectIOUringForDump # AddExternalFilesForDump # late) opts
       (upd_resp (\<lambda>r. r\<lparr>drState := Some (?pid d)\<rparr>) w) = Some ((code, None), w')"
    using r t n
    by (auto simp: pluginDumpMiddleware_def SetPIDForDump_def empty_info_def Let_def upd_resp_def split: option.splits if_splits)
  let ?w1 = "upd_criu (\<lambda>p. p\<lparr>ShellJob := Some True\<rparr>) (upd_resp (\<lambda>r. r\<lparr>drState := Some (?pid d)\<rparr>) w)"
  obtain st where st: "FillProcessState (eProcs env) (dProcessPID d) (?pid d) True = Some (None, st)" and u: "\<not> uses_io_uring st"
    and g: "AddExternalFilesForDump ?rest opts (upd_resp (\<lambda>r. r\<lparr>drState := Some st\<rparr>) ?w1) = Some ((code, None), w')"
    using f d(2)
    by (auto simp: DetectShellJobForDump_def FillProcessStateForDump_def DetectIOUringForDump_def empty_info_def Let_def split: option.splits if_splits goerr.splits)
  let ?cs = "if oCallback opts then [CbExternalFiles (PID (info st))] else []"
  let ?w2 = "(upd_resp (\<lambda>r. r\<lparr>drState := Some st\<rparr>)
      (upd_criu (\<lambda>p. p\<lparr>ShellJob := Some True, External := External p @ externalFileKeys st\<rparr>) w))\<lparr>dCallbacks := dCallbacks w @ ?cs\<rparr>"
  have "?rest opts ?w2 = Some ((code, None), w')"
  proof -
    let ?w3 = "upd_criu (\<lambda>p. p\<lparr>External := External p @ externalFileKeys st\<rparr>) (upd_resp (\<lambda>r. r\<lparr>drState := Some st\<rparr>) ?w1)"
    have "(if oCallback opts then ?w3\<lparr>dCallbacks := dCallbacks ?w3 @ [CbExternalFiles (PID (info st))]\<rparr> else ?w3) = ?w2"
      by (rule dump_world.equality) (simp_all add: upd_resp_def upd_criu_def upd_req_def)
    then show ?thesis using g by (simp add: AddExternalFilesForDump_def Let_def)
  qed
  moreover have "df.passes (\<lambda>h. adapted h late)"
    unfolding late by (rule df.passes_adapted) (simp add: df.Mounts_passes df.Network_passes df.gpu_Dump_passes df.Save_passes df.CheckOpts_passes)
  ultimately obtain o3 w3 where w3: "dump_frame opts ?w2 o3 w3" and h: "pluginDumpHandler env o3 w3 = Some ((code, None), w')"
    by (elim df.passesE)
  then have "o3 = opts" "dqType (dReq w3) = ''process''" using t by (simp_all add: dump_frame_def)
  then show thesis
    using that [OF d st u _ w3 [unfolded \<open>o3 = opts\<close>]] h by (simp add: pluginDumpHandler_def)
qed

section \<open>The archive\<close>

text \<open>
  The archive of job \<open>j\<close> is in its storage: the entries are those of the walk over the images, and nothing is missing if closing the writers
  has written out the rest.
\<close>

definition archived :: "dump_env \<Rightarrow> tar_job \<Rightarrow> dump_world \<Rightarrow> bool" where
  "archived env j w \<longleftrightarrow> (\<exists>fuse k es. isFuseFS env (tjDir j) (\<not> sIsRemote (tjStorage j)) = Inr fuse \<and>
     sCreate (tjStorage j) (tjPath j) = None \<and> close_tarball env j fuse = None \<and>
     NewOptimizedCompressionWriter (tjCompression j) fuse = Inr k \<and> tar_walk (eItems env (tjImages j)) [] = (None, es) \<and>
     map_of (dStored w) (tjPath j) = Some (if eTarClose env = None then Some (Stream k es) else None))"

lemma close_tarball_None: "close_tarball env j fuse = None \<Longrightarrow> sClose (tjStorage j) (tjPath j) = None"
  by (simp add: close_tarball_def split: if_splits)

lemma Tar_None: "Tar is c fuse ce = (None, s) \<longleftrightarrow> (\<exists>k es. NewOptimizedCompressionWriter c fuse = Inr k \<and> tar_walk is [] = (None, es)
    \<and> s = (if ce = None then Some (Stream k es) else None))"
  by (auto simp: Tar_def split: sum.splits prod.splits)

lemma compress_archives: "compress env j w = (None, w') \<Longrightarrow> archived env j w'"
  by (auto simp: compress_def archived_def Let_def remove_images_def put_object_def update_conv Tar_None close_tarball_None split: sum.splits option.splits prod.splits)

lemma compress_again: "archived env j w \<Longrightarrow> archived env j (snd (compress env j w))"
proof -
  assume "archived env j w"
  then obtain fuse k es where a: "isFuseFS env (tjDir j) (\<not> sIsRemote (tjStorage j)) = Inr fuse" "sCreate (tjStorage j) (tjPath j) = None"
      "close_tarball env j fuse = None" "NewOptimizedCompressionWriter (tjCompression j) fuse = Inr k" "tar_walk (eItems env (tjImages j)) [] = (None, es)"
    unfolding archived_def by blast
  have "Tar (eItems env (tjImages j)) (tjCompression j) fuse (eTarClose env) = (None, if eTarClose env = None then Some (Stream k es) else None)"
    using a(4,5) by (simp add: Tar_None)
  then have "fst (compress env j w) = None" using a by (simp add: compress_def Let_def)
  then show ?thesis using compress_archives by (metis prod.collapse)
qed

interpretation da: hook_contract "\<lambda>s t. archived env j s \<longrightarrow> archived env j t" for env j
  by unfold_locales auto

lemma archived_stored: "dStored t = dStored s \<Longrightarrow> archived env j s \<longrightarrow> archived env j t"
  by (simp add: archived_def)

lemma cb_of_archived:
  assumes "\<And>k. c = CbCompress k \<Longrightarrow> k = j"
  shows "da.keeps env j (notify_of_callback (cb_of env c))"
proof (cases c)
  case (CbGpu ident)
  have "dStored (snd (lift_hook h w)) = dStored w" for h w by (simp add: lift_hook_def split: prod.splits)
  then show ?thesis using CbGpu by simp (rule da.keeps_callback; auto simp: lift_callback_def archived_def)
next
  case (CbCompress k)
  then show ?thesis using assms by simp (rule da.keeps_callback; auto simp: no_callback_def compress_again)
qed (simp_all, (rule da.keeps_callback; auto simp: no_callback_def query_frozen_def archived_def split: option.splits prod.splits)+)

lemma callbacks_archived:
  assumes "\<And>k. CbCompress k \<in> set cbs \<Longrightarrow> k = j"
  shows "da.keeps env j (notify_of_multi (callbacks_of env cbs))"
  by (rule da.keeps_multi) (use assms in \<open>auto simp: callbacks_of_def intro!: cb_of_archived\<close>)

text \<open>The hooks of \<open>post-dump\<close> have not failed only if the archive is complete.\<close>

lemma post_dump_archives:
  assumes "CbCompress j \<in> set cbs" and one: "\<And>k. CbCompress k \<in> set cbs \<Longrightarrow> k = j"
    and "dispatch (notify_of_multi (callbacks_of env cbs)) opts x resp s = (Continue None reply, s')" and "pScript resp = ''post-dump''"
  shows "archived env j s'"
proof -
  let ?f = "\<lambda>n. PostDump n opts"
  have "first_error ?f (rev (map (\<lambda>c. notify_of_callback (cb_of env c)) cbs)) s = (None, s')"
    using assms(3,4) by (auto simp: dispatch_def ack_def notify_of_multi_def multi_defs callbacks_of_def split: prod.splits)
  then show ?thesis
  proof (rule first_error_establishes [where x = "notify_of_callback (cb_of env (CbCompress j))"])
    show "notify_of_callback (cb_of env (CbCompress j)) \<in> set (rev (map (\<lambda>c. notify_of_callback (cb_of env c)) cbs))"
      unfolding set_rev set_map by (rule imageI [OF assms(1)])
    show "archived env j t'" if "PostDump (notify_of_callback (cb_of env (CbCompress j))) opts t = (None, t')" for t t'
      using that by (auto simp: notify_of_callback_def cb_PostDump_def no_callback_def call_hook_def intro: compress_archives split: prod.splits option.splits)
    show "archived env j t'" if y: "y \<in> set (rev (map (\<lambda>c. notify_of_callback (cb_of env c)) cbs))" and "archived env j t" "PostDump y opts t = (None, t')" for y t t'
    proof -
      obtain c where "y = notify_of_callback (cb_of env c)" "c \<in> set cbs" using y by auto
      then have "da.keeps env j y" using cb_of_archived one by metis
      then show ?thesis using that(2,3) unfolding da.keeps_def by (metis snd_conv)
    qed
  qed
qed

lemma criu_Dump_archives:
  assumes "criu_Dump env opts w = Some ((code, None), w')" and "notified ''post-dump'' (eExchanges env)"
    and c: "CbCompress j \<in> set (dCallbacks w)" and one: "\<And>k. CbCompress k \<in> set (dCallbacks w) \<Longrightarrow> k = j"
  shows "archived env j w'"
proof -
  obtain st r c where "Criu_Dump (cSwrk (eCriu env)) (Some (dump_opts_of env (PID (info st)) (criu_of w)))
       (Some (notify_of_multi (callbacks_of env (dCallbacks w)))) (eExchanges env)
       (idle_swrk ((upd_criu (dump_opts_of env (PID (info st))) w)\<lparr>dCriuRuns := dCriuRuns w @ [dump_opts_of env (PID (info st)) (criu_of w)]\<rparr>)) = ((r, None), c)"
    and h: "host c = w'"
    by (rule criu_Dump_ok [OF assms(1)]) blast
  note ok = this(1)
  let ?n = "notify_of_multi (callbacks_of env (dCallbacks w))"
  have k: "da.keeps env j ?n" by (rule callbacks_archived [OF one])
  have "archived env j (host (snd (doSwrkWithResp (cSwrk (eCriu env)) DUMP (Some (dump_opts_of env (PID (info st)) (criu_of w))) (Some ?n) None (eExchanges env)
       (idle_swrk ((upd_criu (dump_opts_of env (PID (info st))) w)\<lparr>dCriuRuns := dCriuRuns w @ [dump_opts_of env (PID (info st)) (criu_of w)]\<rparr>)))))"
  proof (rule doSwrk_establishes [where script = "''post-dump''", OF Criu_ok(1) [OF ok] _ assms(2)])
    show "archived env j s'" if "pScript resp = ''post-dump''" "dispatch ?n o1 x resp s = (Continue None reply, s')" for o1 x resp s reply s'
      using post_dump_archives [OF assms(3) one that(2,1)] .
    show "archived env j s'" if "archived env j s" "dispatch ?n o1 x resp s = (Continue None reply, s')" for o1 x resp s reply s'
      using da.keeps_dispatch [OF k, of s o1 x resp] that by simp
    show "archived env j (snd (FinalizeDump ?n o1 e s)) \<and> archived env j (snd (FinalizeRestore ?n o1 e s))" if "archived env j s" for o1 e s
      using k that by (simp add: da.keeps_def)
  qed simp
  then show ?thesis unfolding Criu_snd(1) [symmetric] ok by (simp add: h)
qed

section \<open>Whole requests\<close>

text \<open>The directory and the name of the dump, and what the defaults leave of the request.\<close>

definition dump_dir :: "dump_env \<Rightarrow> dump_world \<Rightarrow> string" where
  "dump_dir env w = (if dqDir (dReq w) = [] then cfgDir env else dqDir (dReq w))"

definition dump_name :: "dump_env \<Rightarrow> dump_world \<Rightarrow> string" where
  "dump_name env w = (if dqName (dReq w) = [] then ''dump-'' @ dqType (dReq w) @ ''-'' @ eNowNano env else dqName (dReq w))"

lemma Fill_defaults:
  assumes "FillMissingDumpDefaults env nxt opts w = r"
  obtains w1 where "nxt opts w1 = r" and "dqType (dReq w1) = dqType (dReq w)" and "dqDetails (dReq w1) = dqDetails (dReq w)"
    and "dqDir (dReq w1) = dump_dir env w" and "dqName (dReq w1) = dump_name env w"
    and "dqStreams (dReq w1) = dqStreams (dReq w)" and "dqCompression (dReq w1) = dqCompression (dReq w)" and "dqAsync (dReq w1) = dqAsync (dReq w)" and "dResp w1 = dResp w" and "dCallbacks w1 = dCallbacks w" and "dCriuRuns w1 = dCriuRuns w"
    and "dImages w1 = dImages w" and "External (criu_of w1) = External (criu_of w)"
    and "get_bool (LeaveRunning (criu_of w1)) \<longleftrightarrow> get_bool (LeaveRunning (criu_of w)) \<or> cfgLeaveRunning env"
proof -
  have c: "criu_of (upd_req f w) = criu_of w" if "\<And>r. dqCriu (f r) = dqCriu r" for f using that by (simp add: criu_of_def upd_req_def)
  show thesis
    using assms unfolding FillMissingDumpDefaults_def Let_def
    by (elim that) (simp_all add: c get_bool_def, simp_all add: upd_req_def dump_dir_def dump_name_def)
qed

text \<open>An unmanaged request for an ordinary process, with streaming off.\<close>

definition plain_request :: "dump_env \<Rightarrow> dump_world \<Rightarrow> bool" where
  "plain_request env w \<longleftrightarrow> req_jid (dqDetails (dReq w)) = [] \<and> dqType (dReq w) = ''process'' \<and> dqStreams (dReq w) = 0 \<and> cfgStreams env = 0"

lemma plain_request_ok:
  assumes "Server_Dump env w = Some (Inr resp, w')" and "plain_request env w"
  obtains opts w1 code w2 where "DumpFilesystem env (adapted (pluginDumpHandler env) (pluginDumpMiddleware env # FillProcessStateForDump env # DetectIOUringForDump #
        AddExternalFilesForDump # [AddExternalMountsForDump, DetectNetworkOptionsForDump env, gpu_Dump env, SaveProcessStateForDump env, CheckOptsForDump env])) opts w1
        = Some ((code, None), w2)"
    and "oCallback opts" and "select_storage (eFiles env) (eStorages env) (dump_dir env w) = (None, oStorage opts)"
    and "dqDir (dReq w1) = dump_dir env w" and "dqName (dReq w1) = dump_name env w" and "dqType (dReq w1) = ''process''" and "dqDetails (dReq w1) = dqDetails (dReq w)" and "dResp w1 = new_resp" and "dCallbacks w1 = []"
    and "dqCompression (dReq w1) = dqCompression (dReq w)" and "dqAsync (dReq w1) = dqAsync (dReq w)"
    and "dCriuRuns w1 = dCriuRuns w" and "External (criu_of w1) = External (criu_of w)" and "w' = upd_resp (\<lambda>r. r\<lparr>drMessages := drMessages r @ map (\<lambda>p. ''Dumped to '' @ p) (drPaths r)\<rparr>) w2"
    and "resp = dResp w'" and "get_bool (LeaveRunning (criu_of w1)) \<longleftrightarrow> get_bool (LeaveRunning (criu_of w)) \<or> cfgLeaveRunning env"
proof -
  let ?late = "pluginDumpMiddleware env # FillProcessStateForDump env # DetectIOUringForDump #
        AddExternalFilesForDump # [AddExternalMountsForDump, DetectNetworkOptionsForDump env, gpu_Dump env, SaveProcessStateForDump env, CheckOptsForDump env]"
  let ?w0 = "w\<lparr>dResp := new_resp, dCallbacks := []\<rparr>"
  let ?o1 = "(no_opts env False)\<lparr>oCriu := True, oCallback := True\<rparr>"
  obtain code w2 where h: "adapted (pluginDumpHandler env) (dump_middleware env) ?o1 ?w0 = Some ((code, None), w2)"
    and w': "w' = upd_resp (\<lambda>r. r\<lparr>drMessages := drMessages r @ map (\<lambda>p. ''Dumped to '' @ p) (drPaths r)\<rparr>) w2" "resp = dResp w'"
    using assms by (auto simp: Server_Dump_def plain_request_def run_dump_def New_for_dump_def Let_def split: option.splits prod.splits sum.splits)
  then obtain w1 where "ValidateDumpRequest (adapted (pluginDumpHandler env) (pluginDumpStorage env # ?late)) ?o1 w1 = Some ((code, None), w2)"
    and f: "dqType (dReq w1) = dqType (dReq w)" "dqDetails (dReq w1) = dqDetails (dReq w)" "dqStreams (dReq w1) = dqStreams (dReq w)" "dResp w1 = new_resp"
      "dCallbacks w1 = []" "dqCompression (dReq w1) = dqCompression (dReq w)" "dqAsync (dReq w1) = dqAsync (dReq w)" "dCriuRuns w1 = dCriuRuns w" "External (criu_of w1) = External (criu_of w)"
      "get_bool (LeaveRunning (criu_of w1)) \<longleftrightarrow> get_bool (LeaveRunning (criu_of w)) \<or> cfgLeaveRunning env"
      "dqDir (dReq w1) = dump_dir env w" "dqName (dReq w1) = dump_name env w"
    unfolding dump_middleware_def adapted_simps(2) [where a = "FillMissingDumpDefaults env"] adapted_simps(2) [where a = ValidateDumpRequest] by (elim Fill_defaults) (auto simp: criu_of_def dump_dir_def dump_name_def)
  then have "pluginDumpStorage env (adapted (pluginDumpHandler env) ?late) ?o1 w1 = Some ((code, None), w2)"
    by (auto simp: ValidateDumpRequest_def split: if_splits)
  then obtain st where "DumpFilesystem env (adapted (pluginDumpHandler env) ?late) (?o1\<lparr>oStorage := st\<rparr>) w1 = Some ((code, None), w2)"
    "select_storage (eFiles env) (eStorages env) (dump_dir env w) = (None, st)"
    using assms(2) f(3,11) by (auto simp: pluginDumpStorage_def plain_request_def Let_def split: prod.splits option.splits)
  then show thesis using that f w' assms(2) by (simp add: plain_request_def)
qed

text \<open>The state in which CRIU is called, and what follows.\<close>

lemma plain_dump_ok:
  assumes "Server_Dump env w = Some (Inr resp, w')" and "plain_request env w"
  obtains opts images path cs ks a d st w4 w3 dd where
    "dump_target env opts w4 images path cs a" and "select_storage (eFiles env) (eStorages env) (dump_dir env w) = (None, oStorage opts)"
    and "dqDir (dReq w4) = dump_dir env w" and "dqName (dReq w4) = dump_name env w" and "dump_compression env w4 = dump_compression env w" and "dqAsync (dReq w4) = dqAsync (dReq w)" and "dCallbacks w4 = cs @ ks" and "\<forall>j. CbCompress j \<notin> set ks"
    and "dqDetails (dReq w) = Some d" and "dProcessPID d \<noteq> 0"
    and "FillProcessState (eProcs env) (dProcessPID d) (ProcessState (empty_info\<lparr>PID := dProcessPID d\<rparr>) []) True = Some (None, st)" and "\<not> uses_io_uring st"
    and "criu_Dump env (opts\<lparr>oDumpFs := Some images\<rparr>) w4 = Some ((True, None), w3)"
    and "\<exists>ext. External (criu_of w4) = External (criu_of w) @ externalFileKeys st @ ext" and "ShellJob (criu_of w4) = Some True"
    and "\<exists>st4. drState (dResp w4) = Some st4 \<and> PID (info st4) = dProcessPID d"
    and "drPaths (dResp w4) = [path]" and "drMessages (dResp w4) = []" and "dCriuRuns w4 = dCriuRuns w"
    and "get_bool (LeaveRunning (criu_of w4)) \<longleftrightarrow> get_bool (LeaveRunning (criu_of w)) \<or> cfgLeaveRunning env"
    and "w' = upd_resp (\<lambda>r. r\<lparr>drMessages := drMessages r @ map (\<lambda>p. ''Dumped to '' @ p) (drPaths r)\<rparr>)
       (if dd then remove_images images (run_after env a w3) else run_after env a w3)" and "resp = dResp w'"
proof -
  obtain opts w1 code w2 where fs: "DumpFilesystem env (adapted (pluginDumpHandler env) (pluginDumpMiddleware env # FillProcessStateForDump env # DetectIOUringForDump #
        AddExternalFilesForDump # [AddExternalMountsForDump, DetectNetworkOptionsForDump env, gpu_Dump env, SaveProcessStateForDump env, CheckOptsForDump env])) opts w1
        = Some ((code, None), w2)" and sto: "select_storage (eFiles env) (eStorages env) (dump_dir env w) = (None, oStorage opts)"
    "dqDir (dReq w1) = dump_dir env w" "dqName (dReq w1) = dump_name env w" and w1: "dqType (dReq w1) = ''process''" "dqDetails (dReq w1) = dqDetails (dReq w)" "dResp w1 = new_resp" "dCallbacks w1 = []"
    "dqCompression (dReq w1) = dqCompression (dReq w)" "dqAsync (dReq w1) = dqAsync (dReq w)" "dCriuRuns w1 = dCriuRuns w" "External (criu_of w1) = External (criu_of w)" and w': "w' = upd_resp (\<lambda>r. r\<lparr>drMessages := drMessages r @ map (\<lambda>p. ''Dumped to '' @ p) (drPaths r)\<rparr>) w2"
    "resp = dResp w'" and lr: "get_bool (LeaveRunning (criu_of w1)) \<longleftrightarrow> get_bool (LeaveRunning (criu_of w)) \<or> cfgLeaveRunning env"
    by (rule plain_request_ok [OF assms])
  obtain images fd path cs a w3 dd where r: "adapted (pluginDumpHandler env) (pluginDumpMiddleware env # FillProcessStateForDump env # DetectIOUringForDump #
        AddExternalFilesForDump # [AddExternalMountsForDump, DetectNetworkOptionsForDump env, gpu_Dump env, SaveProcessStateForDump env, CheckOptsForDump env])
        (opts\<lparr>oDumpFs := Some images\<rparr>) (dump_state images fd path cs w1) = Some ((code, None), w3)"
    and w2: "w2 = (if dd then remove_images images (run_after env a w3) else run_after env a w3)" and t: "dump_target env opts w1 images path cs a"
    by (rule DumpFilesystem_ok [OF fs])
  let ?ws = "dump_state images fd path cs w1"
  have new: "drState (dResp ?ws) = None" "dqType (dReq ?ws) = ''process''" using w1 by (simp_all add: new_resp_def)
  obtain d st ks w4 where d: "dqDetails (dReq ?ws) = Some d" "dProcessPID d \<noteq> 0"
      "FillProcessState (eProcs env) (dProcessPID d) (ProcessState (empty_info\<lparr>PID := dProcessPID d\<rparr>) []) True = Some (None, st)" "\<not> uses_io_uring st"
    and c: "criu_Dump env (opts\<lparr>oDumpFs := Some images\<rparr>) w4 = Some ((code, None), w3)"
    and f: "dump_frame (opts\<lparr>oDumpFs := Some images\<rparr>) ((upd_resp (\<lambda>r. r\<lparr>drState := Some st\<rparr>)
          (upd_criu (\<lambda>p. p\<lparr>ShellJob := Some True, External := External p @ externalFileKeys st\<rparr>) ?ws))\<lparr>dCallbacks := dCallbacks ?ws @ ks\<rparr>)
          (opts\<lparr>oDumpFs := Some images\<rparr>) w4" and ks: "\<forall>j. CbCompress j \<notin> set ks"
    by (rule process_chain_ok [OF r refl new(2,1)])
  have pid: "PID (info st) = dProcessPID d" using FillProcessState_PID [OF d(3)] by simp
  note F = f [unfolded dump_frame_def, simplified]
  obtain ks' where k: "dCallbacks w4 = cs @ ks @ ks'" "\<forall>j. CbCompress j \<notin> set ks'" using F w1(4) by auto
  have code: "code" using c by (auto simp: criu_Dump_def Let_def fail_def split: option.splits prod.splits if_splits goerr.splits)
  have "dump_compression env w4 = dump_compression env w1" "dqAsync (dReq w4) = dqAsync (dReq w1)" "LeaveRunning (criu_of w4) = LeaveRunning (criu_of w1)"
    and n4: "dqDir (dReq w4) = dqDir (dReq w1)" "dqName (dReq w4) = dqName (dReq w1)"
    using F by (simp_all add: dump_compression_def)
  then have t4: "dump_target env opts w4 images path cs a" using t by (simp add: dump_target_def)
  show thesis
    using that [OF t4 sto(1), of "ks @ ks'" d st w3 dd] sto(2,3) n4 k ks d c code F pid lr w' w2 w1 by (simp add: new_resp_def dump_compression_def)
qed

lemma plain_dump_run:
  assumes "Server_Dump env w = Some (Inr resp, w')" and "plain_request env w"
  obtains d st p path where "dqDetails (dReq w) = Some d" and "dProcessPID d \<noteq> 0"
    and "FillProcessState (eProcs env) (dProcessPID d) (ProcessState (empty_info\<lparr>PID := dProcessPID d\<rparr>) []) True = Some (None, st)" and "\<not> uses_io_uring st"
    and "dCriuRuns w' = dCriuRuns w @ [p]" and "Pid p = Some (i32 (uint (dProcessPID d)))" and "ShellJob p = Some True"
    and "set (External (criu_of w)) \<union> set (externalFileKeys st) \<subseteq> set (External p)"
    and "get_bool (LeaveRunning p) \<longleftrightarrow> get_bool (LeaveRunning (criu_of w)) \<or> cfgLeaveRunning env"
    and "drPaths resp = [path]" and "drMessages resp = [''Dumped to '' @ path]"
  using assms
proof (rule plain_dump_ok)
  fix opts images path cs ks a d st w4 w3 dd
  assume d: "dqDetails (dReq w) = Some d" "dProcessPID d \<noteq> 0"
      "FillProcessState (eProcs env) (dProcessPID d) (ProcessState (empty_info\<lparr>PID := dProcessPID d\<rparr>) []) True = Some (None, st)" "\<not> uses_io_uring st"
    and c: "criu_Dump env (opts\<lparr>oDumpFs := Some images\<rparr>) w4 = Some ((True, None), w3)"
    and w4: "\<exists>ext. External (criu_of w4) = External (criu_of w) @ externalFileKeys st @ ext" "ShellJob (criu_of w4) = Some True"
      "\<exists>st4. drState (dResp w4) = Some st4 \<and> PID (info st4) = dProcessPID d" "drPaths (dResp w4) = [path]" "drMessages (dResp w4) = []" "dCriuRuns w4 = dCriuRuns w"
      "get_bool (LeaveRunning (criu_of w4)) \<longleftrightarrow> get_bool (LeaveRunning (criu_of w)) \<or> cfgLeaveRunning env"
    and w': "w' = upd_resp (\<lambda>r. r\<lparr>drMessages := drMessages r @ map (\<lambda>p. ''Dumped to '' @ p) (drPaths r)\<rparr>)
       (if dd then remove_images images (run_after env a w3) else run_after env a w3)" "resp = dResp w'"
  obtain st4 where s4: "drState (dResp w4) = Some st4" and runs: "dCriuRuns w3 = dCriuRuns w4 @ [dump_opts_of env (PID (info st4)) (criu_of w4)]" and r3: "dResp w3 = dResp w4"
    by (rule criu_Dump_ok [OF c])
  let ?p = "dump_opts_of env (dProcessPID d) (criu_of w4)"
  have "dCriuRuns w' = dCriuRuns w @ [?p]" "drPaths resp = [path]" "drMessages resp = [''Dumped to '' @ path]"
    using w' runs w4 s4 r3 by simp_all
  then show thesis using d w4 by (intro that [of d st ?p path]) (auto simp: dump_opts_of_def)
qed



section \<open>Failed requests\<close>

text \<open>In the dump of an ordinary process no adapter and no callback leaves a dump directory behind that was not there, apart from \<open>DumpFilesystem\<close>.\<close>

definition images_within :: "dump_world \<Rightarrow> dump_world \<Rightarrow> bool" where
  "images_within w w' \<longleftrightarrow> (dqType (dReq w) = ''process'' \<longrightarrow> dqType (dReq w') = ''process'' \<and> set (dImages w') \<subseteq> set (dImages w))"

interpretation pi: pipe_frame images_within
  by unfold_locales (auto simp: images_within_def)

interpretation ih: hook_contract images_within
  by unfold_locales (auto simp: images_within_def)

lemma images_within_simps [simp]:
  "images_within w w" "images_within w (upd_criu f w1) = images_within w w1" "images_within w (upd_resp g w1) = images_within w w1"
  "images_within w (w1\<lparr>dCallbacks := a\<rparr>) = images_within w w1" "images_within w (w1\<lparr>dGpu := b\<rparr>) = images_within w w1"
  "images_within w (w1\<lparr>dSaved := c\<rparr>) = images_within w w1" "images_within w (set_pool p w1) = images_within w w1"
  "images_within w (w1\<lparr>dCriuRuns := r\<rparr>) = images_within w w1" "images_within w (w1\<lparr>dStuck := x\<rparr>) = images_within w w1"
  by (simp_all add: images_within_def set_pool_def)

lemma cb_of_images: "ih.keeps (notify_of_callback (cb_of env c))"
proof (cases c)
  case (CbGpu ident)
  have "images_within w (snd (lift_hook h w))" for h w by (simp add: lift_hook_def split: prod.splits)
  then show ?thesis using CbGpu by simp (rule ih.keeps_callback; auto simp: lift_callback_def)
next
  case (CbCompress j)
  have "images_within w (snd (compress env j w))" for w
    by (auto simp: compress_def images_within_def remove_images_def put_object_def Let_def split: sum.splits option.splits prod.splits)
  then show ?thesis using CbCompress by simp (rule ih.keeps_callback; auto simp: no_callback_def)
qed (simp_all, (rule ih.keeps_callback; auto simp: no_callback_def query_frozen_def split: option.splits prod.splits)+)

lemma criu_Dump_images: "pi.frames (criu_Dump env)"
  unfolding pi.frames_def
proof (intro allI impI)
  fix o1 w r w' assume a: "criu_Dump env o1 w = Some (r, w')"
  have k: "ih.keeps (notify_of_multi (callbacks_of env cbs))" for cbs by (rule ih.keeps_multi) (auto simp: callbacks_of_def cb_of_images)
  have h: "images_within v (host (snd (Criu_Dump e1 p (Some (notify_of_multi (callbacks_of env cbs))) xs (idle_swrk v))))" for e1 p cbs xs v
    using ih.keeps_Criu(1) [OF k, of "idle_swrk v"] by (simp add: idle_swrk_def)
  have "images_within w (host c)" if "Criu_Dump e1 p (Some (notify_of_multi (callbacks_of env cbs))) xs (idle_swrk ((upd_criu f w)\<lparr>dCriuRuns := q\<rparr>)) = (y, c)" for e1 p cbs xs f q y c
    using h [of "(upd_criu f w)\<lparr>dCriuRuns := q\<rparr>" e1 p cbs xs] that by (simp add: images_within_def)
  then show "images_within w w'"
    using a by (auto simp: criu_Dump_def fail_def Let_def split: option.splits prod.splits if_splits goerr.splits)
qed

lemma adapter_images:
  assumes n: "pi.frames nxt"
  shows
    "SetPIDForDump nxt o1 w = Some (r, w') \<Longrightarrow> images_within w w'"
    "DetectShellJobForDump nxt o1 w = Some (r, w') \<Longrightarrow> images_within w w'"
    "FillProcessStateForDump env nxt o1 w = Some (r, w') \<Longrightarrow> images_within w w'"
    "DetectIOUringForDump nxt o1 w = Some (r, w') \<Longrightarrow> images_within w w'"
    "AddExternalFilesForDump nxt o1 w = Some (r, w') \<Longrightarrow> images_within w w'"
    "AddExternalMountsForDump nxt o1 w = Some (r, w') \<Longrightarrow> images_within w w'"
    "DetectNetworkOptionsForDump env nxt o1 w = Some (r, w') \<Longrightarrow> images_within w w'"
    "gpu_AddExternalMountsForDump nxt o1 w = Some (r, w') \<Longrightarrow> images_within w w'"
    "SaveProcessStateForDump env nxt o1 w = Some (r, w') \<Longrightarrow> images_within w w'"
    "CheckOptsForDump env nxt o1 w = Some (r, w') \<Longrightarrow> images_within w w'"
  by (auto simp: SetPIDForDump_def DetectShellJobForDump_def FillProcessStateForDump_def DetectIOUringForDump_def AddExternalFilesForDump_def AddExternalMountsForDump_def DetectNetworkOptionsForDump_def gpu_AddExternalMountsForDump_def SaveProcessStateForDump_def CheckOptsForDump_def Let_def
      elim!: pi.frames_after [OF n, rotated] pi.frame_fail [rotated] split: option.splits prod.splits if_splits goerr.splits)

lemma adapters_images: "list_all pi.framed [SetPIDForDump, DetectShellJobForDump, FillProcessStateForDump env, DetectIOUringForDump, AddExternalFilesForDump, AddExternalMountsForDump,
    DetectNetworkOptionsForDump env, gpu_AddExternalMountsForDump, SaveProcessStateForDump env, CheckOptsForDump env]"
  by (simp only: list.pred_inject simp_thms) (intro conjI; rule pi.framedI; erule (1) adapter_images)

lemma gpu_Dump_images: "pi.framed (gpu_Dump env)"
proof (rule pi.framedI)
  fix nxt o1 w r w'
  assume n: "pi.frames nxt" and a: "gpu_Dump env nxt o1 w = Some (r, w')"
  have g: "pi.frames (gpu_AddExternalMountsForDump nxt)" using adapters_images n by (simp add: pi.framedD)
  show "images_within w w'"
    using a by (auto simp: gpu_Dump_def Let_def elim!: pi.frames_after [OF n, rotated] pi.frames_after [OF g, rotated] pi.frame_fail [rotated] split: option.splits prod.splits if_splits)
qed

text \<open>The chain behind the storage.\<close>

definition process_chain :: "dump_env \<Rightarrow> dump_handler" where
  "process_chain env = adapted (pluginDumpHandler env) [pluginDumpMiddleware env, FillProcessStateForDump env, DetectIOUringForDump, AddExternalFilesForDump,
    AddExternalMountsForDump, DetectNetworkOptionsForDump env, gpu_Dump env, SaveProcessStateForDump env, CheckOptsForDump env]"

lemma process_chain_images: "pi.frames (process_chain env)"
  unfolding process_chain_def
proof (rule pi.frames_adapted)
  show "pi.frames (pluginDumpHandler env)"
    unfolding pi.frames_def
  proof (intro allI impI)
    fix o1 w r w' assume "pluginDumpHandler env o1 w = Some (r, w')"
    then show "images_within w w'"
      using pi.framesD [OF criu_Dump_images, of env o1 w r w'] by (cases "dqType (dReq w) = ''process''") (simp_all add: pluginDumpHandler_def images_within_def)
  qed
  have "pi.framed (pluginDumpMiddleware env)"
  proof (rule pi.framedI)
    fix nxt o1 w r w' assume n: "pi.frames nxt" and a: "pluginDumpMiddleware env nxt o1 w = Some (r, w')"
    have "pi.frames (adapted nxt [SetPIDForDump, DetectShellJobForDump])" using adapters_images by (intro pi.frames_adapted n) simp
    then show "images_within w w'"
      using a pi.framesD [of "adapted nxt [SetPIDForDump, DetectShellJobForDump]" o1 w r w']
      by (cases "dqType (dReq w) = ''process''") (simp_all add: pluginDumpMiddleware_def images_within_def)
  qed
  then show "list_all pi.framed [pluginDumpMiddleware env, FillProcessStateForDump env, DetectIOUringForDump, AddExternalFilesForDump,
    AddExternalMountsForDump, DetectNetworkOptionsForDump env, gpu_Dump env, SaveProcessStateForDump env, CheckOptsForDump env]"
    using adapters_images [of env] by (simp add: gpu_Dump_images)
qed

lemma DumpFilesystem_fails:
  assumes "DumpFilesystem env (process_chain env) opts w = Some ((c, Some e), w')" and "dqType (dReq w) = ''process''" and "named_result (Some e) \<noteq> None"
  shows "set (dImages w') \<subseteq> set (dImages w)"
proof -
  have a: "set (dImages (run_after env a u)) \<subseteq> set (dImages u)" for a u
    by (auto simp: run_after_def compress_def remove_images_def put_object_def Let_def split: after_dump.splits sum.splits option.splits prod.splits)
  have r: "set (dImages (remove_images i u)) = set (dImages u) - {i}" for i u by (auto simp: remove_images_def)
  have n: "set (dImages u) \<subseteq> insert images (set (dImages w))" if u: "process_chain env o3 (dump_state images fd path cs w) = Some (r, u)" for o3 images fd path cs r u
    using pi.framesD [where h = "process_chain env", OF process_chain_images u] assms(2) by (auto simp: images_within_def)
  consider "w' = w" | images d e1 w1 where "((c, Some e), w') = finish_dump env images d Nothing ((False, Some e1), w1)" "dImages w1 = dImages w @ [images]"
    | images fd path cs a d where "Some ((c, Some e), w') = map_option (finish_dump env images d a) (process_chain env (opts\<lparr>oDumpFs := Some images\<rparr>) (dump_state images fd path cs w))"
    using DumpFilesystem_ends [of env "process_chain env" opts w] unfolding assms(1) dump_ends_def fail_def by auto
  then show ?thesis
  proof cases
    case (2 images d e1 w1)
    then show ?thesis using assms(3) by (auto simp: finish_dump_eq r run_after_def)
  next
    case (3 images fd path cs a d)
    then obtain r1 u where u: "process_chain env (opts\<lparr>oDumpFs := Some images\<rparr>) (dump_state images fd path cs w) = Some (r1, u)"
      and f: "((c, Some e), w') = finish_dump env images d a (r1, u)"
      by (cases "process_chain env (opts\<lparr>oDumpFs := Some images\<rparr>) (dump_state images fd path cs w)") auto
    have "w' = remove_images images (run_after env a u)" using f assms(3) by (auto simp: finish_dump_eq)
    then show ?thesis using a [of a u] n [OF u] r by auto
  qed simp
qed

text \<open>
  C35: A dump of an ordinary process that returns an error leaves no dump directory behind that was not there before.
\<close>

theorem failed_dump_cleans_up:
  assumes "Server_Dump env w = Some (Inl e, w')" and "plain_request env w" and "named_result (Some e) \<noteq> None"
  shows "set (dImages w') \<subseteq> set (dImages w)"
proof -
  let ?o1 = "(no_opts env False)\<lparr>oCriu := True, oCallback := True\<rparr>"
  let ?w0 = "w\<lparr>dResp := new_resp, dCallbacks := []\<rparr>"
  obtain code where h: "FillMissingDumpDefaults env (ValidateDumpRequest (pluginDumpStorage env (process_chain env))) ?o1 ?w0 = Some ((code, Some e), w') \<or> w' = w\<lparr>dResp := new_resp\<rparr>"
    using assms(1,2)
    by (auto simp: Server_Dump_def plain_request_def run_dump_def New_for_dump_def dump_middleware_def process_chain_def fail_def Let_def split: option.splits prod.splits sum.splits)
  then show ?thesis
  proof
    assume f: "FillMissingDumpDefaults env (ValidateDumpRequest (pluginDumpStorage env (process_chain env))) ?o1 ?w0 = Some ((code, Some e), w')"
    obtain w1 where "ValidateDumpRequest (pluginDumpStorage env (process_chain env)) ?o1 w1 = Some ((code, Some e), w')"
      and w1: "dqType (dReq w1) = ''process''" "dqStreams (dReq w1) = 0" "dImages w1 = dImages w"
      by (rule Fill_defaults [OF f]) (use assms(2) in \<open>simp add: plain_request_def\<close>)
    then consider "w' = w1" | o2 where "DumpFilesystem env (process_chain env) o2 w1 = Some ((code, Some e), w')"
      using assms(2) by (auto simp: ValidateDumpRequest_def pluginDumpStorage_def plain_request_def fail_def Let_def split: option.splits prod.splits if_splits)
    then show ?thesis using DumpFilesystem_fails [OF _ w1(1) assms(3)] w1(3) by cases auto
  qed simp
qed

section \<open>What is looked for in the tree\<close>

lemma walk_collect: "walk_values (\<lambda>v acc. (True, if P v then acc @ [f v] else acc)) vs acc = (True, acc @ map f (filter P vs))"
  by (induction vs arbitrary: acc) auto

lemma walk_any: "walk_values (\<lambda>v found. (\<not> found \<and> \<not> P v, found \<or> P v)) vs False = (\<not> list_ex P vs, list_ex P vs)"
proof (induction vs)
  case (Cons v vs)
  then show ?case by (cases "P v") auto
qed simp

lemma mount_ids_preorder: "mount_ids st = map mID (preorder (\<lambda>i. Some (Mounts i)) st)"
  using walk_collect [of "\<lambda>_. True" mID "preorder (\<lambda>i. Some (Mounts i)) st" "[]"] by (simp add: mount_ids_def WalkTree_preorder_both)

text \<open>The processes of a tree.\<close>

fun tree_procs :: "process_state \<Rightarrow> proc_info list" where
  "tree_procs (ProcessState i cs) = i # concat (map tree_procs cs)"

lemma concat_map_concat: "concat (map f (concat xss)) = concat (map (\<lambda>xs. concat (map f xs)) xss)"
  by (induction xss) auto

lemma preorder_procs: "preorder (\<lambda>i. Some (field i)) st = concat (map field (tree_procs st))"
  by (induction st rule: tree_procs.induct) (simp add: concat_map_concat comp_def cong: map_cong)

lemma bex_preorder: "(\<exists>v\<in>set (preorder (\<lambda>i. Some (field i)) st). P v) \<longleftrightarrow> (\<exists>i\<in>set (tree_procs st). \<exists>v\<in>set (field i). P v)"
  by (auto simp: preorder_procs)

lemma external_keys_iff: "k \<in> set (externalFileKeys st) \<longleftrightarrow> (\<exists>i\<in>set (tree_procs st). \<exists>f\<in>set (OpenFiles i). is_external (mount_ids st) f \<and> k = file_key f)"
  unfolding bex_preorder [symmetric] by (auto simp: externalFileKeys_def Let_def WalkTree_preorder_both walk_collect)

lemma mount_ids_iff: "x \<in> set (mount_ids st) \<longleftrightarrow> (\<exists>i\<in>set (tree_procs st). \<exists>m\<in>set (Mounts i). mID m = x)"
  unfolding bex_preorder [symmetric] by (auto simp: mount_ids_preorder)

lemma uses_io_uring_iff: "uses_io_uring st \<longleftrightarrow> (\<exists>i\<in>set (tree_procs st). \<exists>f\<in>set (OpenFiles i). contains (fPath f) ''io_uring'')"
  unfolding bex_preorder [symmetric] by (simp add: uses_io_uring_def Let_def WalkTree_preorder_both walk_any list_ex_iff)

text \<open>
  C36: No file of the tree is forgotten. Take an unmanaged request without streaming for a process, and let it succeed. Then no process of the tree that the scan found
  has a file open whose path names io_uring; and every open file of every process of the tree that is on none of the mounts of any process of the tree, and whose
  path does not begin with \<open>pipe\<close>, \<open>socket\<close>, \<open>anon_inode\<close> or \<open>/memfd:\<close>, is declared to CRIU as external: a terminal by its device numbers, any other
  file by its mount and inode numbers, in hexadecimal.
\<close>

theorem dump_declares_external_files:
  assumes "Server_Dump env w = Some (Inr resp, w')" and "plain_request env w"
  shows "\<exists>d st p. dqDetails (dReq w) = Some d \<and>
    FillProcessState (eProcs env) (dProcessPID d) (ProcessState (empty_info\<lparr>PID := dProcessPID d\<rparr>) []) True = Some (None, st) \<and>
    dCriuRuns w' = dCriuRuns w @ [p] \<and>
    (\<forall>i\<in>set (tree_procs st). \<forall>f\<in>set (OpenFiles i). \<not> contains (fPath f) ''io_uring'' \<and>
      ((\<forall>q\<in>set (tree_procs st). \<forall>m\<in>set (Mounts q). mID m \<noteq> fMountID f) \<and>
       (\<forall>prefix\<in>{''pipe'', ''socket'', ''anon_inode'', ''/memfd:''}. \<not> has_prefix (fPath f) prefix) \<longrightarrow>
       (if fIsTTY f then ''tty['' @ xtoa (unat (fRdev f)) @ '':'' @ xtoa (unat (fDev f)) @ '']''
        else ''file['' @ xtoa (unat (fMountID f)) @ '':'' @ xtoa (unat (fInode f)) @ '']'') \<in> set (External p)))"
  using assms
proof (rule plain_dump_run)
  fix d st p path
  assume a: "dqDetails (dReq w) = Some d" "FillProcessState (eProcs env) (dProcessPID d) (ProcessState (empty_info\<lparr>PID := dProcessPID d\<rparr>) []) True = Some (None, st)"
      "dCriuRuns w' = dCriuRuns w @ [p]"
    and u: "\<not> uses_io_uring st" and e: "set (External (criu_of w)) \<union> set (externalFileKeys st) \<subseteq> set (External p)"
  have keys: "file_key f \<in> set (External p)"
    if "i \<in> set (tree_procs st)" "f \<in> set (OpenFiles i)" "\<forall>q\<in>set (tree_procs st). \<forall>m\<in>set (Mounts q). mID m \<noteq> fMountID f"
      "\<forall>prefix\<in>{''pipe'', ''socket'', ''anon_inode'', ''/memfd:''}. \<not> has_prefix (fPath f) prefix" for i f
  proof -
    have "is_external (mount_ids st) f" using that(3,4) by (simp add: is_external_def mount_ids_iff)
    then have "file_key f \<in> set (externalFileKeys st)" unfolding external_keys_iff using that(1,2) by blast
    then show ?thesis using e by blast
  qed
  then show ?thesis using a u by (intro exI [of _ d] exI [of _ st] exI [of _ p]) (auto simp: uses_io_uring_iff file_key_def)
qed

lemma connections_flags:
  "snd (walk_values (\<lambda>c (tcp, ext). (True, tcp \<or> cType c = SOCK_STREAM, ext \<or> cType c = AF_UNIX)) cs (a, b)) =
     (a \<or> list_ex (\<lambda>c. cType c = 1) cs, b \<or> list_ex (\<lambda>c. cType c = 1) cs)"
  by (induction cs arbitrary: a b) (auto simp: SOCK_STREAM_def AF_UNIX_def)

lemma active_tcp_never: "active_tcp env st = False"
proof -
  have "preorder (\<lambda>i. None :: u32 list option) st = []" by (induction "\<lambda>i :: proc_info. None :: u32 list option" st rule: preorder.induct) auto
  then show ?thesis by (simp add: active_tcp_def WalkTree_preorder_both)
qed

text \<open>
  C37: Both network options come from the same test of the sockets in the tree, since \<open>SOCK_STREAM\<close> and \<open>AF_UNIX\<close> are the same number and the
  type of a socket, never its family, is compared with both. If a process of the tree has a stream socket, of any family, established TCP connections and external unix sockets are both turned
  on. Otherwise each of the two is as the request has it, whatever TCP connections the processes have: the walk that looks for them visits nothing.
\<close>

theorem network_options_agree:
  assumes "drState (dResp w) = Some st"
  shows "DetectNetworkOptionsForDump env nxt opts w =
    (let b = (\<exists>i\<in>set (tree_procs st). \<exists>c\<in>set (OpenConnections i). cType c = 1)
     in nxt opts (upd_criu (\<lambda>p. p\<lparr>TcpEstablished := Some (b \<or> get_bool (TcpEstablished p)), ExtUnixSk := Some (b \<or> get_bool (ExtUnixSk p))\<rparr>) w))"
proof -
  have "list_ex (\<lambda>c. cType c = 1) (preorder (\<lambda>i. Some (OpenConnections i)) st) \<longleftrightarrow> (\<exists>i\<in>set (tree_procs st). \<exists>c\<in>set (OpenConnections i). cType c = 1)"
    unfolding bex_preorder [symmetric] by (simp add: list_ex_iff)
  then show ?thesis
    using assms by (simp add: DetectNetworkOptionsForDump_def active_tcp_never connections_def WalkTree_preorder_both connections_flags Let_def)
qed

section \<open>Witnesses\<close>

text \<open>A host with a CRIU that accepts everything, on which process 7 is dumped to a local directory as a plain archive.\<close>

definition dump_site :: "string \<Rightarrow> dump_env" where
  "dump_site compression = \<lparr>eProcs = (two_procs False)\<lparr>cpuInfo := Inr [\<lparr>Count = 1, CPU = 0, VendorID = [], Family = [], PhysicalID = []\<rparr>], cpuCounts := Inr 1,
       virtualMemory := Inr \<lparr>Total = 1, Available = 1, Used = 0\<rparr>, hostInfo := Inr empty_host, statFiles := Inr []\<rparr>,
     eFrozen = (two_procs False)\<lparr>statFiles := Inr []\<rparr>, eTcp = (\<lambda>_. Inr ([], None)), eJobs = \<lparr>jenv = live_env, isAttached = (\<lambda>_. False), killErr = (\<lambda>_ _. None), killSignals = [], cleanups = [], uuid = itoa,
       nowMilli = of_nat, sizeOf = (\<lambda>_. 1)\<rparr>, eMeanwhile = (\<lambda>m. m), eMerge = (\<lambda>_ d. d),
     eGpu = gpu_machine, eGpuSync = (\<lambda>p. Some (None, p)),
     eCriu = \<lparr>cBinaryPath = ''/criu'', cPlugins = small_machine, cDisk = (\<lambda>_. None), cLookPath = Inr [], cSwrk = ok_env,
       cVersion = [reply_of (resp_of VERSION [])], cCheck = (\<lambda>_ _. ([], None))\<rparr>,
     eExchanges = [reply_of (resp_of NOTIFY ''post-dump''), reply_of (resp_of DUMP [])], eChown = (\<lambda>_. None), eNowNano = ''1'', eNowUnix = ''1'',
     eStat = (\<lambda>_. StatOk), eMkdir = (\<lambda>_. None), eChmod = (\<lambda>_. None), eOpenDir = (\<lambda>_. Inr 3), eTempDir = ''/tmp'',
     eStatfs = (\<lambda>_. Inr 0), eItems = (\<lambda>_. []), eTarClose = None, eFuseFirst = False, eSaveErr = (\<lambda>_. None),
     eFiles = \<lparr>osOpen = (\<lambda>_. Inr None), osCreate = (\<lambda>_. None), osClose = (\<lambda>_. None), osRemove = (\<lambda>_. None), osIsDir = (\<lambda>_. Inr False), osReadDir = (\<lambda>_. Inr [])\<rparr>,
     eStorages = [], eMiddlewares = [], eHandlers = [], eStreamer = (\<lambda>_ h. h), cfgDir = ''/d'', cfgCompression = compression, cfgAsync = False, cfgStreams = 0,
     cfgLeaveRunning = False, cfgCgMode = 0, cfgLogLevel = 4\<rparr>"

definition dump_request :: "u32 \<Rightarrow> dump_world" where
  "dump_request pid = \<lparr>dReq = \<lparr>dqDir = [], dqName = [], dqType = ''process'', dqDetails = Some \<lparr>dJID = None, dProcessPID = pid, dRest = []\<rparr>, dqCriu = None,
     dqCompression = [], dqAsync = False, dqStreams = 0\<rparr>, dResp = new_resp, dCallbacks = [], dGpu = new_cb gpu_one [], dJobs = new_mgr None, dSaved = [],
     dImages = [], dStored = [], dAsync = [], dCriuRuns = [], dStuck = False\<rparr>"


lemma site_fields [simp]:
  "eCriu (dump_site c) = \<lparr>cBinaryPath = ''/criu'', cPlugins = small_machine, cDisk = (\<lambda>_. None), cLookPath = Inr [], cSwrk = ok_env,
       cVersion = [reply_of (resp_of VERSION [])], cCheck = (\<lambda>_ _. ([], None))\<rparr>"
  "eExchanges (dump_site c) = [reply_of (resp_of NOTIFY ''post-dump''), reply_of (resp_of DUMP [])]"
  "eChown (dump_site c) d = None"
  by (simp_all add: dump_site_def)

lemma site_version_ok: "\<exists>v. site_version (eCriu (dump_site c)) = (v, None)"
  by (simp add: site_version_def GetCriuVersion_def swrk_witness_defs idle_swrk_def)

lemma criu_site_run:
  assumes "dqCriu (dReq w) = Some p" and "drState (dResp w) = Some st" and "UIDs (info st) = [0]" "GIDs (info st) = [0]" and "oCallback opts"
    and "dCallbacks w = [CbCompress j, CbExternalFiles pid]" and "\<And>v. fst (compress (dump_site c) j v) = None"
    and "\<not> dStuck w" and "\<not> hung (dGpu w)"
  shows "\<exists>w'. criu_Dump (dump_site c) opts w = Some ((True, None), w')"
proof -
  obtain v where v: "site_version (eCriu (dump_site c)) = (v, None)" using site_version_ok by blast
  have h: "dStuck (snd (compress (dump_site c) j v)) = dStuck v" "dGpu (snd (compress (dump_site c) j v)) = dGpu v" for v
    by (auto simp: compress_def remove_images_def put_object_def Let_def split: sum.splits option.splits prod.splits)
  define t where "t u = snd (compress (dump_site c) j u)" for u
  have k: "compress (dump_site c) j u = (None, t u)" "dStuck (t u) = dStuck u" "dGpu (t u) = dGpu u" for u
    using assms(7) [of u] h [of u] by (simp_all add: t_def prod_eq_iff)
  show ?thesis
    using assms(1-6,8,9) v
    by (simp add: criu_Dump_def swrk_witness_defs idle_swrk_def dispatch_def ack_def notify_of_multi_def multi_defs callbacks_of_def notify_of_callback_def cedana_simps
         call_hook_def no_callback_def Let_def upd_criu_def upd_req_def k)
qed

lemma site_fill: "\<exists>i. FillProcessState (eProcs (dump_site c)) 7 (ProcessState (empty_info\<lparr>PID := 7\<rparr>) []) True = Some (None, ProcessState i []) \<and> PID i = 7 \<and> UIDs i = [0] \<and> GIDs i = [0]
   \<and> OpenFiles i = [] \<and> Mounts i = [] \<and> OpenConnections i = []"
  by (simp add: FillProcessState_def dump_site_def fillProcessNode_def two_procs_def err_of_def mounts_result_def GetHost_def FillHost_def GetMACAddress_def on_ok_def with_host_def
      buildPPIDMap_def bfs_loop.simps empty_info_def empty_host_def errors_Join_def)

lemma site_chain:
  assumes "dqType (dReq w) = ''process''" and "dqDetails (dReq w) = Some d" and "dProcessPID d = 7" and "drState (dResp w) = None" and "oCallback opts"
    and "dqCriu (dReq w) = Some p" and "gPool (dGpu w) = gpu_one"
  shows "\<exists>w3 i. process_chain (dump_site c) opts w = criu_Dump (dump_site c) opts w3 \<and> dCallbacks w3 = dCallbacks w @ [CbExternalFiles 7]
    \<and> dqCriu (dReq w3) \<noteq> None \<and> drState (dResp w3) = Some (ProcessState i []) \<and> UIDs i = [0] \<and> GIDs i = [0] \<and> dStuck w3 = dStuck w \<and> dGpu w3 = dGpu w"
proof -
  obtain i where f: "FillProcessState (eProcs (dump_site c)) 7 (ProcessState (empty_info\<lparr>PID := 7\<rparr>) []) True = Some (None, ProcessState i [])" and
   i: "PID i = 7" "UIDs i = [0]" "GIDs i = [0]" "OpenFiles i = []" "Mounts i = []" "OpenConnections i = []"
    using site_fill by blast
  have e: "eGpuSync (dump_site c) gpu_one = Some (None, gpu_one)" "simple_IsAttached 7 gpu_one = False" "eSaveErr (dump_site c) x = None" for x
    by (simp add: dump_site_def, code_simp, simp add: dump_site_def)
  have v: "site_version (eCriu (dump_site c)) = (40101, None)"
    by (simp add: site_version_def GetCriuVersion_def swrk_witness_defs idle_swrk_def version_number_def i32_def)
  have g: "w\<lparr>dGpu := (dGpu w)\<lparr>gPool := gpu_one\<rparr>\<rparr> = w" using assms(7) by simp
  show ?thesis
    using assms i f v e
    by (simp add: process_chain_def pluginDumpMiddleware_def SetPIDForDump_def DetectShellJobForDump_def FillProcessStateForDump_def DetectIOUringForDump_def uses_io_uring_def
        AddExternalFilesForDump_def externalFileKeys_def mount_ids_def AddExternalMountsForDump_def DetectNetworkOptionsForDump_def connections_def active_tcp_def gpu_Dump_def set_pool_def
        SaveProcessStateForDump_def CheckOptsForDump_def CheckOpts_def CRIU_MIN_VERSION_def pluginDumpHandler_def upd_criu_def upd_req_def upd_resp_def Let_def empty_info_def split del: if_split)
      (intro exI conjI, rule refl, simp_all)
qed

lemma site_compress:
  assumes "tjStorage j = local_storage (eFiles (dump_site c))" and "tjCompression j = ''tar''"
  shows "fst (compress (dump_site c) j v) = None"
proof -
  have t: "fst (Tar [] ''tar'' False None) = None" by code_simp
  have "isFuseFS (dump_site c) (tjDir j) (\<not> sIsRemote (tjStorage j)) = Inr False" "sCreate (tjStorage j) (tjPath j) = None" "sClose (tjStorage j) (tjPath j) = None"
    "eItems (dump_site c) (tjImages j) = []" "eTarClose (dump_site c) = None"
    using assms(1) by (simp_all add: isFuseFS_def dump_site_def local_storage_def fs_Create_def wrap_err_def FUSE_SUPER_MAGIC_def fs_IsRemote_def)
  then show ?thesis using t assms(2) by (cases "Tar [] ''tar'' False None") (simp add: compress_def close_tarball_def Let_def errors_Join_def)
qed

lemma site_dump: "\<exists>resp w'. Server_Dump (dump_site ''tar'') (dump_request 7) = Some (Inr resp, w')"
proof -
  let ?env = "dump_site ''tar''"
  let ?o1 = "(no_opts ?env False)\<lparr>oCriu := True, oCallback := True\<rparr>"
  let ?w0 = "(dump_request 7)\<lparr>dResp := new_resp, dCallbacks := []\<rparr>"
  obtain b where b: "criu_New (eCriu ?env) = Inr b"
    by (simp add: criu_New_def find_criu_def CheckFeatures_def parseCheckOutput_def has_prefix_def)
  have "contains ''/d'' ''://'' = False" by code_simp
  then have st: "select_storage fs [] ''/d'' = (None, local_storage fs)" for fs by (simp add: select_storage_def)
  have cfg: "cfgDir ?env = ''/d''" "cfgStreams ?env = 0" "cfgCompression ?env = ''tar''" "eStorages ?env = []" "cfgLeaveRunning ?env = False" "eStat ?env x = StatOk" "eMkdir ?env x = None"
    "eChmod ?env x = None" "eOpenDir ?env x = Inr 3" "cfgAsync ?env = False" for x by (simp_all add: dump_site_def)
  have loc: "sIsRemote (local_storage fs) = False" for fs by (simp add: local_storage_def fs_IsRemote_def)
  have chain: "adapted (pluginDumpHandler ?env) (dump_middleware ?env) = FillMissingDumpDefaults ?env (ValidateDumpRequest (pluginDumpStorage ?env (process_chain ?env)))"
    by (simp add: dump_middleware_def process_chain_def)
  have e: "ExtForCompression ''tar'' = Inr []" "''tar'' \<in> set SUPPORTED_COMPRESSIONS" by code_simp+
  have "\<exists>images j o3 w2. adapted (pluginDumpHandler ?env) (dump_middleware ?env) ?o1 ?w0 = map_option (finish_dump ?env images False Nothing) (process_chain ?env o3 w2) \<and>
      dqType (dReq w2) = ''process'' \<and> dqDetails (dReq w2) = Some \<lparr>dJID = None, dProcessPID = 7, dRest = []\<rparr> \<and> drState (dResp w2) = None \<and> oCallback o3 \<and>
      dqCriu (dReq w2) \<noteq> None \<and> dGpu w2 = new_cb gpu_one [] \<and> dStuck w2 = False \<and> dCallbacks w2 = [CbCompress j] \<and> tjStorage j = local_storage (eFiles ?env) \<and> tjCompression j = ''tar''"
    unfolding chain
    by (simp add: cfg st loc e FillMissingDumpDefaults_def ValidateDumpRequest_def pluginDumpStorage_def DumpFilesystem_def dump_request_def no_opts_def new_resp_def Let_def
         upd_req_def upd_criu_def upd_resp_def get_bool_def empty_opts_def)
      (intro exI conjI, rule refl, simp_all, (rule refl | simp)+)
  then obtain images j o3 w2 where r: "adapted (pluginDumpHandler ?env) (dump_middleware ?env) ?o1 ?w0 = map_option (finish_dump ?env images False Nothing) (process_chain ?env o3 w2)"
    and w2: "dqType (dReq w2) = ''process''" "dqDetails (dReq w2) = Some \<lparr>dJID = None, dProcessPID = 7, dRest = []\<rparr>" "drState (dResp w2) = None" "oCallback o3"
      "dqCriu (dReq w2) \<noteq> None" "dGpu w2 = new_cb gpu_one []" "dStuck w2 = False" "dCallbacks w2 = [CbCompress j]"
    and j: "tjStorage j = local_storage (eFiles ?env)" "tjCompression j = ''tar''" by blast
  obtain p where p: "dqCriu (dReq w2) = Some p" using w2(5) by blast
  obtain w3 i where w3: "process_chain ?env o3 w2 = criu_Dump ?env o3 w3" "dCallbacks w3 = dCallbacks w2 @ [CbExternalFiles 7]" "dqCriu (dReq w3) \<noteq> None"
    "drState (dResp w3) = Some (ProcessState i [])" "UIDs i = [0]" "GIDs i = [0]" "dStuck w3 = dStuck w2" "dGpu w3 = dGpu w2"
    using site_chain [OF w2(1,2) _ w2(3,4) p, of "''tar''"] w2(6) by (auto simp: new_cb_def)
  obtain p3 where p3: "dqCriu (dReq w3) = Some p3" using w3(3) by blast
  obtain w4 where "criu_Dump ?env o3 w3 = Some ((True, None), w4)"
    using criu_site_run [OF p3 w3(4) _ _ w2(4) _ site_compress [OF j]] w3 w2 by (auto simp: new_cb_def)
  then show ?thesis
    using r w3(1) b by (simp add: Server_Dump_def run_dump_def New_for_dump_def req_jid_def dump_request_def finish_dump_eq Let_def)
qed

lemma site_plain: "plain_request (dump_site c) (dump_request pid)"
  by (simp add: plain_request_def dump_site_def dump_request_def req_jid_def)



theorem dump_declares_external_files_witness:
  "\<exists>resp w' p. Server_Dump (dump_site ''tar'') (dump_request 7) = Some (Inr resp, w') \<and> dCriuRuns w' = [p]"
proof -
  obtain resp w' where r: "Server_Dump (dump_site ''tar'') (dump_request 7) = Some (Inr resp, w')" using site_dump by blast
  show ?thesis using dump_declares_external_files [OF r site_plain] r by (auto simp: dump_request_def)
qed

theorem failed_dump_cleans_up_witness:
  "\<exists>e w'. Server_Dump (dump_site ''tar'') (dump_request 0) = Some (Inl e, w') \<and> dImages w' = []"
proof -
  have "case Server_Dump (dump_site ''tar'') (dump_request 0) of Some (Inl e, _) \<Rightarrow> named_result (Some e) \<noteq> None | _ \<Rightarrow> False" by code_simp
  then obtain e w' where r: "Server_Dump (dump_site ''tar'') (dump_request 0) = Some (Inl e, w')" and e: "named_result (Some e) \<noteq> None"
    by (auto split: option.splits sum.splits)
  show ?thesis using failed_dump_cleans_up [OF r site_plain e] r by (simp add: dump_request_def)
qed

theorem network_options_agree_witness:
  "DetectNetworkOptionsForDump (dump_site ''tar'') (\<lambda>_ w. Some ((True, None), w)) (no_opts (dump_site ''tar'') False)
     ((dump_request 7)\<lparr>dResp := new_resp\<lparr>drState := Some (ProcessState empty_info [])\<rparr>\<rparr>) =
   Some ((True, None), upd_criu (\<lambda>p. p\<lparr>TcpEstablished := Some (get_bool (TcpEstablished p)), ExtUnixSk := Some (get_bool (ExtUnixSk p))\<rparr>)
     ((dump_request 7)\<lparr>dResp := new_resp\<lparr>drState := Some (ProcessState empty_info [])\<rparr>\<rparr>))"
  using network_options_agree [of "(dump_request 7)\<lparr>dResp := new_resp\<lparr>drState := Some (ProcessState empty_info [])\<rparr>\<rparr>" "ProcessState empty_info []"]
  by (simp add: empty_info_def)

end
