(* ===== verification/Spec2Isabelle.thy ===== *)
theory Spec2Isabelle
  imports Job_Lifecycle Gpu_Booking Config Plugins Dump_Props
begin

text \<open>
  \<^bold>\<open>A verification development for the Cedana checkpoint/restore daemon\<close>

  Cedana checkpoints, restores and manages processes and containers. A request reaches the daemon over gRPC, passes a chain of
  adapters, is turned into CRIU options and handed to CRIU, which calls back into the daemon through notification hooks;
  GPU state is kept by separate controller processes that the daemon pools; jobs are kept in memory and written to a database by a
  background routine; plugins extend all of this. The development follows that structure: one theory per component, each opening with what it holds.

  \<^bold>\<open>The language\<close>

  \<^item> \<open>Cedana_Prelude\<close>, \<open>Go_Strings\<close>, \<open>Go_Paths\<close>: Go errors are values of \<open>goerr\<close>, a fallible call returns
    \<open>goerr + 'a\<close>, a panic is the error \<open>Panic\<close>; machine integers are words; a \<open>sync.Map\<close> is an association list with the
    laws of the locale \<open>sync_map\<close>; the functions of \<open>strings\<close>, \<open>strconv\<close> and \<open>path/filepath\<close> that the sources call.
  \<^item> \<open>Process_Utils\<close>, \<open>Process_Tree\<close>, \<open>Utils\<close>: \<open>pkg/utils\<close>, the inspection of processes and hosts, the breadth-first walk
    over process trees, and smaller helpers. The walk is a \<open>partial_function\<close>; it is shown to end if the scan saw every process once and the process is
    not its own descendant, and, where everything is readable, to return exactly the descendants, each below its parent.

  \<^bold>\<open>CRIU\<close>

  \<^item> \<open>Criu_Notify\<close>, \<open>Criu_Swrk\<close>: \<open>pkg/criu\<close>, the notification hooks and the driver of \<open>criu swrk\<close> with its messages,
    its child process, descriptors and thread. Hooks act on a state \<open>'s\<close>, so they can be instantiated with the hooks of any
    component. The theorems give the hooks that run and their order, what the driver leaves behind, and what a success means.
  \<^item> \<open>Criu_Contract\<close>: contracts of hooks as locales, kept by the driver whatever CRIU sends.
  \<^item> \<open>Criu_Checks\<close>: \<open>internal/cedana/criu/checks.go\<close>, finding CRIU and refusing what its version cannot do.

  \<^bold>\<open>Dumping\<close>

  \<^item> \<open>Adapters\<close>, \<open>Pipeline\<close>: \<open>pkg/types\<close>, the composition of handlers with adapters and the health checks; what the adapters of a request have
    in common, as a locale. The lemmas give the order of the middleware and what a short circuit skips.
  \<^item> \<open>Archive\<close>, \<open>Storage\<close>: \<open>pkg/io\<close> and \<open>internal/cedana/filesystem/storage.go\<close>, tarballs, their compression and where they are kept. A
    stream remembers the codec that wrote it; what another codec or a truncated stream gives is a parameter. Unpacking stays below its
    destination, and what was packed is unpacked.
  \<^item> \<open>Dump_Adapters\<close>, \<open>Dump_Props\<close>: every adapter of \<open>Server.Dump\<close> in its order and the handler that calls CRIU, composed as in
    \<open>internal/cedana/dump.go\<close>. The theorems are about whole requests for a process that name no job and do not stream: what CRIU is given, which files of the process tree are
    declared, what is in storage after a success and what is removed after a failure.

  \<^bold>\<open>Jobs\<close>

  \<^item> \<open>Db_Sqlite\<close>: \<open>internal/db\<close> over SQLite, with the tables of \<open>schema.sql\<close> as lists of rows and the generated queries
    with their constraints; round trips through the database.
  \<^item> \<open>Job\<close>, \<open>Job_Manager\<close>, \<open>Job_Invariants\<close>, \<open>Job_Sync\<close>, \<open>Job_Lifecycle\<close>: \<open>internal/cedana/job\<close>, jobs in a heap (they
    are shared by pointer), all operations of the lazy manager, its background routine, an invariant of all reachable
    states, and what a shutdown guarantees. The manager uses the database through the locale \<open>mgr_store\<close>, interpreted on the
    SQLite model. Most of these theories let the channel of actions grow; \<open>routine_step\<close> of \<open>Job_Lifecycle\<close> gives it its 64 places and
    shows that the background routine can block itself. Killing is shown to reach a process that has taken over the PID of a job.

  \<^bold>\<open>GPUs\<close>

  \<^item> \<open>Gpu_Pool\<close>, \<open>Gpu_Pool_Props\<close>, \<open>Gpu_Booking\<close>: \<open>internal/cedana/gpu\<close>, the pool of GPU controllers and both managers: that
    controllers in use are left alone, that the target size is reached, and who gets a free controller.
  \<^item> \<open>Gpu_Callback\<close>: the hooks through which CRIU dumps and restores the GPU, composed with the driver: when the GPU stays frozen, when the mutex of the
    controller stays locked, and what a successful restore has done.

  \<^bold>\<open>Plugins and configuration\<close>

  \<^item> \<open>Features\<close>: \<open>pkg/plugins/feature.go\<close>, calling a symbol of every selected plugin, with its errors and panics.
  \<^item> \<open>Plugins\<close>: \<open>pkg/plugins\<close>, the registry and the two managers that install and remove plugins.
  \<^item> \<open>Config\<close>: \<open>pkg/config\<close> and the reflective part of \<open>pkg/utils\<close> it uses: configuration types as data, environment
    variables, the scan of the command line, loading and writing.

  Answers of the operating system, of CRIU, of gRPC peers and of third-party libraries are parameters, gathered in records
  (\<open>proc_env\<close>, \<open>swrk_env\<close>, \<open>sql_env\<close>, \<open>gpu_env\<close>, \<open>untar_env\<close>, \<open>dump_env\<close>, \<open>viper\<close>); a theorem that needs more of them than an arbitrary value
  states it as a hypothesis. An operation that would block for ever returns \<open>None\<close>, and a loop that need not end is a
  \<open>partial_function (option)\<close>; no fuel is used in the model. Goroutines are modelled where a theorem is about them: those of the job manager as steps,
  those of the pool manager one after the other, those of an archive writer by the order in which they close the file.

  \<^bold>\<open>Not modelled.\<close> Logging, metrics, tracing and terminal styling have no effect on the behaviour stated here. The command
  line (\<open>cmd/\<close>) and the gRPC client only build requests and print answers. Generated protobuf code and third-party
  libraries are parameters. The restore, run and freeze pipelines, the streamer, virtual machines and the plugins under \<open>plugins/\<close> are left out, except for
  what they share with the parts above.
\<close>

end
